(* ===== verification/Prelude.thy ===== *)
theory Prelude
  imports Complex_Main "HOL-Library.AList" "HOL-Library.List_Lexorder" "HOL-Library.Char_ord"
    "HOL-Library.Sublist"
begin

text \<open>
  Shared material of the development: fallible computations as sums (an exception is
  \<open>Inl\<close>), the string methods of Python that the program uses, dictionaries as association
  lists in insertion order, and \<open>sorted(set(...))\<close>.

  Strings are lists of code points below 256, that is, Latin-1 text: \<open>char\<close> is a
  Python character and the methods below agree with those of \<open>str\<close> on such text.
\<close>

named_theorems res_simps "results of fallible computations"
named_theorems str_simps "string methods"

type_synonym ('e, 'a) res = "'e + 'a"


section \<open>Fallible computations\<close>

definition bind_res :: "('e, 'a) res \<Rightarrow> ('a \<Rightarrow> ('e, 'b) res) \<Rightarrow> ('e, 'b) res" where
  "bind_res r f = (case r of Inl e \<Rightarrow> Inl e | Inr v \<Rightarrow> f v)"

definition ensure :: "bool \<Rightarrow> 'e \<Rightarrow> ('e, unit) res" where
  "ensure b e = (if b then Inr () else Inl e)"

text \<open>A \<open>for\<close> loop whose body only checks; it stops at the first exception.\<close>

fun for_each :: "('a \<Rightarrow> ('e, unit) res) \<Rightarrow> 'a list \<Rightarrow> ('e, unit) res" where
  "for_each f [] = Inr ()"
| "for_each f (x # xs) = bind_res (f x) (\<lambda>_. for_each f xs)"

text \<open>A list comprehension whose element may raise.\<close>

fun map_res :: "('a \<Rightarrow> ('e, 'b) res) \<Rightarrow> 'a list \<Rightarrow> ('e, 'b list) res" where
  "map_res f [] = Inr []"
| "map_res f (x # xs) =
     bind_res (f x) (\<lambda>y. bind_res (map_res f xs) (\<lambda>ys. Inr (y # ys)))"

text \<open>A \<open>for\<close> loop that updates a state and may raise.\<close>

fun fold_res :: "('a \<Rightarrow> 's \<Rightarrow> ('e, 's) res) \<Rightarrow> 'a list \<Rightarrow> 's \<Rightarrow> ('e, 's) res" where
  "fold_res f [] s = Inr s"
| "fold_res f (x # xs) s = bind_res (f x s) (fold_res f xs)"

lemma bind_res_simps [simp]:
  "bind_res (Inl e) f = Inl e"
  "bind_res (Inr v) f = f v"
  by (simp_all add: bind_res_def)

lemma bind_res_Inr [res_simps]:
  "bind_res r f = Inr w \<longleftrightarrow> (\<exists>v. r = Inr v \<and> f v = Inr w)"
  by (cases r) auto

lemma bind_res_Inl [res_simps]:
  "bind_res r f = Inl e \<longleftrightarrow> r = Inl e \<or> (\<exists>v. r = Inr v \<and> f v = Inl e)"
  by (cases r) auto

lemma ex_checked [res_simps]:
  "(\<exists>b. r = Inr b \<and> b \<and> P) \<longleftrightarrow> r = Inr True \<and> P"
  "(\<exists>b. r = Inr b \<and> b) \<longleftrightarrow> r = Inr True"
  by auto

lemma bind_res_assoc: "bind_res (bind_res r f) g = bind_res r (\<lambda>v. bind_res (f v) g)"
  by (cases r) auto

lemma bind_res_cong [fundef_cong]:
  "r = r' \<Longrightarrow> (\<And>v. r' = Inr v \<Longrightarrow> f v = g v) \<Longrightarrow> bind_res r f = bind_res r' g"
  by (cases r') auto

lemma ensure_simps [simp]:
  "ensure True e = Inr ()"
  "ensure False e = Inl e"
  "ensure b e = Inr u \<longleftrightarrow> b"
  "ensure b e = Inl e' \<longleftrightarrow> \<not> b \<and> e' = e"
  by (auto simp: ensure_def)

lemma for_each_Inr: "for_each f xs = Inr u \<longleftrightarrow> (\<forall>x\<in>set xs. f x = Inr ())"
  by (induction xs) (auto simp: res_simps)

lemma for_each_append: "for_each f (xs @ ys) = bind_res (for_each f xs) (\<lambda>_. for_each f ys)"
  by (induction xs) (auto simp: bind_res_assoc)

lemma for_each_Inl:
  assumes "for_each f xs = Inl e"
  shows "\<exists>ys x zs. xs = ys @ x # zs \<and> (\<forall>y\<in>set ys. f y = Inr ()) \<and> f x = Inl e"
  using assms
proof (induction xs)
  case Nil
  then show ?case by simp
next
  case (Cons x xs)
  show ?case
  proof (cases "f x")
    case (Inl e')
    with Cons.prems have "x # xs = [] @ x # xs \<and> f x = Inl e" by simp
    then show ?thesis by (metis empty_iff empty_set)
  next
    case (Inr u)
    with Cons obtain ys y zs where "xs = ys @ y # zs" "\<forall>y\<in>set ys. f y = Inr ()" "f y = Inl e"
      by auto
    with Inr have "x # xs = (x # ys) @ y # zs \<and> (\<forall>y\<in>set (x # ys). f y = Inr ()) \<and> f y = Inl e"
      by simp
    then show ?thesis by blast
  qed
qed

lemma map_res_Inr:
  "map_res f xs = Inr ys \<longleftrightarrow> list_all2 (\<lambda>x y. f x = Inr y) xs ys"
  by (induction xs arbitrary: ys) (auto simp: res_simps list_all2_Cons1)

lemma list_all2_set2: "list_all2 P xs ys \<Longrightarrow> y \<in> set ys \<Longrightarrow> \<exists>x\<in>set xs. P x y"
  by (induction rule: list_all2_induct) auto

lemma list_all2_set1: "list_all2 P xs ys \<Longrightarrow> x \<in> set xs \<Longrightarrow> \<exists>y\<in>set ys. P x y"
  by (induction rule: list_all2_induct) auto

lemma map_res_total: "(\<And>x. x \<in> set xs \<Longrightarrow> f x = Inr (g x)) \<Longrightarrow> map_res f xs = Inr (map g xs)"
  by (induction xs) auto

lemma fold_res_append:
  "fold_res f (xs @ ys) s = bind_res (fold_res f xs s) (fold_res f ys)"
proof (induction xs arbitrary: s)
  case (Cons x xs)
  then show ?case by (cases "f x s") auto
qed simp

text \<open>Every property that each iteration keeps holds at the end of the loop.\<close>

lemma fold_res_invariant:
  assumes "fold_res f xs s = Inr t" and "I s"
    and "\<And>x s t. x \<in> set xs \<Longrightarrow> f x s = Inr t \<Longrightarrow> I s \<Longrightarrow> I t"
  shows "I t"
  using assms by (induction xs arbitrary: s) (auto simp: res_simps)

text \<open>
  Simulation of a loop: if every iteration keeps an invariant and acts on an abstraction of the
  state as a step on something that it computes without the state, the loop acts as the fold of
  these steps.
\<close>

lemma fold_res_simulates:
  assumes "fold_res f xs s = Inr t" and "I s"
    and "\<And>x s t. x \<in> set xs \<Longrightarrow> f x s = Inr t \<Longrightarrow> I s
      \<Longrightarrow> I t \<and> (\<exists>y. g x = Inr y \<and> view t = step y (view s))"
  shows "I t \<and> (\<exists>ys. map_res g xs = Inr ys \<and> view t = fold step ys (view s))"
  using assms
proof (induction xs arbitrary: s)
  case (Cons x xs)
  then obtain u where u: "f x s = Inr u" "fold_res f xs u = Inr t" by (auto simp: res_simps)
  with Cons.prems obtain y where y: "I u" "g x = Inr y" "view u = step y (view s)" by fastforce
  have "I t \<and> (\<exists>ys. map_res g xs = Inr ys \<and> view t = fold step ys (view u))"
    by (rule Cons.IH [OF u(2) y(1)]) (rule Cons.prems(3), simp_all)
  with y show ?case by auto
qed simp

text \<open>A loop whose iterations all succeed succeeds.\<close>

lemma fold_res_total:
  assumes "I s" and "\<And>x s. x \<in> set xs \<Longrightarrow> I s \<Longrightarrow> \<exists>t. f x s = Inr t \<and> I t"
  shows "\<exists>t. fold_res f xs s = Inr t \<and> I t"
  using assms
proof (induction xs arbitrary: s)
  case (Cons x xs)
  then obtain u where "f x s = Inr u" "I u" by fastforce
  with Cons show ?case by simp
qed simp

lemma distinct_filter_nth:
  assumes "distinct (filter P xs)" and "i < length xs" and "j < i" and "P (xs ! i)"
  shows "xs ! j \<noteq> xs ! i"
proof
  assume eq: "xs ! j = xs ! i"
  have "filter P xs = filter P (take i xs) @ xs ! i # filter P (drop (Suc i) xs)"
    using assms(2,4) by (subst id_take_nth_drop [of i xs]) simp_all
  with assms(1) have "xs ! i \<notin> set (filter P (take i xs))" by simp
  moreover have "xs ! j \<in> set (take i xs)"
    using assms(2,3) by (metis in_set_conv_nth length_take min.absorb4 nth_take)
  ultimately show False using eq assms(4) by simp
qed


section \<open>Grouping\<close>

text \<open>
  A dictionary from keys to lists that is filled in a loop: the groups are in the order of the
  first occurrence of their keys. A key that \<open>lone\<close> marks is equal to no key, not even to
  itself, as a key that holds a NaN.
\<close>

fun add_group :: "('k \<Rightarrow> bool) \<Rightarrow> 'k \<Rightarrow> 'v \<Rightarrow> ('k \<times> 'v list) list \<Rightarrow> ('k \<times> 'v list) list" where
  "add_group lone k v [] = [(k, [v])]"
| "add_group lone k v ((k', vs) # gs) =
     (if k = k' \<and> \<not> lone k then (k', vs @ [v]) # gs else (k', vs) # add_group lone k v gs)"

definition group_by :: "('k \<Rightarrow> bool) \<Rightarrow> ('v \<Rightarrow> 'k) \<Rightarrow> 'v list \<Rightarrow> ('k \<times> 'v list) list" where
  "group_by lone key xs = fold (\<lambda>x. add_group lone (key x) x) xs []"

lemma add_group_new: "lone k \<or> k \<notin> fst ` set gs \<Longrightarrow> add_group lone k v gs = gs @ [(k, [v])]"
  by (induction gs) auto

lemma add_group_keys:
  "map fst (add_group lone k v gs)
     = (if lone k \<or> k \<notin> fst ` set gs then map fst gs @ [k] else map fst gs)"
  by (induction gs) force+

lemma add_group_distinct:
  "distinct (filter (\<lambda>k. \<not> lone k) (map fst gs))
   \<Longrightarrow> distinct (filter (\<lambda>k. \<not> lone k) (map fst (add_group lone k v gs)))"
  by (auto simp: add_group_keys)

lemma add_group_size:
  "sum_list (map (\<lambda>g. length (snd g)) (add_group lone k v gs)) = Suc (sum_list (map (\<lambda>g. length (snd g)) gs))"
  by (induction gs) auto

lemma add_group_hit:
  assumes "j < length gs" and "fst (gs ! j) = k" and "\<not> lone k"
    and "distinct (filter (\<lambda>k. \<not> lone k) (map fst gs))"
  shows "add_group lone k v gs = gs[j := (k, snd (gs ! j) @ [v])]"
  using assms
proof (induction gs arbitrary: j)
  case (Cons g gs)
  obtain k' es where g: "g = (k', es)" by force
  show ?case
  proof (cases j)
    case 0
    with Cons.prems g show ?thesis by simp
  next
    case (Suc j')
    with Cons.prems have j': "j' < length gs" "fst (gs ! j') = k" by simp_all
    then have "k \<in> fst ` set gs" by (metis image_eqI nth_mem)
    with Cons.prems(3,4) g have "k' \<noteq> k" by force
    with Cons g Suc j' show ?thesis by (auto split: if_splits)
  qed
qed simp

text \<open>What the groups are: the keys are distinct, and a group holds the members with its key.\<close>

definition group_ok :: "('k \<Rightarrow> bool) \<Rightarrow> ('v \<Rightarrow> 'k) \<Rightarrow> 'v list \<Rightarrow> 'k \<Rightarrow> 'v list \<Rightarrow> bool" where
  "group_ok lone key xs k vs \<longleftrightarrow>
     (if lone k then \<exists>v. vs = [v] \<and> key v = k else vs \<noteq> [] \<and> vs = filter (\<lambda>x. key x = k) xs)"

lemma group_ok_key: "group_ok lone key xs k vs \<Longrightarrow> v \<in> set vs \<Longrightarrow> key v = k"
  by (cases "lone k") (force simp: group_ok_def)+

lemma group_ok_snoc:
  "group_ok lone key xs k vs \<Longrightarrow> lone k \<or> key x \<noteq> k \<Longrightarrow> group_ok lone key (xs @ [x]) k vs"
  by (cases "lone k") (simp add: group_ok_def, unfold group_ok_def, simp only: filter_append, simp, metis)

definition groups_of :: "('k \<Rightarrow> bool) \<Rightarrow> ('v \<Rightarrow> 'k) \<Rightarrow> 'v list \<Rightarrow> ('k \<times> 'v list) list \<Rightarrow> bool" where
  "groups_of lone key xs gs \<longleftrightarrow>
     distinct (filter (\<lambda>k. \<not> lone k) (map fst gs))
     \<and> (\<forall>g\<in>set gs. group_ok lone key xs (fst g) (snd g))
     \<and> set xs = (\<Union>g\<in>set gs. set (snd g))"

lemma groups_ofD:
  assumes "groups_of lone key xs gs"
  shows "distinct (filter (\<lambda>k. \<not> lone k) (map fst gs))"
    and "(k, vs) \<in> set gs \<Longrightarrow> group_ok lone key xs k vs"
    and "(k, vs) \<in> set gs \<Longrightarrow> x \<in> set vs \<Longrightarrow> x \<in> set xs"
    and "x \<in> set xs \<Longrightarrow> \<exists>k vs. (k, vs) \<in> set gs \<and> x \<in> set vs"
  using assms unfolding groups_of_def by (blast, fastforce, fastforce, force)

lemma add_group_members:
  assumes "(k', vs) \<in> set (add_group lone k v gs)"
    and "distinct (filter (\<lambda>k. \<not> lone k) (map fst gs))"
  shows "(k', vs) \<in> set gs \<and> (k' \<noteq> k \<or> lone k) \<or> (k' = k \<and> vs = [v] \<and> (lone k \<or> k \<notin> fst ` set gs))
    \<or> (\<exists>us. k' = k \<and> \<not> lone k \<and> (k, us) \<in> set gs \<and> vs = us @ [v])"
  using assms
proof (induction gs)
  case (Cons g gs)
  obtain k1 us where g: "g = (k1, us)" by force
  show ?case
  proof (cases "k = k1 \<and> \<not> lone k")
    case True
    with Cons.prems g have "(k', vs) = (k1, us @ [v]) \<or> (k', vs) \<in> set gs" by auto
    moreover have "k1 \<notin> fst ` set gs" using True Cons.prems(2) g by force
    ultimately show ?thesis using True g by force
  next
    case False
    with Cons.prems g have "(k', vs) = (k1, us) \<or> (k', vs) \<in> set (add_group lone k v gs)" by auto
    moreover have "distinct (filter (\<lambda>k. \<not> lone k) (map fst gs))" using Cons.prems(2) by (simp split: if_splits)
    ultimately show ?thesis using Cons.IH False g by auto
  qed
qed auto

lemma add_group_elems:
  "(\<Union>g\<in>set (add_group lone k v gs). set (snd g)) = insert v (\<Union>g\<in>set gs. set (snd g))"
proof (induction gs)
  case (Cons g gs)
  obtain k1 us where g: "g = (k1, us)" by force
  show ?case
  proof (cases "k = k1 \<and> \<not> lone k")
    case True
    then show ?thesis by (auto simp: g)
  next
    case False
    then have "(\<Union>g\<in>set (add_group lone k v (g # gs)). set (snd g))
        = set us \<union> (\<Union>g\<in>set (add_group lone k v gs). set (snd g))" by (auto simp: g)
    with Cons.IH g show ?thesis by simp
  qed
qed simp

lemma groups_of_add:
  assumes "groups_of lone key xs gs"
  shows "groups_of lone key (xs @ [x]) (add_group lone (key x) x gs)"
proof -
  let ?k = "key x" and ?hs = "add_group lone (key x) x gs"
  note d = groups_ofD(1) [OF assms] and m = groups_ofD(2) [OF assms] and s = groups_ofD(4) [OF assms]
  have fresh: "filter (\<lambda>y. key y = ?k) xs = []" if "?k \<notin> fst ` set gs"
  proof -
    have "key y \<noteq> ?k" if "y \<in> set xs" for y
    proof -
      from s [OF that] obtain k vs where kv: "(k, vs) \<in> set gs" "y \<in> set vs" by blast
      from group_ok_key [OF m [OF kv(1)] kv(2)] have "key y = k" .
      with kv(1) \<open>?k \<notin> fst ` set gs\<close> show ?thesis by force
    qed
    then show ?thesis by (simp add: filter_empty_conv)
  qed
  have "group_ok lone key (xs @ [x]) k vs" if kv: "(k, vs) \<in> set ?hs" for k vs
    using add_group_members [OF kv d]
  proof (elim disjE exE conjE)
    assume "(k, vs) \<in> set gs" "k \<noteq> ?k"
    with m [OF this(1)] show ?thesis by (metis group_ok_snoc)
  next
    assume "(k, vs) \<in> set gs" "lone ?k"
    with m [OF this(1)] show ?thesis by (metis group_ok_snoc)
  next
    assume "k = ?k" "vs = [x]" "lone ?k"
    then show ?thesis by (simp add: group_ok_def)
  next
    assume "k = ?k" "vs = [x]" "?k \<notin> fst ` set gs"
    with fresh show ?thesis by (simp add: group_ok_def)
  next
    fix us assume "k = ?k" "\<not> lone ?k" "(?k, us) \<in> set gs" "vs = us @ [x]"
    with m [OF this(3)] show ?thesis by (simp add: group_ok_def)
  qed
  then have "\<forall>g\<in>set ?hs. group_ok lone key (xs @ [x]) (fst g) (snd g)" by simp
  moreover have "set (xs @ [x]) = (\<Union>g\<in>set ?hs. set (snd g))"
    using assms by (simp add: add_group_elems groups_of_def)
  ultimately show ?thesis
    using add_group_distinct [OF d] unfolding groups_of_def by blast
qed

lemma group_by_groups_of: "groups_of lone key xs (group_by lone key xs)"
proof (induction xs rule: rev_induct)
  case Nil
  then show ?case by (simp add: groups_of_def group_by_def)
next
  case (snoc x xs)
  from groups_of_add [OF this, of x] show ?case by (simp add: group_by_def)
qed

lemma group_by_size: "sum_list (map (\<lambda>g. length (snd g)) (group_by lone key xs)) = length xs"
proof (induction xs rule: rev_induct)
  case (snoc x xs)
  then show ?case by (simp add: group_by_def add_group_size)
qed (simp add: group_by_def)

text \<open>Without lone keys: one group for every key, holding exactly the members with that key.\<close>

lemma group_by_plain:
  assumes "\<And>x. x \<in> set xs \<Longrightarrow> \<not> lone (key x)"
  shows "distinct (map fst (group_by lone key xs))"
    and "(k, vs) \<in> set (group_by lone key xs) \<longleftrightarrow> k \<in> key ` set xs \<and> vs = filter (\<lambda>x. key x = k) xs"
proof -
  let ?gs = "group_by lone key xs"
  note g = groups_ofD [OF group_by_groups_of [of lone key xs]]
  have keys: "\<not> lone k \<and> k \<in> key ` set xs \<and> vs = filter (\<lambda>x. key x = k) xs"
    if kv: "(k, vs) \<in> set ?gs" for k vs
  proof -
    note ok = g(2) [OF kv]
    have "vs \<noteq> []" using ok by (auto simp: group_ok_def split: if_splits)
    then have v: "hd vs \<in> set vs" "key (hd vs) = k" using group_ok_key [OF ok] by simp_all
    from g(3) [OF kv v(1)] have x: "hd vs \<in> set xs" .
    with assms v(2) have "\<not> lone k" by metis
    moreover from x v(2) have "k \<in> key ` set xs" by blast
    ultimately show ?thesis using ok by (simp add: group_ok_def)
  qed
  then have "filter (\<lambda>k. \<not> lone k) (map fst ?gs) = map fst ?gs"
    by (auto simp: filter_id_conv)
  with g(1) show "distinct (map fst ?gs)" by metis
  show "(k, vs) \<in> set ?gs \<longleftrightarrow> k \<in> key ` set xs \<and> vs = filter (\<lambda>x. key x = k) xs"
  proof
    assume *: "k \<in> key ` set xs \<and> vs = filter (\<lambda>x. key x = k) xs"
    then obtain x where x: "x \<in> set xs" "k = key x" by blast
    from g(4) [OF x(1)] obtain k' us where us: "(k', us) \<in> set ?gs" "x \<in> set us" by blast
    from group_ok_key [OF g(2) [OF us(1)] us(2)] have "key x = k'" .
    with keys [OF us(1)] us(1) * x show "(k, vs) \<in> set ?gs" by simp
  qed (use keys in blast)
qed

end
