(* ===== verification/PyString.thy ===== *)
theory PyString
  imports Prelude
begin

text \<open>
  The methods of \<open>str\<close> that the program calls (\<open>strip\<close>, \<open>lower\<close>, \<open>split\<close>, \<open>join\<close>,
  \<open>isalpha\<close>, \<open>replace\<close> of one character), decimal rendering of integers, and
  \<open>sorted(set(...))\<close>. All of them are exact on Latin-1 text; \<open>upper\<close> is modelled on
  ASCII letters only.
\<close>

abbreviation code :: "char \<Rightarrow> nat" where
  "code c \<equiv> of_char c"


section \<open>Character classes and case\<close>

text \<open>\<open>str.isspace\<close> on Latin-1; the characters that \<open>str.strip()\<close> removes.\<close>

definition is_space :: "char \<Rightarrow> bool" where
  "is_space c = (let n = code c in
     (9 \<le> n \<and> n \<le> 13) \<or> (28 \<le> n \<and> n \<le> 32) \<or> n = 133 \<or> n = 160)"

definition is_digit :: "char \<Rightarrow> bool" where
  "is_digit c = (48 \<le> code c \<and> code c \<le> 57)"

definition is_ascii_alnum :: "char \<Rightarrow> bool" where
  "is_ascii_alnum c = (let n = code c in
     (65 \<le> n \<and> n \<le> 90) \<or> (97 \<le> n \<and> n \<le> 122) \<or> (48 \<le> n \<and> n \<le> 57))"

text \<open>\<open>str.isalpha\<close> of one Latin-1 character.\<close>

definition is_alpha :: "char \<Rightarrow> bool" where
  "is_alpha c = (let n = code c in
     (65 \<le> n \<and> n \<le> 90) \<or> (97 \<le> n \<and> n \<le> 122) \<or> n = 170 \<or> n = 181 \<or> n = 186
     \<or> (192 \<le> n \<and> n \<noteq> 215 \<and> n \<noteq> 247))"

definition lower_char :: "char \<Rightarrow> char" where
  "lower_char c = (let n = code c in
     if (65 \<le> n \<and> n \<le> 90) \<or> (192 \<le> n \<and> n \<le> 222 \<and> n \<noteq> 215)
     then char_of (n + 32) else c)"

definition upper_char :: "char \<Rightarrow> char" where
  "upper_char c = (let n = code c in if 97 \<le> n \<and> n \<le> 122 then char_of (n - 32) else c)"

definition py_lower :: "string \<Rightarrow> string" where
  "py_lower s = map lower_char s"

definition py_upper :: "string \<Rightarrow> string" where
  "py_upper s = map upper_char s"

lemma code_lower_char:
  "code (lower_char c) =
     (if (65 \<le> code c \<and> code c \<le> 90) \<or> (192 \<le> code c \<and> code c \<le> 222 \<and> code c \<noteq> 215)
      then code c + 32 else code c)"
  by (auto simp: lower_char_def Let_def)

lemma lower_char_idem [simp]: "lower_char (lower_char c) = lower_char c"
proof -
  have "code (lower_char (lower_char c)) = code (lower_char c)"
    by (simp add: code_lower_char)
  then show ?thesis by simp
qed

lemma is_space_lower_char [simp]: "is_space (lower_char c) = is_space c"
  by (auto simp: is_space_def Let_def code_lower_char)

lemma py_lower_idem [simp]: "py_lower (py_lower s) = py_lower s"
  by (simp add: py_lower_def)


section \<open>Stripping\<close>

definition strip_by :: "(char \<Rightarrow> bool) \<Rightarrow> string \<Rightarrow> string" where
  "strip_by P s = rev (dropWhile P (rev (dropWhile P s)))"

definition py_strip :: "string \<Rightarrow> string" where
  "py_strip s = strip_by is_space s"

lemma hd_strip_by: "strip_by P s \<noteq> [] \<Longrightarrow> \<not> P (hd (strip_by P s))"
proof -
  let ?d = "dropWhile P s"
  assume ne: "strip_by P s \<noteq> []"
  have d: "?d \<noteq> []"
  proof
    assume "?d = []"
    then have "strip_by P s = []" by (simp add: strip_by_def del: dropWhile_eq_Nil_conv)
    with ne show False by simp
  qed
  have split: "?d = strip_by P s @ rev (takeWhile P (rev ?d))"
    by (metis rev_append rev_rev_ident strip_by_def takeWhile_dropWhile_id)
  have "hd ?d = hd (strip_by P s)"
    by (subst split) (simp add: ne)
  with hd_dropWhile [OF d] show ?thesis by simp
qed

lemma last_strip_by: "strip_by P s \<noteq> [] \<Longrightarrow> \<not> P (last (strip_by P s))"
  using hd_dropWhile [of P "rev (dropWhile P s)"]
  by (simp add: strip_by_def last_rev del: dropWhile_eq_Nil_conv)

lemma strip_by_eq_self: "s = [] \<or> \<not> P (hd s) \<and> \<not> P (last s) \<Longrightarrow> strip_by P s = s"
proof -
  assume a: "s = [] \<or> \<not> P (hd s) \<and> \<not> P (last s)"
  then have "dropWhile P s = s" by (auto simp: dropWhile_eq_self_iff)
  moreover from a have "dropWhile P (rev s) = rev s"
    by (auto simp: dropWhile_eq_self_iff hd_rev)
  ultimately show ?thesis by (simp add: strip_by_def)
qed

lemma strip_by_idem [simp]: "strip_by P (strip_by P s) = strip_by P s"
  by (rule strip_by_eq_self) (auto simp: hd_strip_by last_strip_by)

lemma strip_by_Nil_iff [simp]: "strip_by P s = [] \<longleftrightarrow> (\<forall>c\<in>set s. P c)"
proof
  assume "strip_by P s = []"
  then have "\<forall>c\<in>set (dropWhile P s). P c" by (simp add: strip_by_def)
  moreover have "\<forall>c\<in>set (takeWhile P s). P c" by (auto dest: set_takeWhileD)
  ultimately show "\<forall>c\<in>set s. P c"
    by (metis UnE set_append takeWhile_dropWhile_id)
qed (auto simp: strip_by_def dest: set_dropWhileD)

lemma set_strip_by: "set (strip_by P s) \<subseteq> set s"
  by (auto simp: strip_by_def dest!: set_dropWhileD)

lemma strip_by_map: "strip_by P (map f s) = map f (strip_by (P \<circ> f) s)"
  by (simp add: strip_by_def dropWhile_map rev_map)

lemma py_strip_idem [simp]: "py_strip (py_strip s) = py_strip s"
  by (simp add: py_strip_def)

lemma py_strip_Nil [simp]: "py_strip [] = []"
  by (simp add: py_strip_def strip_by_def)

lemma py_strip_lower: "py_strip (py_lower s) = py_lower (py_strip s)"
  by (simp add: py_strip_def py_lower_def strip_by_map comp_def)


section \<open>Splitting and joining\<close>

text \<open>\<open>s.split(d)\<close> for a one-character separator: always at least one piece.\<close>

fun split_on :: "char \<Rightarrow> string \<Rightarrow> string list" where
  "split_on d [] = [[]]"
| "split_on d (c # cs) =
     (if c = d then [] # split_on d cs
      else (case split_on d cs of [] \<Rightarrow> [[c]] | w # ws \<Rightarrow> (c # w) # ws))"

text \<open>\<open>sep.join(ws)\<close>.\<close>

fun join :: "string \<Rightarrow> string list \<Rightarrow> string" where
  "join sep [] = []"
| "join sep [w] = w"
| "join sep (w # v # ws) = w @ sep @ join sep (v # ws)"

text \<open>\<open>s.replace(c, t)\<close> for a one-character pattern.\<close>

definition replace_char :: "char \<Rightarrow> string \<Rightarrow> string \<Rightarrow> string" where
  "replace_char c t s = concat (map (\<lambda>x. if x = c then t else [x]) s)"

lemma split_on_nonempty [simp]: "split_on d s \<noteq> []"
  by (induction s) (auto split: list.splits)

lemma join_split_on: "join [d] (split_on d s) = s"
proof (induction s)
  case (Cons c cs)
  show ?case
  proof (cases "split_on d cs")
    case (Cons w ws)
    with Cons.IH show ?thesis by (cases ws) auto
  qed simp
qed simp

lemma split_on_no_sep: "w \<in> set (split_on d s) \<Longrightarrow> d \<notin> set w"
  by (induction s arbitrary: w) (auto split: list.splits if_splits)

lemma split_on_single: "d \<notin> set s \<Longrightarrow> split_on d s = [s]"
  by (induction s) auto

lemma split_on_append: "d \<notin> set w \<Longrightarrow> split_on d (w @ d # s) = w # split_on d s"
  by (induction w) auto

lemma split_on_join:
  "ws \<noteq> [] \<Longrightarrow> (\<And>w. w \<in> set ws \<Longrightarrow> d \<notin> set w) \<Longrightarrow> split_on d (join [d] ws) = ws"
  by (induction "[d]" ws rule: join.induct) (auto simp: split_on_single split_on_append)

lemma set_split_on: "w \<in> set (split_on d s) \<Longrightarrow> set w \<subseteq> set s"
  by (induction s arbitrary: w) (fastforce split: list.splits if_splits)+


section \<open>Decimal numerals\<close>

definition digit_char :: "nat \<Rightarrow> char" where
  "digit_char n = char_of (48 + n)"

text \<open>\<open>str(n)\<close> of a natural number and of an integer.\<close>

fun dec_nat :: "nat \<Rightarrow> string" where
  "dec_nat n = (if n < 10 then [digit_char n] else dec_nat (n div 10) @ [digit_char (n mod 10)])"

declare dec_nat.simps [simp del]

definition dec_int :: "int \<Rightarrow> string" where
  "dec_int i = (if i < 0 then CHR ''-'' # dec_nat (nat (- i)) else dec_nat (nat i))"

text \<open>The format \<open>{n:03d}\<close> for \<open>n \<ge> 0\<close>.\<close>

definition pad3 :: "nat \<Rightarrow> string" where
  "pad3 n = replicate (3 - length (dec_nat n)) (CHR ''0'') @ dec_nat n"

text \<open>
  The digits of \<open>int(s)\<close>, with single underscores between digits; \<open>prev\<close> says that the
  character before was a digit.
\<close>

fun parse_digits :: "bool \<Rightarrow> nat \<Rightarrow> string \<Rightarrow> nat option" where
  "parse_digits prev acc [] = (if prev then Some acc else None)"
| "parse_digits prev acc (c # cs) =
     (if is_digit c then parse_digits True (10 * acc + (code c - 48)) cs
      else if c = CHR ''_'' \<and> prev then parse_digits False acc cs else None)"

text \<open>A sign, if there is one, and the rest.\<close>

fun split_sign :: "string \<Rightarrow> bool \<times> string" where
  "split_sign [] = (False, [])"
| "split_sign (c # cs) =
     (if c = CHR ''-'' then (True, cs) else if c = CHR ''+'' then (False, cs) else (False, c # cs))"

text \<open>\<open>int(s)\<close> of a string: \<open>None\<close> is \<open>ValueError\<close>.\<close>

definition parse_int :: "string \<Rightarrow> int option" where
  "parse_int s = (let (neg, ds) = split_sign (py_strip s) in
     map_option (\<lambda>n. if neg then - int n else int n) (parse_digits False 0 ds))"

lemma digit_char_digit:
  assumes "n < 10"
  shows "is_digit (digit_char n)" "code (digit_char n) = 48 + n" "\<not> is_space (digit_char n)"
    "is_ascii_alnum (digit_char n)"
  using assms by (auto simp: is_digit_def digit_char_def is_space_def is_ascii_alnum_def Let_def)

lemma dec_nat_nonempty [simp]: "dec_nat n \<noteq> []"
  by (subst dec_nat.simps) simp

lemma dec_nat_digits: "c \<in> set (dec_nat n) \<Longrightarrow> \<exists>k<10. c = digit_char k"
proof (induction n rule: dec_nat.induct)
  case (1 n)
  show ?case
  proof (cases "n < 10")
    case True
    with "1.prems" show ?thesis by (subst (asm) dec_nat.simps) auto
  next
    case False
    with "1.prems" have "c \<in> set (dec_nat (n div 10)) \<or> c = digit_char (n mod 10)"
      by (subst (asm) dec_nat.simps) auto
    with "1.IH" [OF False] show ?thesis by (metis mod_less_divisor zero_less_numeral)
  qed
qed

text \<open>The value of a digit string; \<open>parse_digits\<close> computes it.\<close>

definition digits_val :: "nat \<Rightarrow> string \<Rightarrow> nat" where
  "digits_val a ds = foldl (\<lambda>a c. 10 * a + (code c - 48)) a ds"

lemma parse_digits_all:
  "(\<And>c. c \<in> set ds \<Longrightarrow> is_digit c) \<Longrightarrow>
   parse_digits p a ds = (if ds = [] \<and> \<not> p then None else Some (digits_val a ds))"
  by (induction ds arbitrary: p a) (auto simp: digits_val_def)

lemma digits_val_dec_nat: "digits_val 0 (dec_nat n) = n"
proof (induction n rule: dec_nat.induct)
  case (1 n)
  show ?case
  proof (cases "n < 10")
    case True
    then show ?thesis by (subst dec_nat.simps) (simp add: digits_val_def digit_char_digit)
  next
    case False
    with "1.IH" show ?thesis
      by (subst dec_nat.simps) (simp add: digits_val_def digit_char_digit)
  qed
qed

lemma dec_nat_is_digit: "c \<in> set (dec_nat n) \<Longrightarrow> is_digit c"
  using dec_nat_digits by (metis digit_char_digit(1))

lemma parse_dec_nat: "parse_digits p 0 (dec_nat n) = Some n"
  by (simp add: parse_digits_all dec_nat_is_digit digits_val_dec_nat)

lemma dec_nat_inject [simp]: "dec_nat m = dec_nat n \<longleftrightarrow> m = n"
  by (metis digits_val_dec_nat)

lemma pad3_is_digit: "c \<in> set (pad3 n) \<Longrightarrow> is_digit c"
  by (auto simp: pad3_def dec_nat_is_digit) (simp add: is_digit_def)

lemma digits_val_zeros: "digits_val 0 (replicate k (CHR ''0'') @ ds) = digits_val 0 ds"
  by (induction k) (simp_all add: digits_val_def)

lemma pad3_inject [simp]: "pad3 m = pad3 n \<longleftrightarrow> m = n"
  by (metis digits_val_dec_nat digits_val_zeros pad3_def)

lemma is_digit_not_space: "is_digit c \<Longrightarrow> \<not> is_space c"
  by (auto simp: is_digit_def is_space_def Let_def)

lemma is_digit_alnum: "is_digit c \<Longrightarrow> is_ascii_alnum c"
  by (auto simp: is_digit_def is_ascii_alnum_def Let_def)

lemma parse_int_dec_int: "parse_int (dec_int i) = Some i"
proof -
  have nosp: "\<not> is_space (hd (dec_nat n))" "\<not> is_space (last (dec_nat n))"
    "hd (dec_nat n) \<noteq> CHR ''-''" "hd (dec_nat n) \<noteq> CHR ''+''" for n
    using dec_nat_is_digit [of "hd (dec_nat n)" n] dec_nat_is_digit [of "last (dec_nat n)" n]
    by (auto simp: is_digit_not_space) (auto simp: is_digit_def)
  have strip: "py_strip (dec_int i) = dec_int i"
    unfolding py_strip_def
    by (rule strip_by_eq_self) (simp add: dec_int_def nosp, simp add: is_space_def)
  have sign: "split_sign (dec_nat n) = (False, dec_nat n)" for n
    using nosp(3,4) [of n] by (cases "dec_nat n") auto
  show ?thesis
    unfolding parse_int_def strip by (auto simp: dec_int_def sign parse_dec_nat)
qed


section \<open>Sorted lists of distinct elements\<close>

text \<open>\<open>sorted(set(xs))\<close>; \<open>sorted\<close> on strings compares code points lexicographically.\<close>

definition sorted_set :: "'a::linorder list \<Rightarrow> 'a list" where
  "sorted_set xs = sort (remdups xs)"

lemma sorted_set_simps [simp]:
  "set (sorted_set xs) = set xs"
  "distinct (sorted_set xs)"
  "sorted (sorted_set xs)"
  by (simp_all add: sorted_set_def)

lemma sorted_set_cong: "set xs = set ys \<Longrightarrow> sorted_set xs = sorted_set ys"
  by (rule sorted_distinct_set_unique) simp_all

lemma sorted_set_id: "sorted xs \<Longrightarrow> distinct xs \<Longrightarrow> sorted_set xs = xs"
  by (rule sorted_distinct_set_unique) simp_all

lemma sorted_set_Nil_iff [simp]: "sorted_set xs = [] \<longleftrightarrow> xs = []"
  by (metis set_empty sorted_set_simps(1))

end
