(* ===== verification/PyValue.thy ===== *)
theory PyValue
  imports PyString
begin

text \<open>
  The Python values the program handles: what \<open>json.load\<close> returns, floats, and the
  dynamic operations on them (\<open>in\<close>, subscripts, \<open>get\<close>, truth value, \<open>int\<close>,
  \<open>float\<close>, \<open>str\<close>, hashing), each with the exceptions it raises.

  A finite float is an exact rational: the rounding of IEEE doubles is not modelled,
  infinities, NaN and overflow to infinity are. The text that \<open>repr\<close> gives for floats,
  lists and dicts is CPython's own and is the parameter \<open>rp\<close> of the functions that print
  such values.
\<close>

datatype pyfloat = Fin rat | PosInf | NegInf | NaN

datatype json =
    JNull
  | JBool bool
  | JInt int
  | JFloat pyfloat
  | JStr string
  | JList "json list"
  | JObj "(string \<times> json) list"

text \<open>
  Exceptions. \<open>Fail\<close> carries the payload of an exception that the program raises itself;
  the others are raised by Python: \<open>ConvErr\<close> is the \<open>ValueError\<close> of a conversion.
\<close>

datatype 'f exn =
    Fail 'f
  | KeyErr string
  | TypeErr
  | AttrErr
  | ConvErr
  | OverflowErr


section \<open>Floats\<close>

text \<open>The least magnitude that rounds to infinity as a double.\<close>

definition float_limit :: rat where
  "float_limit = 2 ^ 1024 - 2 ^ 970"

definition float_of_rat :: "rat \<Rightarrow> pyfloat" where
  "float_of_rat r =
     (if float_limit \<le> r then PosInf else if r \<le> - float_limit then NegInf else Fin r)"

text \<open>Ordinary magnitudes never reach the limit; the code equation looks at them first.\<close>

lemma float_limit_large: "1000000000000000 < float_limit"
proof -
  have "(2::rat) ^ 970 * (2 ^ 54 - 1) = float_limit"
    by (simp add: float_limit_def algebra_simps flip: power_add)
  moreover have "(1::rat) * (2 ^ 54 - 1) \<le> 2 ^ 970 * (2 ^ 54 - 1)"
    by (rule mult_right_mono) simp_all
  ultimately show ?thesis by simp
qed

lemma float_of_rat_small:
  "\<bar>r\<bar> < 1000000000000000 \<Longrightarrow> float_of_rat r = Fin r"
  using float_limit_large by (auto simp: float_of_rat_def)

lemma float_of_rat_code [code]:
  "float_of_rat r =
     (if \<bar>r\<bar> < 1000000000000000 then Fin r
      else if float_limit \<le> r then PosInf else if r \<le> - float_limit then NegInf else Fin r)"
  by (simp add: float_of_rat_small) (simp add: float_of_rat_def)

text \<open>\<open>int(f)\<close> truncates towards zero.\<close>

definition trunc :: "rat \<Rightarrow> int" where
  "trunc r = (if 0 \<le> r then \<lfloor>r\<rfloor> else \<lceil>r\<rceil>)"

fun float_to_int :: "pyfloat \<Rightarrow> ('f exn, int) res" where
  "float_to_int (Fin r) = Inr (trunc r)"
| "float_to_int NaN = Inl ConvErr"
| "float_to_int _ = Inl OverflowErr"

text \<open>Comparisons with a finite constant; every comparison with NaN is false.\<close>

fun float_le_zero :: "pyfloat \<Rightarrow> bool" where
  "float_le_zero (Fin r) = (r \<le> 0)"
| "float_le_zero NegInf = True"
| "float_le_zero _ = False"


text \<open>
  Arithmetic of floats, with the rules for infinities and NaN; finite results are exact and
  become infinite at the limit.
\<close>

fun float_neg :: "pyfloat \<Rightarrow> pyfloat" where
  "float_neg (Fin r) = Fin (- r)"
| "float_neg PosInf = NegInf"
| "float_neg NegInf = PosInf"
| "float_neg NaN = NaN"

fun float_add :: "pyfloat \<Rightarrow> pyfloat \<Rightarrow> pyfloat" where
  "float_add (Fin a) (Fin b) = float_of_rat (a + b)"
| "float_add NaN _ = NaN"
| "float_add _ NaN = NaN"
| "float_add PosInf NegInf = NaN"
| "float_add NegInf PosInf = NaN"
| "float_add PosInf _ = PosInf"
| "float_add NegInf _ = NegInf"
| "float_add _ PosInf = PosInf"
| "float_add _ NegInf = NegInf"

definition float_sub :: "pyfloat \<Rightarrow> pyfloat \<Rightarrow> pyfloat" where
  "float_sub a b = float_add a (float_neg b)"

definition is_finite :: "pyfloat \<Rightarrow> bool" where
  "is_finite f = (case f of Fin _ \<Rightarrow> True | _ \<Rightarrow> False)"

text \<open>\<open>f < r\<close> for a finite constant.\<close>

definition float_less :: "pyfloat \<Rightarrow> rat \<Rightarrow> bool" where
  "float_less f r = (case f of Fin a \<Rightarrow> a < r | NegInf \<Rightarrow> True | _ \<Rightarrow> False)"

text \<open>
  The order by which a list of floats is sorted. Python's result depends on the positions of
  NaN; here NaN comes last.
\<close>

instantiation pyfloat :: linorder
begin

definition less_eq_pyfloat :: "pyfloat \<Rightarrow> pyfloat \<Rightarrow> bool" where
  "less_eq_pyfloat a b \<longleftrightarrow> (case a of NegInf \<Rightarrow> True
     | Fin x \<Rightarrow> (case b of Fin y \<Rightarrow> x \<le> y | NegInf \<Rightarrow> False | _ \<Rightarrow> True)
     | PosInf \<Rightarrow> b = PosInf \<or> b = NaN
     | NaN \<Rightarrow> b = NaN)"

definition less_pyfloat :: "pyfloat \<Rightarrow> pyfloat \<Rightarrow> bool" where
  "less_pyfloat a b \<longleftrightarrow> a \<le> b \<and> a \<noteq> (b :: pyfloat)"

instance
  by standard (auto simp: less_eq_pyfloat_def less_pyfloat_def split: pyfloat.splits)

end

text \<open>\<open>float(s)\<close> of a string; \<open>None\<close> is \<open>ValueError\<close>.\<close>

text \<open>Digits of a mantissa part: either empty or a valid digit string.\<close>

definition mantissa_part :: "string \<Rightarrow> nat option" where
  "mantissa_part ds = (if ds = [] then Some 0 else parse_digits False 0 ds)"

definition count_digits :: "string \<Rightarrow> nat" where
  "count_digits ds = length (filter is_digit ds)"

text \<open>Split at the first character that satisfies a predicate.\<close>

fun split_first :: "(char \<Rightarrow> bool) \<Rightarrow> string \<Rightarrow> string \<times> string option" where
  "split_first P [] = ([], None)"
| "split_first P (c # cs) =
     (if P c then ([], Some cs)
      else (case split_first P cs of (a, b) \<Rightarrow> (c # a, b)))"

definition scale10 :: "rat \<Rightarrow> int \<Rightarrow> rat" where
  "scale10 r e = (if 0 \<le> e then r * 10 ^ nat e else r / 10 ^ nat (- e))"

definition parse_exponent :: "string option \<Rightarrow> int option" where
  "parse_exponent x = (case x of
      None \<Rightarrow> Some 0
    | Some s \<Rightarrow> (let (neg, ds) = split_sign s in
        map_option (\<lambda>n. if neg then - int n else int n) (parse_digits False 0 ds)))"

definition parse_decimal :: "string \<Rightarrow> rat option" where
  "parse_decimal s =
     (let (m, ex) = split_first (\<lambda>c. c = CHR ''e'' \<or> c = CHR ''E'') s;
          (ip, fp) = split_first (\<lambda>c. c = CHR ''.'') m;
          fp' = (case fp of None \<Rightarrow> [] | Some f \<Rightarrow> f)
      in case (mantissa_part ip, mantissa_part fp', parse_exponent ex) of
           (Some i, Some f, Some e) \<Rightarrow>
             (if ip = [] \<and> fp' = [] then None
              else Some (scale10 (of_nat i + of_nat f / 10 ^ count_digits fp') e))
         | _ \<Rightarrow> None)"

definition parse_float :: "string \<Rightarrow> pyfloat option" where
  "parse_float s =
     (let (neg, b) = split_sign (py_strip s); l = py_lower b
      in if l = ''inf'' \<or> l = ''infinity'' then Some (if neg then NegInf else PosInf)
         else if l = ''nan'' then Some NaN
         else map_option (\<lambda>r. float_of_rat (if neg then - r else r)) (parse_decimal b))"


section \<open>Operations on values\<close>

text \<open>The truth value of \<open>if v\<close>.\<close>

fun truthy :: "json \<Rightarrow> bool" where
  "truthy JNull = False"
| "truthy (JBool b) = b"
| "truthy (JInt n) = (n \<noteq> 0)"
| "truthy (JFloat f) = (f \<noteq> Fin 0)"
| "truthy (JStr s) = (s \<noteq> [])"
| "truthy (JList xs) = (xs \<noteq> [])"
| "truthy (JObj kvs) = (kvs \<noteq> [])"

text \<open>\<open>k in v\<close> for a string \<open>k\<close>.\<close>

fun py_contains :: "string \<Rightarrow> json \<Rightarrow> ('f exn, bool) res" where
  "py_contains k (JObj kvs) = Inr (k \<in> set (map fst kvs))"
| "py_contains k (JList xs) = Inr (JStr k \<in> set xs)"
| "py_contains k (JStr s) = Inr (sublist k s)"
| "py_contains k _ = Inl TypeErr"

text \<open>\<open>v[k]\<close> for a string \<open>k\<close>.\<close>

fun py_getitem :: "json \<Rightarrow> string \<Rightarrow> ('f exn, json) res" where
  "py_getitem (JObj kvs) k = (case map_of kvs k of None \<Rightarrow> Inl (KeyErr k) | Some v \<Rightarrow> Inr v)"
| "py_getitem _ k = Inl TypeErr"

text \<open>\<open>v.get(k, d)\<close>.\<close>

fun py_get :: "json \<Rightarrow> string \<Rightarrow> json \<Rightarrow> ('f exn, json) res" where
  "py_get (JObj kvs) k d = Inr (case map_of kvs k of None \<Rightarrow> d | Some v \<Rightarrow> v)"
| "py_get _ k d = Inl AttrErr"

text \<open>\<open>int(v)\<close> and \<open>float(v)\<close>.\<close>

fun py_int :: "json \<Rightarrow> ('f exn, int) res" where
  "py_int (JBool b) = Inr (if b then 1 else 0)"
| "py_int (JInt n) = Inr n"
| "py_int (JFloat f) = float_to_int f"
| "py_int (JStr s) = (case parse_int s of None \<Rightarrow> Inl ConvErr | Some n \<Rightarrow> Inr n)"
| "py_int _ = Inl TypeErr"

definition int_to_float :: "int \<Rightarrow> ('f exn, pyfloat) res" where
  "int_to_float n =
     (case float_of_rat (of_int n) of Fin r \<Rightarrow> Inr (Fin r) | _ \<Rightarrow> Inl OverflowErr)"

fun py_float :: "json \<Rightarrow> ('f exn, pyfloat) res" where
  "py_float (JBool b) = Inr (Fin (if b then 1 else 0))"
| "py_float (JInt n) = int_to_float n"
| "py_float (JFloat f) = Inr f"
| "py_float (JStr s) = (case parse_float s of None \<Rightarrow> Inl ConvErr | Some f \<Rightarrow> Inr f)"
| "py_float _ = Inl TypeErr"

text \<open>\<open>str(v)\<close>; the text of floats, lists and dicts is the parameter \<open>rp\<close>.\<close>

fun py_str :: "(json \<Rightarrow> string) \<Rightarrow> json \<Rightarrow> string" where
  "py_str rp JNull = ''None''"
| "py_str rp (JBool b) = (if b then ''True'' else ''False'')"
| "py_str rp (JInt n) = dec_int n"
| "py_str rp (JStr s) = s"
| "py_str rp v = rp v"

text \<open>
  Python compares \<open>1\<close>, \<open>1.0\<close> and \<open>True\<close> as equal. The canonical form of a hashable
  value has one representative for each class of equal values, so that membership in a set or
  a dict is equality of canonical forms; lists and dicts are not hashable.
\<close>

fun hash_key :: "json \<Rightarrow> ('f exn, json) res" where
  "hash_key (JBool b) = Inr (JInt (if b then 1 else 0))"
| "hash_key (JFloat (Fin r)) =
     Inr (if of_int \<lfloor>r\<rfloor> = r then JInt \<lfloor>r\<rfloor> else JFloat (Fin r))"
| "hash_key (JList xs) = Inl TypeErr"
| "hash_key (JObj kvs) = Inl TypeErr"
| "hash_key v = Inr v"

text \<open>\<open>v in {s1, s2, ...}\<close> for a set of strings.\<close>

definition in_str_set :: "json \<Rightarrow> string list \<Rightarrow> ('f exn, bool) res" where
  "in_str_set v ss = bind_res (hash_key v) (\<lambda>k. Inr (k \<in> JStr ` set ss))"

definition is_jlist :: "json \<Rightarrow> bool" where
  "is_jlist v = (case v of JList _ \<Rightarrow> True | _ \<Rightarrow> False)"

definition list_items :: "json \<Rightarrow> json list" where
  "list_items v = (case v of JList xs \<Rightarrow> xs | _ \<Rightarrow> [])"

text \<open>The elements that \<open>for x in v\<close> visits.\<close>

fun py_iter :: "json \<Rightarrow> ('f exn, json list) res" where
  "py_iter (JList xs) = Inr xs"
| "py_iter (JObj kvs) = Inr (map (JStr \<circ> fst) kvs)"
| "py_iter (JStr s) = Inr (map (\<lambda>c. JStr [c]) s)"
| "py_iter _ = Inl TypeErr"

lemma int_to_float_small [simp]:
  "\<bar>n\<bar> < 1000000000000000 \<Longrightarrow> int_to_float n = Inr (Fin (of_int n))"
proof -
  assume "\<bar>n\<bar> < 1000000000000000"
  then have "\<bar>of_int n :: rat\<bar> < of_int 1000000000000000"
    by (simp only: of_int_abs [symmetric] of_int_less_iff)
  then show ?thesis by (simp add: int_to_float_def float_of_rat_small)
qed

lemma hash_key_str [simp]: "hash_key (JStr s) = Inr (JStr s)"
  by simp

lemma hash_key_eq_str [simp]: "hash_key v = Inr (JStr s) \<longleftrightarrow> v = JStr s"
  by (cases v rule: hash_key.cases) auto

lemma in_str_set_True: "in_str_set v ss = Inr True \<longleftrightarrow> (\<exists>s\<in>set ss. v = JStr s)"
  by (auto simp: in_str_set_def res_simps)

lemma in_str_set_str [simp]: "in_str_set (JStr s) ss = Inr (s \<in> set ss)"
  by (auto simp: in_str_set_def)

text \<open>Lookup in a JSON object with a default; the dictionary cases of the operations above.\<close>

definition dget :: "(string \<times> json) list \<Rightarrow> string \<Rightarrow> json \<Rightarrow> json" where
  "dget kvs k d = (case map_of kvs k of None \<Rightarrow> d | Some v \<Rightarrow> v)"

declare py_contains.simps(1) [simp del] py_getitem.simps(1) [simp del] py_get.simps(1) [simp del]

lemma dget_Some [simp]: "map_of kvs k = Some v \<Longrightarrow> dget kvs k d = v"
  by (simp add: dget_def)

lemma py_get_obj [simp]: "py_get (JObj kvs) k d = Inr (dget kvs k d)"
  by (simp add: dget_def py_get.simps)

lemma py_contains_obj [simp]: "py_contains k (JObj kvs) = Inr (map_of kvs k \<noteq> None)"
  by (simp add: map_of_eq_None_iff py_contains.simps)

lemma py_getitem_obj [simp]: "py_getitem (JObj kvs) k = Inr v \<longleftrightarrow> map_of kvs k = Some v"
  by (simp add: py_getitem.simps split: option.splits)

lemma py_get_Inr: "py_get v k d = Inr w \<longleftrightarrow> (\<exists>kvs. v = JObj kvs \<and> w = dget kvs k d)"
  by (cases v) auto

lemma py_getitem_Inr: "py_getitem v k = Inr w \<longleftrightarrow> (\<exists>kvs. v = JObj kvs \<and> map_of kvs k = Some w)"
  by (cases v) auto

lemma ex_dget [res_simps]:
  "(\<exists>v. map_of kvs k = Some v \<and> P v) \<longleftrightarrow> map_of kvs k \<noteq> None \<and> P (dget kvs k JNull)"
  by (auto simp: dget_def)

lemma case_dget:
  "(case map_of kvs k of None \<Rightarrow> True | Some v \<Rightarrow> P v) \<longleftrightarrow>
     (map_of kvs k \<noteq> None \<longrightarrow> P (dget kvs k JNull))"
  by (auto simp: dget_def split: option.splits)

lemma trunc_of_int [simp]: "trunc (of_int n) = n"
  by (simp add: trunc_def)

lemma trunc_numerals [simp]: "trunc (numeral k) = numeral k" "trunc 0 = 0" "trunc 1 = 1"
  using trunc_of_int [of "numeral k"] trunc_of_int [of 0] trunc_of_int [of 1] by simp_all

end
