(* ===== verification/Plugins.thy ===== *)
theory Plugins
  imports PyString
begin

text \<open>
  \<open>benchmark/plugins/registry.py\<close> and \<open>benchmark/plugins/builtins.py\<close>: the registry that
  maps the scheduler and workload keys of a suite, and their aliases, to plugins.

  The four dictionaries of \<open>BenchmarkPluginRegistry\<close> are association lists in insertion
  order. A registration returns the registry together with the exception it raised, if any: a
  registration that fails on an alias has already inserted the plugin and the aliases before it.
\<close>


section \<open>State\<close>

text \<open>\<open>SchedulerPlugin\<close> and \<open>WorkloadPlugin\<close> have the same fields.\<close>

record plugin =
  p_key :: string
  p_cli_token :: string
  p_display_name :: string
  p_description :: string
  p_aliases :: "string list"
  p_is_meta :: bool

datatype kind = Scheduler | Workload

datatype reg_error =
    EmptyKey kind
  | DuplicateKey kind string
  | EmptyCliToken kind string
  | AliasConflict kind string string

type_synonym plugin_dict = "(string \<times> plugin) list"
type_synonym alias_dict = "(string \<times> string) list"

record registry =
  r_schedulers :: plugin_dict
  r_workloads :: plugin_dict
  r_scheduler_alias :: alias_dict
  r_workload_alias :: alias_dict

definition empty_registry :: registry where
  "empty_registry =
     \<lparr>r_schedulers = [], r_workloads = [], r_scheduler_alias = [], r_workload_alias = []\<rparr>"


section \<open>Operations\<close>

definition norm_str :: "string \<Rightarrow> string" where
  "norm_str value = py_lower (py_strip value)"

text \<open>The normalised copy that is stored.\<close>

definition normalize_plugin :: "plugin \<Rightarrow> plugin" where
  "normalize_plugin p = \<lparr>
     p_key = norm_str (p_key p),
     p_cli_token = norm_str (p_cli_token p),
     p_display_name = (if py_strip (p_display_name p) = [] then p_key p
                       else py_strip (p_display_name p)),
     p_description = py_strip (p_description p),
     p_aliases = sorted_set (filter (\<lambda>a. a \<noteq> []) (map norm_str (p_aliases p))),
     p_is_meta = p_is_meta p\<rparr>"

text \<open>The loop over the aliases of the new plugin; it stops at the first conflict.\<close>

fun add_aliases ::
  "kind \<Rightarrow> string \<Rightarrow> string list \<Rightarrow> alias_dict \<Rightarrow> reg_error option \<times> alias_dict" where
  "add_aliases k key [] m = (None, m)"
| "add_aliases k key (a # as) m =
     (if a = key then add_aliases k key as m
      else (case map_of m a of
              Some other \<Rightarrow> (Some (AliasConflict k a other), m)
            | None \<Rightarrow> add_aliases k key as (AList.update a key m)))"

text \<open>The body that \<open>register_scheduler\<close> and \<open>register_workload\<close> share.\<close>

definition register_plugin ::
  "kind \<Rightarrow> plugin \<Rightarrow> plugin_dict \<times> alias_dict
     \<Rightarrow> reg_error option \<times> plugin_dict \<times> alias_dict" where
  "register_plugin k p t =
     (let (ps, am) = t; key = norm_str (p_key p); q = normalize_plugin p
      in if key = [] then (Some (EmptyKey k), ps, am)
         else if key \<in> set (map fst ps) then (Some (DuplicateKey k key), ps, am)
         else if p_cli_token q = [] then (Some (EmptyCliToken k key), ps, am)
         else (let (e, am') = add_aliases k key (p_aliases q) (AList.update key key am)
               in (e, AList.update key q ps, am')))"

definition register_scheduler :: "plugin \<Rightarrow> registry \<Rightarrow> reg_error option \<times> registry" where
  "register_scheduler p r =
     (let (e, ps, am) = register_plugin Scheduler p (r_schedulers r, r_scheduler_alias r)
      in (e, r\<lparr>r_schedulers := ps, r_scheduler_alias := am\<rparr>))"

definition register_workload :: "plugin \<Rightarrow> registry \<Rightarrow> reg_error option \<times> registry" where
  "register_workload p r =
     (let (e, ps, am) = register_plugin Workload p (r_workloads r, r_workload_alias r)
      in (e, r\<lparr>r_workloads := ps, r_workload_alias := am\<rparr>))"

definition resolve_plugin :: "plugin_dict \<Rightarrow> alias_dict \<Rightarrow> string \<Rightarrow> plugin option" where
  "resolve_plugin ps am value =
     (case map_of am (norm_str value) of
        None \<Rightarrow> None
      | Some key \<Rightarrow> if key = [] then None else map_of ps key)"

definition resolve_scheduler :: "registry \<Rightarrow> string \<Rightarrow> plugin option" where
  "resolve_scheduler r value = resolve_plugin (r_schedulers r) (r_scheduler_alias r) value"

definition resolve_workload :: "registry \<Rightarrow> string \<Rightarrow> plugin option" where
  "resolve_workload r value = resolve_plugin (r_workloads r) (r_workload_alias r) value"

definition scheduler_keys :: "registry \<Rightarrow> string list" where
  "scheduler_keys r = sort (map fst (r_schedulers r))"

definition workload_keys :: "registry \<Rightarrow> string list" where
  "workload_keys r = sort (map fst (r_workloads r))"

definition scheduler_help_tokens :: "registry \<Rightarrow> string list" where
  "scheduler_help_tokens r = sorted_set (map (p_key \<circ> snd) (r_schedulers r))"

definition workload_help_tokens :: "registry \<Rightarrow> string list" where
  "workload_help_tokens r = sorted_set (map (p_key \<circ> snd) (r_workloads r))"


section \<open>Built-in plugins\<close>

definition mk_plugin :: "string \<Rightarrow> string \<Rightarrow> string \<Rightarrow> string list \<Rightarrow> bool \<Rightarrow> plugin" where
  "mk_plugin key name descr aliases meta = \<lparr>
     p_key = key, p_cli_token = key, p_display_name = name, p_description = descr,
     p_aliases = aliases, p_is_meta = meta\<rparr>"

definition builtin_schedulers :: "plugin list" where
  "builtin_schedulers = [
     mk_plugin ''cfs'' ''CFS'' ''Linux-like Completely Fair Scheduler.'' [''CFS''] False,
     mk_plugin ''eevdf'' ''EEVDF'' ''Earliest Eligible Virtual Deadline First.'' [''EEVDF''] False,
     mk_plugin ''mlfq'' ''MLFQ'' ''Multi-Level Feedback Queue scheduler.'' [''MLFQ''] False,
     mk_plugin ''stride'' ''Stride'' ''Deterministic proportional-share scheduler.'' [''Stride'']
       False,
     mk_plugin ''all'' ''All Schedulers''
       ''Meta selector to run all registered schedulers in the simulator binary.'' [] True]"

definition builtin_workloads :: "plugin list" where
  "builtin_workloads = [
     mk_plugin ''server'' ''Server'' ''Synthetic server-like workload with varied service times.''
       [''Server''] False,
     mk_plugin ''desktop'' ''Desktop'' ''Synthetic desktop-like interactive workload.''
       [''Desktop''] False,
     mk_plugin ''google'' ''GoogleTraceV3''
       ''Trace-replay workload based on Google cluster trace v3.''
       [''GoogleTraceV3'', ''googletracev3''] False,
     mk_plugin ''alibaba'' ''AlibabaTraceV2018''
       ''Trace-replay workload based on Alibaba 2018 trace.''
       [''AlibabaTraceV2018'', ''alibabatracev2018''] False,
     mk_plugin ''all'' ''All Workloads''
       ''Meta selector to run all registered workloads in the simulator binary.'' [] True]"

text \<open>Registrations one after the other; an exception ends the sequence.\<close>

datatype reg_call = RegScheduler plugin | RegWorkload plugin

fun register_call :: "reg_call \<Rightarrow> registry \<Rightarrow> reg_error option \<times> registry" where
  "register_call (RegScheduler p) r = register_scheduler p r"
| "register_call (RegWorkload p) r = register_workload p r"

fun register_calls :: "reg_call list \<Rightarrow> registry \<Rightarrow> reg_error option \<times> registry" where
  "register_calls [] r = (None, r)"
| "register_calls (c # cs) r =
     (case register_call c r of
        (Some e, r') \<Rightarrow> (Some e, r')
      | (None, r') \<Rightarrow> register_calls cs r')"

definition register_builtin_plugins :: "registry \<Rightarrow> reg_error option \<times> registry" where
  "register_builtin_plugins r =
     register_calls (map RegScheduler builtin_schedulers @ map RegWorkload builtin_workloads) r"


section \<open>Well-formed registries\<close>

text \<open>
  Every plugin is stored under its own normalised, non-empty key, has a CLI token, and its key
  resolves to itself; every alias entry points to a stored plugin and is its key or one of its
  declared aliases.
\<close>

definition plugin_ok :: "alias_dict \<Rightarrow> string \<times> plugin \<Rightarrow> bool" where
  "plugin_ok am e = (case e of (k, p) \<Rightarrow>
     k \<noteq> [] \<and> norm_str k = k \<and> p_key p = k \<and> p_cli_token p \<noteq> []
     \<and> norm_str (p_cli_token p) = p_cli_token p \<and> map_of am k = Some k)"

definition alias_ok :: "plugin_dict \<Rightarrow> string \<times> string \<Rightarrow> bool" where
  "alias_ok ps e = (case e of (a, k) \<Rightarrow>
     a \<noteq> [] \<and> norm_str a = a \<and>
     (case map_of ps k of None \<Rightarrow> False | Some p \<Rightarrow> a = k \<or> a \<in> set (p_aliases p)))"

definition table_inv :: "plugin_dict \<times> alias_dict \<Rightarrow> bool" where
  "table_inv t = (case t of (ps, am) \<Rightarrow>
     distinct (map fst ps) \<and> distinct (map fst am)
     \<and> list_all (plugin_ok am) ps \<and> list_all (alias_ok ps) am)"

definition reg_inv :: "registry \<Rightarrow> bool" where
  "reg_inv r \<longleftrightarrow> table_inv (r_schedulers r, r_scheduler_alias r)
     \<and> table_inv (r_workloads r, r_workload_alias r)"

lemma norm_idem [simp]: "norm_str (norm_str s) = norm_str s"
  by (simp add: norm_str_def py_strip_lower)

lemma norm_Nil [simp]: "norm_str [] = []"
  by (simp add: norm_str_def py_lower_def)

lemma normalize_plugin_simps [simp]:
  "p_key (normalize_plugin p) = norm_str (p_key p)"
  "p_cli_token (normalize_plugin p) = norm_str (p_cli_token p)"
  "set (p_aliases (normalize_plugin p)) = norm_str ` set (p_aliases p) - {[]}"
  "distinct (p_aliases (normalize_plugin p))"
  "p_is_meta (normalize_plugin p) = p_is_meta p"
  by (auto simp: normalize_plugin_def)

lemma list_all_dict:
  "distinct (map fst d) \<Longrightarrow> list_all P d \<longleftrightarrow> (\<forall>k v. map_of d k = Some v \<longrightarrow> P (k, v))"
  by (auto simp: list_all_iff dest: map_of_SomeD)

lemma table_inv_iff:
  "table_inv (ps, am) \<longleftrightarrow> distinct (map fst ps) \<and> distinct (map fst am)
     \<and> (\<forall>k p. map_of ps k = Some p \<longrightarrow> plugin_ok am (k, p))
     \<and> (\<forall>a k. map_of am a = Some k \<longrightarrow> alias_ok ps (a, k))"
  by (auto simp: table_inv_def list_all_dict)

lemma table_inv_plugin:
  "table_inv (ps, am) \<Longrightarrow> map_of ps k = Some p \<Longrightarrow> plugin_ok am (k, p)"
  by (simp only: table_inv_iff)

lemma table_inv_alias:
  "table_inv (ps, am) \<Longrightarrow> map_of am a = Some k \<Longrightarrow> alias_ok ps (a, k)"
  by (simp only: table_inv_iff)

lemma table_inv_empty: "table_inv ([], [])"
  by (simp add: table_inv_def)

lemma map_of_upd [simp]: "map_of (AList.update k v d) x = (if x = k then Some v else map_of d x)"
  by (simp add: update_conv')

text \<open>What the alias loop does: an entry that was there stays, the new ones point to \<open>key\<close>.\<close>

lemma add_aliases_frame:
  assumes "add_aliases k key as m = (e, m')"
  shows "(distinct (map fst m) \<longrightarrow> distinct (map fst m'))
    \<and> (\<forall>b. map_of m a = Some b \<longrightarrow> map_of m' a = Some b)
    \<and> (\<forall>b. map_of m' a = Some b \<longrightarrow> map_of m a = Some b \<or> b = key \<and> a \<in> set as)"
  using assms
proof (induction as arbitrary: m)
  case (Cons x xs)
  show ?case
  proof (cases "x = key")
    case True
    with Cons.prems have "add_aliases k key xs m = (e, m')" by simp
    from Cons.IH [OF this] show ?thesis by auto
  next
    case False
    show ?thesis
    proof (cases "map_of m x")
      case None
      with False Cons.prems have "add_aliases k key xs (AList.update x key m) = (e, m')" by simp
      from Cons.IH [OF this] None show ?thesis
        by (auto simp: distinct_update split: if_splits)
    next
      case (Some other)
      with False Cons.prems show ?thesis by simp
    qed
  qed
qed simp

text \<open>When no alias conflicts, each of them resolves to the new plugin.\<close>

lemma add_aliases_complete:
  assumes "add_aliases k key as m = (None, m')" and "map_of m key = Some key" and "a \<in> set as"
  shows "map_of m' a = Some key"
  using assms
proof (induction as arbitrary: m)
  case (Cons x xs)
  show ?case
  proof (cases "a = x")
    case True
    show ?thesis
    proof (cases "x = key")
      case eq: True
      with Cons.prems have "add_aliases k key xs m = (None, m')" by simp
      from add_aliases_frame [OF this, of a] True eq Cons.prems(2) show ?thesis by simp
    next
      case False
      with Cons.prems have "add_aliases k key xs (AList.update x key m) = (None, m')"
        by (simp split: option.splits)
      from add_aliases_frame [OF this, of a] True show ?thesis by simp
    qed
  next
    case False
    with Cons show ?thesis by (auto split: if_splits option.splits)
  qed
qed simp

lemma add_aliases_error:
  "add_aliases k key as m = (Some e, m') \<Longrightarrow> \<exists>a b. e = AliasConflict k a b \<and> a \<in> set as"
proof (induction as arbitrary: m)
  case (Cons x xs)
  then show ?case by (force split: if_splits option.splits)
qed simp


section \<open>Registration\<close>

text \<open>The outcome of a registration, branch by branch.\<close>

lemma register_plugin_cases:
  assumes "register_plugin k p (ps, am) = (e, t')"
  obtains
    (rejected) "t' = (ps, am)" "e = Some (EmptyKey k) \<or> e = Some (DuplicateKey k (norm_str (p_key p)))
        \<or> e = Some (EmptyCliToken k (norm_str (p_key p)))"
  | (stored) am' where "norm_str (p_key p) \<noteq> []" "map_of ps (norm_str (p_key p)) = None"
      "norm_str (p_cli_token p) \<noteq> []"
      "t' = (AList.update (norm_str (p_key p)) (normalize_plugin p) ps, am')"
      "add_aliases k (norm_str (p_key p)) (p_aliases (normalize_plugin p))
         (AList.update (norm_str (p_key p)) (norm_str (p_key p)) am) = (e, am')"
  using assms
  by (auto simp: register_plugin_def Let_def map_of_eq_None_iff split: if_splits prod.splits)

lemma register_plugin_inv:
  assumes "register_plugin k p (ps, am) = (e, t')" and inv: "table_inv (ps, am)"
  shows "table_inv t'"
  using assms(1)
proof (cases rule: register_plugin_cases)
  case rejected
  with inv show ?thesis by simp
next
  case (stored am')
  let ?key = "norm_str (p_key p)" and ?q = "normalize_plugin p"
  let ?am = "AList.update ?key ?key am" and ?ps = "AList.update ?key ?q ps"
  have d: "distinct (map fst ps)" "distinct (map fst am)"
    using inv by (simp_all add: table_inv_iff)
  note ps_ok = table_inv_plugin [OF inv] and am_ok = table_inv_alias [OF inv]
  note frame = add_aliases_frame [OF stored(5)]
  have d': "distinct (map fst ?ps)" "distinct (map fst am')"
    using d frame by (simp_all add: distinct_update)
  have old: "map_of am' a = Some b" if "map_of am a = Some b" "a \<noteq> ?key" for a b
    using that frame [of a] by simp
  have self: "map_of am' ?key = Some ?key"
    using frame [of ?key] by simp
  have "plugin_ok am' (x, v)" if "map_of ?ps x = Some v" for x v
    using that ps_ok [of x v] old [of x x] self stored(1,3)
    by (auto simp: plugin_ok_def split: if_splits)
  moreover have "alias_ok ?ps (a, b)" if ab: "map_of am' a = Some b" for a b
  proof -
    have "map_of ?am a = Some b \<or> b = ?key \<and> a \<in> set (p_aliases ?q)"
      using frame [of a] ab by blast
    then consider "a = ?key" "b = ?key" | "map_of am a = Some b"
      | "b = ?key" "a \<in> set (p_aliases ?q)"
      by (metis map_of_upd option.inject)
    then show ?thesis
    proof cases
      case 1
      with stored(1) show ?thesis by (simp add: alias_ok_def)
    next
      case 2
      from am_ok [OF this] stored(2) show ?thesis
        by (auto simp: alias_ok_def split: option.splits)
    next
      case 3
      then show ?thesis by (auto simp: alias_ok_def)
    qed
  qed
  ultimately show ?thesis
    using d' stored(4) by (auto simp: table_inv_iff)
qed

lemma register_scheduler_inv: "reg_inv r \<Longrightarrow> reg_inv (snd (register_scheduler p r))"
  by (auto simp: reg_inv_def register_scheduler_def split: prod.splits
      dest: register_plugin_inv [rotated])

lemma register_workload_inv: "reg_inv r \<Longrightarrow> reg_inv (snd (register_workload p r))"
  by (auto simp: reg_inv_def register_workload_def split: prod.splits
      dest: register_plugin_inv [rotated])

lemma register_call_inv: "reg_inv r \<Longrightarrow> reg_inv (snd (register_call c r))"
  by (cases c) (simp_all add: register_scheduler_inv register_workload_inv)

lemma register_calls_inv: "reg_inv r \<Longrightarrow> reg_inv (snd (register_calls cs r))"
proof (induction cs arbitrary: r)
  case (Cons c cs)
  from register_call_inv [OF Cons.prems, of c] show ?case
    by (auto split: prod.splits option.splits intro: Cons.IH)
qed simp

lemma empty_registry_inv: "reg_inv empty_registry"
  by (simp add: reg_inv_def empty_registry_def table_inv_empty)

text \<open>
  The registries a program can hold: any calls in any order, the failed ones included, since
  the caller of a plugin file may catch the exception and go on.
\<close>

inductive reg_reachable :: "registry \<Rightarrow> bool" where
  start: "reg_reachable empty_registry"
| call: "reg_reachable r \<Longrightarrow> register_call c r = (e, r') \<Longrightarrow> reg_reachable r'"

lemma reg_reachable_inv: "reg_reachable r \<Longrightarrow> reg_inv r"
proof (induction rule: reg_reachable.induct)
  case start
  show ?case by (rule empty_registry_inv)
next
  case (call r c e r')
  from register_call_inv [OF call.IH, of c] call.hyps(2) show ?case by simp
qed

lemma reg_reachable_calls: "reg_reachable r \<Longrightarrow> reg_reachable (snd (register_calls cs r))"
proof (induction cs arbitrary: r)
  case (Cons c cs)
  show ?case
  proof (cases "register_call c r")
    case (Pair e r')
    with Cons.prems have "reg_reachable r'" by (blast intro: reg_reachable.call)
    with Pair Cons.IH show ?thesis by (auto split: option.splits)
  qed
qed simp


section \<open>Resolution\<close>

text \<open>
  What the validators, the planner and the runner rely on: a lookup that does not depend on
  case and surrounding blanks, whose results have a CLI token and are found again under
  their own key.
\<close>

locale plugin_lookup =
  fixes resolve :: "'r \<Rightarrow> string \<Rightarrow> plugin option"
    and wf :: "'r \<Rightarrow> bool"
  assumes resolve_norm: "resolve r (norm_str v) = resolve r v"
    and resolve_key: "wf r \<Longrightarrow> resolve r v = Some p \<Longrightarrow> resolve r (p_key p) = Some p"
    and resolve_token: "wf r \<Longrightarrow> resolve r v = Some p \<Longrightarrow> p_cli_token p \<noteq> []"
    and resolve_named: "wf r \<Longrightarrow> resolve r v = Some p \<Longrightarrow> norm_str v \<noteq> []"
begin

lemma resolve_blank: "wf r \<Longrightarrow> resolve r [] = None"
  using resolve_named [of r "[]"] norm_Nil by (cases "resolve r []") auto

lemma resolve_same_norm: "norm_str v = norm_str w \<Longrightarrow> resolve r v = resolve r w"
  by (metis resolve_norm)

lemma resolve_key_inj:
  "wf r \<Longrightarrow> resolve r v = Some p \<Longrightarrow> resolve r w = Some q \<Longrightarrow> p_key p = p_key q \<Longrightarrow> p = q"
  by (metis option.inject resolve_key)

end

lemma resolve_plugin_SomeD:
  assumes "table_inv (ps, am)" and "resolve_plugin ps am v = Some p"
  shows "map_of ps (p_key p) = Some p" "map_of am (norm_str v) = Some (p_key p)"
    "norm_str (p_key p) = p_key p" "p_key p \<noteq> []" "p_cli_token p \<noteq> []"
    "norm_str v = p_key p \<or> norm_str v \<in> set (p_aliases p)"
    "resolve_plugin ps am (p_key p) = Some p" "norm_str v \<noteq> []"
proof -
  from assms(2) obtain k where k: "map_of am (norm_str v) = Some k" "map_of ps k = Some p"
    by (auto simp: resolve_plugin_def split: option.splits if_splits)
  with assms(1) have ok: "plugin_ok am (k, p)" "alias_ok ps (norm_str v, k)"
    by (simp_all add: table_inv_plugin table_inv_alias)
  with k show "map_of ps (p_key p) = Some p" "map_of am (norm_str v) = Some (p_key p)"
    "norm_str (p_key p) = p_key p" "p_key p \<noteq> []" "p_cli_token p \<noteq> []"
    "norm_str v = p_key p \<or> norm_str v \<in> set (p_aliases p)"
    "resolve_plugin ps am (p_key p) = Some p" "norm_str v \<noteq> []"
    by (auto simp: plugin_ok_def alias_ok_def resolve_plugin_def)
qed

interpretation scheds: plugin_lookup resolve_scheduler reg_inv
  by unfold_locales
     (auto simp: resolve_scheduler_def reg_inv_def resolve_plugin_SomeD,
      simp add: resolve_plugin_def)

interpretation works: plugin_lookup resolve_workload reg_inv
  by unfold_locales
     (auto simp: resolve_workload_def reg_inv_def resolve_plugin_SomeD,
      simp add: resolve_plugin_def)

section \<open>What a registration does\<close>

lemma add_aliases_ok_iff:
  "distinct as \<Longrightarrow>
   fst (add_aliases k key as m) = None \<longleftrightarrow> (\<forall>a\<in>set as. a \<noteq> key \<longrightarrow> map_of m a = None)"
proof (induction as arbitrary: m)
  case (Cons x xs)
  then show ?case by (auto split: option.splits)
qed simp

lemma resolve_plugin_None_iff:
  assumes "table_inv (ps, am)"
  shows "resolve_plugin ps am v = None \<longleftrightarrow> map_of am (norm_str v) = None"
proof (cases "map_of am (norm_str v)")
  case (Some k)
  with assms have "alias_ok ps (norm_str v, k)" by (rule table_inv_alias)
  then obtain p where "map_of ps k = Some p" by (auto simp: alias_ok_def split: option.splits)
  moreover from table_inv_plugin [OF assms this] have "k \<noteq> []" by (simp add: plugin_ok_def)
  ultimately show ?thesis using Some by (simp add: resolve_plugin_def)
qed (simp add: resolve_plugin_def)

lemma register_plugin_ok_iff:
  "fst (register_plugin k p (ps, am)) = None \<longleftrightarrow>
     norm_str (p_key p) \<noteq> [] \<and> norm_str (p_key p) \<notin> set (map fst ps) \<and> norm_str (p_cli_token p) \<noteq> []
     \<and> fst (add_aliases k (norm_str (p_key p)) (p_aliases (normalize_plugin p))
              (AList.update (norm_str (p_key p)) (norm_str (p_key p)) am)) = None"
  by (simp add: register_plugin_def Let_def split: prod.splits)

text \<open>The names a plugin answers to after its registration.\<close>

definition plugin_names :: "plugin \<Rightarrow> string set" where
  "plugin_names p = insert (norm_str (p_key p)) (norm_str ` set (p_aliases p) - {[]})"

lemma register_plugin_resolve:
  assumes reg: "register_plugin k p (ps, am) = (e, (ps', am'))" and inv: "table_inv (ps, am)"
    and ok: "e = None"
  shows "resolve_plugin ps' am' v =
    (if norm_str v \<in> plugin_names p then Some (normalize_plugin p) else resolve_plugin ps am v)"
  using reg
proof (cases rule: register_plugin_cases)
  case rejected
  with ok show ?thesis by auto
next
  case (stored am1)
  let ?key = "norm_str (p_key p)" and ?a = "norm_str v"
  have eqs: "ps' = AList.update ?key (normalize_plugin p) ps" "am1 = am'"
    using stored(4) by simp_all
  note frame = add_aliases_frame [OF stored(5), of ?a, unfolded eqs(2)]
  show ?thesis
  proof (cases "?a \<in> plugin_names p")
    case True
    have "map_of am' ?a = Some ?key"
    proof (cases "?a = ?key")
      case True
      with frame show ?thesis by simp
    next
      case False
      with True have "?a \<in> set (p_aliases (normalize_plugin p))" by (simp add: plugin_names_def)
      from add_aliases_complete [OF stored(5) [unfolded ok eqs(2)] _ this] show ?thesis by simp
    qed
    with True stored(1) eqs(1) show ?thesis by (simp add: resolve_plugin_def)
  next
    case False
    then have ne: "?a \<noteq> ?key" "?a \<notin> set (p_aliases (normalize_plugin p))"
      by (auto simp: plugin_names_def)
    have same: "map_of am' ?a = map_of am ?a"
      using frame ne by (cases "map_of am ?a"; cases "map_of am' ?a") simp_all
    have "b \<noteq> ?key" if "map_of am ?a = Some b" for b
      using table_inv_alias [OF inv that] stored(2)
      by (auto simp: alias_ok_def split: option.splits)
    with False same eqs(1) show ?thesis
      by (auto simp: resolve_plugin_def split: option.splits)
  qed
qed

text \<open>
  C33. Registration: after a successful call the key and the aliases of the new plugin resolve
  to its normalised copy, and every other name, of either kind, resolves as it did before.
\<close>

theorem register_then_resolve:
  assumes "reg_reachable r" and "register_workload p r = (None, r')"
  shows "resolve_workload r' v =
    (if norm_str v \<in> plugin_names p then Some (normalize_plugin p) else resolve_workload r v)
    \<and> resolve_scheduler r' v = resolve_scheduler r v"
proof -
  obtain ps am where t: "register_plugin Workload p (r_workloads r, r_workload_alias r) = (None, (ps, am))"
    and r': "r' = r\<lparr>r_workloads := ps, r_workload_alias := am\<rparr>"
    using assms(2) by (auto simp: register_workload_def split: prod.splits)
  have "table_inv (r_workloads r, r_workload_alias r)"
    using reg_reachable_inv [OF assms(1)] by (simp add: reg_inv_def)
  from register_plugin_resolve [OF t this refl] show ?thesis
    by (simp add: resolve_workload_def resolve_scheduler_def r')
qed

text \<open>The registry every program run starts from.\<close>

definition builtin_registry :: registry where
  "builtin_registry = snd (register_builtin_plugins empty_registry)"

lemma builtin_reachable: "reg_reachable builtin_registry"
  by (simp add: builtin_registry_def register_builtin_plugins_def reg_reachable_calls
      reg_reachable.start)

definition example_workload :: plugin where
  "example_workload = \<lparr>p_key = '' MyWorkload'', p_cli_token = ''Custom'', p_display_name = [],
     p_description = [], p_aliases = [''my-workload'', []], p_is_meta = False\<rparr>"

lemma example_workload_registered:
  "fst (register_workload example_workload builtin_registry) = None"
  by code_simp

theorem register_then_resolve_witness:
  "resolve_workload (snd (register_workload example_workload builtin_registry)) ''MY-Workload''
     = Some (normalize_plugin example_workload)"
proof -
  have name: "norm_str ''MY-Workload'' \<in> plugin_names example_workload"
    by code_simp
  have "register_workload example_workload builtin_registry
    = (None, snd (register_workload example_workload builtin_registry))"
    using example_workload_registered by (metis prod.collapse)
  from register_then_resolve [OF builtin_reachable this, of "''MY-Workload''"] name
  show ?thesis by simp
qed

text \<open>
  C32. Soundness of resolution in every reachable registry: a name that resolves names a plugin
  by its key or by one of its declared aliases; the plugin has a CLI token, is listed among the
  known keys, and is found again under its own key.
\<close>

theorem resolve_scheduler_sound:
  assumes "reg_reachable r" and "resolve_scheduler r v = Some p"
  shows "(norm_str v = p_key p \<or> norm_str v \<in> set (p_aliases p)) \<and> p_cli_token p \<noteq> []
    \<and> p_key p \<in> set (scheduler_keys r) \<and> resolve_scheduler r (p_key p) = Some p"
proof -
  have inv: "table_inv (r_schedulers r, r_scheduler_alias r)"
    using reg_reachable_inv [OF assms(1)] by (simp add: reg_inv_def)
  note D = resolve_plugin_SomeD [OF inv assms(2) [unfolded resolve_scheduler_def]]
  from D(1) have "p_key p \<in> set (scheduler_keys r)"
    by (force simp: scheduler_keys_def dest: map_of_SomeD)
  with D show ?thesis by (simp add: resolve_scheduler_def)
qed

theorem resolve_scheduler_sound_witness:
  "(\<exists>p. resolve_scheduler builtin_registry '' EEVDF '' = Some p \<and> p_cli_token p \<noteq> []
     \<and> resolve_scheduler builtin_registry (p_key p) = Some p)"
proof -
  have "resolve_scheduler builtin_registry '' EEVDF '' \<noteq> None" by code_simp
  then obtain p where "resolve_scheduler builtin_registry '' EEVDF '' = Some p" by blast
  with resolve_scheduler_sound [OF builtin_reachable this] show ?thesis by blast
qed

text \<open>
  Which registrations succeed: the key must be non-blank and not be the key of another
  plugin, the CLI token non-blank, and no alias other than the key itself may resolve already.
  Nothing is asked of the aliases that other plugins have for the new key.
\<close>

theorem register_accepted_iff:
  assumes "reg_reachable r"
  shows "fst (register_scheduler p r) = None \<longleftrightarrow>
    norm_str (p_key p) \<noteq> [] \<and> norm_str (p_key p) \<notin> set (scheduler_keys r) \<and> norm_str (p_cli_token p) \<noteq> []
    \<and> (\<forall>a\<in>plugin_names p - {norm_str (p_key p)}. resolve_scheduler r a = None)"
proof -
  let ?ps = "r_schedulers r" and ?am = "r_scheduler_alias r"
  have inv: "table_inv (?ps, ?am)"
    using reg_reachable_inv [OF assms] by (simp add: reg_inv_def)
  have names: "resolve_scheduler r a = None \<longleftrightarrow> map_of ?am a = None" if "a \<in> plugin_names p" for a
    using that resolve_plugin_None_iff [OF inv, of a]
    by (auto simp: resolve_scheduler_def plugin_names_def)
  have "fst (register_scheduler p r) = fst (register_plugin Scheduler p (?ps, ?am))"
    by (simp add: register_scheduler_def split: prod.splits)
  then show ?thesis
    using names
    by (auto simp: register_plugin_ok_iff add_aliases_ok_iff scheduler_keys_def plugin_names_def)
qed

theorem register_accepted_iff_witness:
  "fst (register_scheduler (mk_plugin ''cfs2'' ''CFS2'' [] [''CFS''] False) builtin_registry) \<noteq> None"
proof -
  let ?p = "mk_plugin ''cfs2'' ''CFS2'' [] [''CFS''] False"
  have name: "''cfs'' \<in> plugin_names ?p - {norm_str (p_key ?p)}" by code_simp
  have taken: "resolve_scheduler builtin_registry ''cfs'' \<noteq> None" by code_simp
  show ?thesis
  proof
    assume "fst (register_scheduler ?p builtin_registry) = None"
    note register_accepted_iff [OF builtin_reachable, THEN iffD1, OF this,
        THEN conjunct2, THEN conjunct2, THEN conjunct2]
    from bspec [OF this name] taken show False by contradiction
  qed
qed

text \<open>
  A new key silently takes over an alias: when a name is only an alias of a registered
  plugin, a plugin whose key is that name registers without an error, and the name, which
  resolved to the old plugin, then resolves to the new one.
\<close>

theorem key_takes_over_alias:
  assumes "reg_reachable r" and "resolve_workload r a = Some old"
    and "norm_str a \<noteq> p_key old" and "norm_str tok \<noteq> []"
  shows "\<exists>r'. register_workload \<lparr>p_key = a, p_cli_token = tok, p_display_name = d,
        p_description = ds, p_aliases = [], p_is_meta = m\<rparr> r = (None, r')
      \<and> (\<exists>new. resolve_workload r' a = Some new \<and> new \<noteq> old)"
proof -
  let ?p = "\<lparr>p_key = a, p_cli_token = tok, p_display_name = d,
        p_description = ds, p_aliases = [], p_is_meta = m\<rparr>"
  let ?ps = "r_workloads r" and ?am = "r_workload_alias r"
  have inv: "table_inv (?ps, ?am)"
    using reg_reachable_inv [OF assms(1)] by (simp add: reg_inv_def)
  note D = resolve_plugin_SomeD [OF inv assms(2) [unfolded resolve_workload_def]]
  have "norm_str a \<notin> set (map fst ?ps)"
  proof
    assume "norm_str a \<in> set (map fst ?ps)"
    then obtain q where "map_of ?ps (norm_str a) = Some q" by (metis map_of_eq_None_iff not_Some_eq set_map)
    from table_inv_plugin [OF inv this] have "map_of ?am (norm_str a) = Some (norm_str a)"
      by (simp add: plugin_ok_def)
    with D(2) assms(3) show False by simp
  qed
  moreover have "norm_str a \<noteq> []"
    using table_inv_alias [OF inv D(2)] by (simp add: alias_ok_def)
  ultimately have ok: "fst (register_plugin Workload ?p (?ps, ?am)) = None"
    using assms(4) by (simp add: register_plugin_ok_iff normalize_plugin_def sorted_set_def)
  then obtain ps am where t: "register_plugin Workload ?p (?ps, ?am) = (None, (ps, am))"
    by (metis prod.collapse)
  have "resolve_plugin ps am a = Some (normalize_plugin ?p)"
    using register_plugin_resolve [OF t inv refl, of a] by (simp add: plugin_names_def)
  moreover have "normalize_plugin ?p \<noteq> old"
    using assms(3) by auto
  ultimately show ?thesis
    by (auto simp: register_workload_def t resolve_workload_def)
qed

theorem key_takes_over_alias_witness:
  "\<exists>r'. register_workload \<lparr>p_key = ''GoogleTraceV3'', p_cli_token = ''other'', p_display_name = [],
        p_description = [], p_aliases = [], p_is_meta = False\<rparr> builtin_registry = (None, r')
      \<and> (\<exists>new. resolve_workload r' ''GoogleTraceV3'' = Some new
           \<and> new \<noteq> the (resolve_workload builtin_registry ''GoogleTraceV3''))"
proof -
  have "resolve_workload builtin_registry ''GoogleTraceV3'' \<noteq> None" by code_simp
  then have old: "resolve_workload builtin_registry ''GoogleTraceV3''
      = Some (the (resolve_workload builtin_registry ''GoogleTraceV3''))" by simp
  have "norm_str ''GoogleTraceV3'' \<noteq> p_key (the (resolve_workload builtin_registry ''GoogleTraceV3''))"
    "norm_str ''other'' \<noteq> []"
    by code_simp+
  from key_takes_over_alias [OF builtin_reachable old this] show ?thesis by blast
qed

end
