(* ===== verification/PluginLoader.thy ===== *)
theory PluginLoader
  imports Plugins
begin

text \<open>
  \<open>benchmark/plugins/loader.py\<close>: the plugin paths of the command line, the discovery of plugin
  files, and the registry that every program starts with.

  The file system (kind of a path, entries of a directory, resolution of links) and what
  loading a plugin file gives are parameters. Paths are strings.
\<close>

section \<open>The list of paths\<close>

definition split_chunk :: "string \<Rightarrow> string list" where
  "split_chunk chunk =
     (if CHR '':'' \<in> set chunk
      then filter (\<lambda>part. part \<noteq> []) (map py_strip (split_on (CHR '':'') chunk))
      else [chunk])"

definition split_plugin_paths :: "string \<Rightarrow> string list" where
  "split_plugin_paths raw =
     (if py_strip raw = [] then []
      else concat (map split_chunk
             (filter (\<lambda>chunk. chunk \<noteq> []) (map py_strip (split_on (CHR '','') raw)))))"


section \<open>Discovery of plugin files\<close>

datatype path_kind = File | Dir | Missing

record file_system =
  fs_kind :: "string \<Rightarrow> path_kind"
  fs_list :: "string \<Rightarrow> string list"
  fs_resolve :: "string \<Rightarrow> string"

text \<open>\<open>path.name\<close>, and \<open>path.suffix == ".py"\<close>: a leading dot is no suffix.\<close>

definition path_name :: "string \<Rightarrow> string" where
  "path_name p = last (split_on (CHR ''/'') p)"

definition has_py_suffix :: "string \<Rightarrow> bool" where
  "has_py_suffix name \<longleftrightarrow> suffix ''.py'' name \<and> name \<noteq> ''.py''"

definition init_name :: string where
  "init_name = ''__init__.py''"

text \<open>The files of one path; the entries of a directory are visited in sorted order.\<close>

definition path_files :: "file_system \<Rightarrow> string \<Rightarrow> string list" where
  "path_files fs p = (case fs_kind fs p of
      File \<Rightarrow> (if has_py_suffix (path_name p) \<and> path_name p \<noteq> init_name then [fs_resolve fs p] else [])
    | Dir \<Rightarrow> map (\<lambda>item. fs_resolve fs (p @ ''/'' @ item))
        (filter (\<lambda>item. item \<noteq> init_name) (sort (filter (suffix ''.py'') (fs_list fs p))))
    | Missing \<Rightarrow> [])"

text \<open>The loop that keeps the first occurrence of every file.\<close>

fun unique_files :: "string list \<Rightarrow> string list \<Rightarrow> string list" where
  "unique_files seen [] = []"
| "unique_files seen (f # fs) =
     (if f \<in> set seen then unique_files seen fs else f # unique_files (f # seen) fs)"

definition discover_python_files :: "file_system \<Rightarrow> string list \<Rightarrow> string list" where
  "discover_python_files fs paths = unique_files [] (concat (map (path_files fs) paths))"


section \<open>Registration\<close>

text \<open>
  Loading a file: no module, a module without a callable \<open>register\<close>, or the effect of its
  \<open>register\<close> on the registry.
\<close>

datatype plugin_module =
    NoModule
  | NoRegister
  | Registers "registry \<Rightarrow> reg_error option \<times> registry"

datatype load_error = RegFailed reg_error | CannotLoad string | MissingRegister string

definition display_path :: "string \<Rightarrow> string \<Rightarrow> string" where
  "display_path base p =
     (if prefix (base @ ''/'') p then drop (length base + 1) p else p)"

fun register_files ::
  "string \<Rightarrow> (string \<Rightarrow> plugin_module) \<Rightarrow> string list \<Rightarrow> registry
     \<Rightarrow> (load_error, registry \<times> string list) res"
where
  "register_files base modules [] r = Inr (r, [])"
| "register_files base modules (f # fs) r =
     (case modules f of
        NoModule \<Rightarrow> Inl (CannotLoad f)
      | NoRegister \<Rightarrow> Inl (MissingRegister f)
      | Registers reg \<Rightarrow> (case reg r of
            (Some e, _) \<Rightarrow> Inl (RegFailed e)
          | (None, r') \<Rightarrow>
              bind_res (register_files base modules fs r') (\<lambda>(r'', loaded).
              Inr (r'', display_path base f # loaded))))"

definition register_external_plugins ::
  "string \<Rightarrow> file_system \<Rightarrow> (string \<Rightarrow> plugin_module) \<Rightarrow> registry \<Rightarrow> string list
     \<Rightarrow> (load_error, registry \<times> string list) res"
where
  "register_external_plugins base fs modules r paths =
     register_files base modules (discover_python_files fs paths) r"

definition local_plugin_dir :: "string \<Rightarrow> string" where
  "local_plugin_dir base = base @ ''/benchmark/plugins/local''"

definition build_plugin_registry ::
  "string \<Rightarrow> file_system \<Rightarrow> (string \<Rightarrow> plugin_module) \<Rightarrow> string
     \<Rightarrow> (load_error, registry \<times> string list) res"
where
  "build_plugin_registry base fs modules raw =
     (case register_builtin_plugins empty_registry of
        (Some e, _) \<Rightarrow> Inl (RegFailed e)
      | (None, r) \<Rightarrow>
          (let paths = map (fs_resolve fs) (split_plugin_paths raw);
               paths = (if fs_kind fs (local_plugin_dir base) \<noteq> Missing
                        then paths @ [fs_resolve fs (local_plugin_dir base)] else paths)
           in register_external_plugins base fs modules r paths))"


section \<open>The pieces of a path list\<close>

text \<open>The reference: cut at every comma or colon, strip, and drop the blank pieces.\<close>

fun split_where :: "(char \<Rightarrow> bool) \<Rightarrow> string \<Rightarrow> string list" where
  "split_where P [] = [[]]"
| "split_where P (c # cs) =
     (if P c then [] # split_where P cs
      else (case split_where P cs of [] \<Rightarrow> [[c]] | w # ws \<Rightarrow> (c # w) # ws))"

definition pieces :: "string list \<Rightarrow> string list" where
  "pieces ws = filter (\<lambda>w. w \<noteq> []) (map py_strip ws)"

lemma pieces_append [simp]: "pieces (xs @ ys) = pieces xs @ pieces ys"
  by (simp add: pieces_def)

lemma pieces_Cons: "pieces (w # ws) = (if py_strip w = [] then pieces ws else py_strip w # pieces ws)"
  by (simp add: pieces_def)

lemma split_on_Cons_ex: "\<exists>w ws. split_on d s = w # ws"
  by (cases "split_on d s") auto

lemma py_strip_blank_prefix: "\<forall>c\<in>set l. is_space c \<Longrightarrow> py_strip (l @ s) = py_strip s"
  by (induction l) (auto simp: py_strip_def strip_by_def)

lemma py_strip_blank_suffix: "\<forall>c\<in>set t. is_space c \<Longrightarrow> py_strip (s @ t) = py_strip s"
proof -
  assume t: "\<forall>c\<in>set t. is_space c"
  have "rev (dropWhile is_space (rev (dropWhile is_space (s @ t))))
      = rev (dropWhile is_space (rev (dropWhile is_space s)))"
  proof (cases "\<forall>c\<in>set s. is_space c")
    case True
    with t show ?thesis by (simp add: dropWhile_append dropWhile_eq_Nil_conv [THEN iffD2])
  next
    case False
    then have "dropWhile is_space (s @ t) = dropWhile is_space s @ t"
      by (auto simp: dropWhile_append)
    moreover have "dropWhile is_space (rev t @ rev (dropWhile is_space s))
        = dropWhile is_space (rev (dropWhile is_space s))"
      using t by (intro dropWhile_append2) simp
    ultimately show ?thesis by simp
  qed
  then show ?thesis by (simp add: py_strip_def strip_by_def)
qed

lemma py_strip_parts:
  obtains l t where "s = l @ py_strip s @ t" "\<forall>c\<in>set l. is_space c" "\<forall>c\<in>set t. is_space c"
proof
  let ?d = "dropWhile is_space s"
  show "s = takeWhile is_space s @ py_strip s @ rev (takeWhile is_space (rev ?d))"
    by (metis py_strip_def rev_append rev_rev_ident strip_by_def takeWhile_dropWhile_id)
  show "\<forall>c\<in>set (takeWhile is_space s). is_space c"
    "\<forall>c\<in>set (rev (takeWhile is_space (rev ?d))). is_space c"
    by (auto dest: set_takeWhileD)
qed

lemma split_on_prefix:
  "d \<notin> set l \<Longrightarrow> split_on d (l @ s) = (l @ hd (split_on d s)) # tl (split_on d s)"
  using split_on_Cons_ex [of d s] by (induction l) (auto split: list.splits)

lemma split_on_suffix:
  "d \<notin> set t \<Longrightarrow> split_on d (s @ t) = butlast (split_on d s) @ [last (split_on d s) @ t]"
proof (induction s)
  case Nil
  then show ?case by (simp add: split_on_single)
next
  case (Cons c s)
  obtain w ws where "split_on d s = w # ws" using split_on_Cons_ex by blast
  with Cons show ?case by (cases ws) auto
qed

lemma pieces_split_strip:
  assumes "\<not> is_space d"
  shows "pieces (split_on d (py_strip s)) = pieces (split_on d s)"
proof -
  obtain l t where s: "s = l @ py_strip s @ t" and l: "\<forall>c\<in>set l. is_space c"
    and t: "\<forall>c\<in>set t. is_space c" by (rule py_strip_parts)
  have ne: "ws \<noteq> [] \<Longrightarrow> pieces ((l @ hd ws) # tl ws) = pieces ws" for ws
    using l by (cases ws) (simp_all add: pieces_Cons py_strip_blank_prefix)
  have ne': "ws \<noteq> [] \<Longrightarrow> pieces (butlast ws @ [last ws @ t]) = pieces ws" for ws
  proof -
    assume "ws \<noteq> []"
    then have "pieces ws = pieces (butlast ws @ [last ws])" by simp
    with t show ?thesis by (simp only: pieces_append) (simp add: pieces_Cons py_strip_blank_suffix)
  qed
  have "d \<notin> set l" "d \<notin> set t" using assms l t by auto
  then have "pieces (split_on d (l @ py_strip s @ t)) = pieces (split_on d (py_strip s))"
    by (simp add: split_on_prefix ne split_on_suffix ne' del: pieces_append)
  with s show ?thesis by metis
qed

lemma split_where_two:
  "a \<noteq> b \<Longrightarrow> split_where (\<lambda>c. c = a \<or> c = b) s = concat (map (split_on b) (split_on a s))"
proof (induction s)
  case (Cons c s)
  obtain w ws where "split_on a s = w # ws" using split_on_Cons_ex by blast
  moreover obtain v vs where "split_on b w = v # vs" using split_on_Cons_ex by blast
  ultimately show ?case using Cons by auto
qed simp

text \<open>
  The paths of the command line are exactly the non-blank pieces between commas and colons,
  stripped, in order.
\<close>

theorem split_plugin_paths_pieces:
  "split_plugin_paths raw = filter (\<lambda>w. w \<noteq> [])
     (map py_strip (split_where (\<lambda>c. c = CHR '','' \<or> c = CHR '':'') raw))"
proof -
  have col: "\<not> is_space (CHR '':'')" by (simp add: is_space_def)
  have chunk: "split_chunk (py_strip w) = pieces (split_on (CHR '':'') w)" if "py_strip w \<noteq> []" for w
  proof (cases "CHR '':'' \<in> set (py_strip w)")
    case True
    then show ?thesis using pieces_split_strip [OF col, of w] by (simp add: split_chunk_def pieces_def)
  next
    case False
    with that pieces_split_strip [OF col, of w] show ?thesis
      by (simp add: split_chunk_def split_on_single pieces_def)
  qed
  have blank: "pieces (split_on (CHR '':'') w) = []" if "py_strip w = []" for w
    using pieces_split_strip [OF col, of w] that by (simp add: pieces_def)
  have "concat (map split_chunk (filter (\<lambda>w. w \<noteq> []) (map py_strip ws)))
      = pieces (concat (map (split_on (CHR '':'')) ws))" for ws
    using chunk blank by (induction ws) (auto simp: pieces_def [of "[]"])
  from this [of "split_on (CHR '','') raw"]
  have all: "concat (map split_chunk (pieces (split_on (CHR '','') raw)))
      = pieces (split_where (\<lambda>c. c = CHR '','' \<or> c = CHR '':'') raw)"
    by (simp add: split_where_two pieces_def)
  have "pieces (split_on (CHR '','') raw) = []" if "py_strip raw = []"
    using that pieces_split_strip [of "CHR '',''" raw] by (simp add: pieces_def is_space_def)
  with all show ?thesis
    by (cases "py_strip raw = []") (simp_all add: split_plugin_paths_def pieces_def)
qed

section \<open>Discovery\<close>

lemma unique_files_set: "set (unique_files seen fs) = set fs - set seen"
  by (induction seen fs rule: unique_files.induct) auto

lemma unique_files_distinct: "distinct (unique_files seen fs)"
  by (induction seen fs rule: unique_files.induct) (auto simp: unique_files_set)

lemma unique_files_append:
  "\<exists>rest. unique_files seen (xs @ ys) = unique_files seen xs @ rest"
  by (induction seen xs rule: unique_files.induct) auto

text \<open>
  Discovery returns every plugin file once: the files named on the command line and those
  in the directories named there that end in \<open>.py\<close>, resolved, and never an \<open>__init__.py\<close>.
\<close>

theorem discover_exact:
  "distinct (discover_python_files fs paths)
   \<and> (f \<in> set (discover_python_files fs paths) \<longleftrightarrow>
       (\<exists>p\<in>set paths. fs_kind fs p = File \<and> has_py_suffix (path_name p) \<and> path_name p \<noteq> init_name
            \<and> f = fs_resolve fs p
          \<or> fs_kind fs p = Dir \<and> (\<exists>item\<in>set (fs_list fs p). suffix ''.py'' item \<and> item \<noteq> init_name
            \<and> f = fs_resolve fs (p @ ''/'' @ item))))"
proof -
  have "f \<in> set (path_files fs p) \<longleftrightarrow>
       fs_kind fs p = File \<and> has_py_suffix (path_name p) \<and> path_name p \<noteq> init_name \<and> f = fs_resolve fs p
     \<or> fs_kind fs p = Dir \<and> (\<exists>item\<in>set (fs_list fs p). suffix ''.py'' item \<and> item \<noteq> init_name
            \<and> f = fs_resolve fs (p @ ''/'' @ item))" for p
    by (auto simp: path_files_def split: path_kind.splits)
  then show ?thesis
    by (auto simp: discover_python_files_def unique_files_distinct unique_files_set)
qed

section \<open>Plugins cannot redefine a key\<close>

lemma register_plugin_keeps:
  assumes "register_plugin k q (ps, am) = (e, (ps', am'))" and inv: "table_inv (ps, am)"
    and res: "resolve_plugin ps am v = Some p" and key: "norm_str v = p_key p"
  shows "resolve_plugin ps' am' v = Some p"
  using assms(1)
proof (cases rule: register_plugin_cases)
  case (stored am1)
  from resolve_plugin_SomeD [OF inv res] key
  have p: "map_of ps (p_key p) = Some p" "map_of am (p_key p) = Some (p_key p)" "p_key p \<noteq> []" by simp_all
  with stored(2) have ne: "p_key p \<noteq> norm_str (p_key q)" by auto
  with stored(4) p have "map_of ps' (p_key p) = Some p" by simp
  moreover have "map_of am' (p_key p) = Some (p_key p)"
    using add_aliases_frame [OF stored(5), of "p_key p"] stored(4) ne p(2) by simp
  ultimately show ?thesis using p(3) by (simp add: resolve_plugin_def key)
qed (use res in simp)

lemma register_call_keeps:
  assumes "reg_inv r" and "register_call c r = (e, r')"
  shows "resolve_scheduler r v = Some p \<Longrightarrow> norm_str v = p_key p \<Longrightarrow> resolve_scheduler r' v = Some p"
    and "resolve_workload r v = Some p \<Longrightarrow> norm_str v = p_key p \<Longrightarrow> resolve_workload r' v = Some p"
  using assms
  by (cases c; auto simp: register_scheduler_def register_workload_def resolve_scheduler_def
      resolve_workload_def reg_inv_def intro: register_plugin_keeps split: prod.splits)+

lemma register_calls_keep:
  assumes "reg_inv r"
  shows "resolve_scheduler r v = Some p \<Longrightarrow> norm_str v = p_key p
      \<Longrightarrow> resolve_scheduler (snd (register_calls cs r)) v = Some p"
    and "resolve_workload r v = Some p \<Longrightarrow> norm_str v = p_key p
      \<Longrightarrow> resolve_workload (snd (register_calls cs r)) v = Some p"
  using assms
proof (induction cs arbitrary: r)
  case (Cons c cs)
  {
    case 1
    with Cons.IH(1) [of "snd (register_call c r)"] register_call_inv [of r c]
      register_call_keeps(1) [of r c _ "snd (register_call c r)" v p]
    show ?case by (auto split: prod.splits option.splits)
  next
    case 2
    with Cons.IH(2) [of "snd (register_call c r)"] register_call_inv [of r c]
      register_call_keeps(2) [of r c _ "snd (register_call c r)" v p]
    show ?case by (auto split: prod.splits option.splits)
  }
qed simp_all

text \<open>A plugin file that changes the registry through its methods only.\<close>

definition uses_registry :: "plugin_module \<Rightarrow> bool" where
  "uses_registry m \<longleftrightarrow> (\<forall>reg. m = Registers reg \<longrightarrow> (\<exists>calls. reg = register_calls calls))"

lemma register_files_keep:
  assumes "register_files base modules files r = Inr (r', loaded)" and "reg_inv r"
    and "\<And>f. uses_registry (modules f)"
  shows "reg_inv r' \<and> loaded = map (display_path base) files
    \<and> (resolve_scheduler r v = Some p \<and> norm_str v = p_key p \<longrightarrow> resolve_scheduler r' v = Some p)
    \<and> (resolve_workload r w = Some q \<and> norm_str w = p_key q \<longrightarrow> resolve_workload r' w = Some q)"
  using assms(1,2)
proof (induction files arbitrary: r loaded)
  case (Cons f fs)
  then obtain reg r1 where f: "modules f = Registers reg" "reg r = (None, r1)"
    by (auto split: plugin_module.splits prod.splits option.splits)
  with assms(3) [of f] obtain calls where calls: "reg = register_calls calls"
    by (auto simp: uses_registry_def)
  with f have r1: "r1 = snd (register_calls calls r)" by simp
  from Cons.prems f obtain rest where rest: "register_files base modules fs r1 = Inr (r', rest)"
    "loaded = display_path base f # rest" by (auto simp: res_simps)
  have inv: "reg_inv r1" using register_calls_inv Cons.prems(2) r1 by simp
  from Cons.IH [OF rest(1) inv] rest(2) show ?case
    using register_calls_keep [OF Cons.prems(2)] r1 by auto
qed simp

lemma builtin_ok: "fst (register_builtin_plugins empty_registry) = None"
  by code_simp

lemma builtin_resolve:
  "list_all (\<lambda>p. resolve_scheduler builtin_registry (p_key p) = Some (normalize_plugin p)) builtin_schedulers"
  "list_all (\<lambda>p. resolve_workload builtin_registry (p_key p) = Some (normalize_plugin p)) builtin_workloads"
  by code_simp+

lemma build_plugin_registryD:
  assumes "build_plugin_registry base fs modules raw = Inr (r, loaded)"
  shows "register_files base modules (discover_python_files fs
      (map (fs_resolve fs) (split_plugin_paths raw)
        @ (if fs_kind fs (local_plugin_dir base) \<noteq> Missing then [fs_resolve fs (local_plugin_dir base)] else [])))
      builtin_registry = Inr (r, loaded)"
  using assms builtin_ok
  by (cases "register_builtin_plugins empty_registry")
     (auto simp: build_plugin_registry_def register_external_plugins_def Let_def builtin_registry_def)

text \<open>
  The registry that a program starts with is well formed, and no plugin file, given on the
  command line or local, can change what the key of a built-in scheduler or workload means.
\<close>

theorem builtin_keys_stable:
  assumes "build_plugin_registry base fs modules raw = Inr (r, loaded)"
    and "\<And>f. uses_registry (modules f)"
    and "p \<in> set builtin_schedulers" and "q \<in> set builtin_workloads"
  shows "reg_inv r \<and> resolve_scheduler r (p_key p) = Some (normalize_plugin p)
    \<and> resolve_workload r (p_key q) = Some (normalize_plugin q)"
proof -
  have "resolve_scheduler builtin_registry (p_key p) = Some (normalize_plugin p)"
    "resolve_workload builtin_registry (p_key q) = Some (normalize_plugin q)"
    using builtin_resolve assms(3,4) by (simp_all add: list_all_iff)
  with register_files_keep [OF build_plugin_registryD [OF assms(1)] _ assms(2),
      of "p_key p" "normalize_plugin p" "p_key q" "normalize_plugin q"]
  show ?thesis using reg_reachable_inv [OF builtin_reachable] by simp
qed

text \<open>A file system with one plugin file on the command line and one in the local directory.\<close>

definition sample_fs :: file_system where
  "sample_fs = \<lparr>
     fs_kind = (\<lambda>p. if p = ''/ext/w.py'' then File
                    else if p = ''/r/benchmark/plugins/local'' then Dir else Missing),
     fs_list = (\<lambda>p. [''mine.py'', ''__init__.py'', ''notes.txt'']),
     fs_resolve = (\<lambda>p. p)\<rparr>"

definition sample_modules :: "string \<Rightarrow> plugin_module" where
  "sample_modules f = Registers (register_calls
     (if f = ''/ext/w.py'' then [RegWorkload example_workload] else []))"

lemma sample_modules_api: "uses_registry (sample_modules f)"
  by (auto simp: uses_registry_def sample_modules_def)

definition sample_loaded :: "registry \<times> string list" where
  "sample_loaded = (snd (register_workload example_workload builtin_registry),
     [''/ext/w.py'', ''benchmark/plugins/local/mine.py''])"

lemma sample_build:
  "build_plugin_registry ''/r'' sample_fs sample_modules '' /ext/w.py ,'' = Inr sample_loaded"
proof -
  obtain r1 where reg: "register_workload example_workload builtin_registry = (None, r1)"
    using example_workload_registered by (metis prod.collapse)
  have split: "split_plugin_paths '' /ext/w.py ,'' = [''/ext/w.py'']" by code_simp
  have disc: "discover_python_files sample_fs [''/ext/w.py'', local_plugin_dir ''/r'']
      = [''/ext/w.py'', ''/r/benchmark/plugins/local/mine.py'']" by code_simp
  have here: "fs_kind sample_fs (local_plugin_dir ''/r'') \<noteq> Missing" by code_simp
  have res: "fs_resolve sample_fs = (\<lambda>p. p)" by (simp add: sample_fs_def)
  have disp: "display_path ''/r'' ''/ext/w.py'' = ''/ext/w.py''"
    "display_path ''/r'' ''/r/benchmark/plugins/local/mine.py'' = ''benchmark/plugins/local/mine.py''"
    by code_simp+
  have "register_files ''/r'' sample_modules [''/ext/w.py'', ''/r/benchmark/plugins/local/mine.py''] builtin_registry
      = Inr sample_loaded"
    using reg by (simp add: sample_modules_def disp sample_loaded_def)
  with builtin_ok show ?thesis
    by (cases "register_builtin_plugins empty_registry")
       (simp add: build_plugin_registry_def register_external_plugins_def Let_def split disc here res
         builtin_registry_def)
qed

theorem builtin_keys_stable_witness:
  "resolve_workload (fst sample_loaded) ''desktop'' \<noteq> None"
proof -
  have b: "build_plugin_registry ''/r'' sample_fs sample_modules '' /ext/w.py ,''
      = Inr (fst sample_loaded, snd sample_loaded)" using sample_build by simp
  have "hd builtin_schedulers \<in> set builtin_schedulers" by (simp add: builtin_schedulers_def)
  moreover have "\<exists>q\<in>set builtin_workloads. p_key q = ''desktop''"
    by (simp add: builtin_workloads_def mk_plugin_def)
  ultimately show ?thesis
    using builtin_keys_stable [OF b sample_modules_api] by (metis option.distinct(1))
qed

text \<open>
  The order of loading: the files given on the command line come first, the local plugin
  directory last, and each file is reported once. A local plugin that registers the same key as
  one from the command line is therefore the one that fails.
\<close>

theorem external_before_local:
  assumes "build_plugin_registry base fs modules raw = Inr (r, loaded)"
    and "\<And>f. uses_registry (modules f)"
  shows "\<exists>rest. loaded = map (display_path base)
      (discover_python_files fs (map (fs_resolve fs) (split_plugin_paths raw)) @ rest)
    \<and> set rest \<subseteq> set (path_files fs (fs_resolve fs (local_plugin_dir base)))"
proof -
  let ?ext = "map (fs_resolve fs) (split_plugin_paths raw)"
  let ?loc = "if fs_kind fs (local_plugin_dir base) \<noteq> Missing then [fs_resolve fs (local_plugin_dir base)] else []"
  have loaded: "loaded = map (display_path base) (discover_python_files fs (?ext @ ?loc))"
    using register_files_keep [OF build_plugin_registryD [OF assms(1)] _ assms(2)]
      reg_reachable_inv [OF builtin_reachable] by blast
  from unique_files_append [of "[]" "concat (map (path_files fs) ?ext)" "concat (map (path_files fs) ?loc)"]
  obtain rest where rest: "discover_python_files fs (?ext @ ?loc) = discover_python_files fs ?ext @ rest"
    by (auto simp: discover_python_files_def)
  have "distinct (discover_python_files fs ?ext @ rest)"
    unfolding rest [symmetric] by (simp add: discover_python_files_def unique_files_distinct)
  moreover have "set (discover_python_files fs ?ext @ rest)
      \<subseteq> set (discover_python_files fs ?ext) \<union> set (path_files fs (fs_resolve fs (local_plugin_dir base)))"
    unfolding rest [symmetric] by (auto simp: discover_python_files_def unique_files_set)
  ultimately have "set rest \<subseteq> set (path_files fs (fs_resolve fs (local_plugin_dir base)))" by auto
  with loaded rest show ?thesis by auto
qed

theorem external_before_local_witness:
  "\<exists>rest. snd sample_loaded = map (display_path ''/r'') ([''/ext/w.py''] @ rest)"
proof -
  have b: "build_plugin_registry ''/r'' sample_fs sample_modules '' /ext/w.py ,''
      = Inr (fst sample_loaded, snd sample_loaded)" using sample_build by simp
  have "discover_python_files sample_fs
      (map (fs_resolve sample_fs) (split_plugin_paths '' /ext/w.py ,'')) = [''/ext/w.py'']" by code_simp
  with external_before_local [OF b sample_modules_api] show ?thesis by metis
qed

end
