(* ===== verification/Templates.thy ===== *)
theory Templates
  imports PluginLoader
begin

text \<open>
  \<open>templates/new_scheduler.py\<close> and \<open>templates/new_workload.py\<close>: the two plugin files that users
  copy into the local plugin directory. Each is a module whose \<open>register\<close> makes one call.
\<close>

definition scheduler_template :: plugin where
  "scheduler_template = \<lparr>
     p_key = ''myscheduler'', p_cli_token = ''myscheduler'', p_display_name = ''MyScheduler'',
     p_description = ''Short description of scheduling policy.'',
     p_aliases = [''my-scheduler'', ''MyScheduler''], p_is_meta = False\<rparr>"

definition workload_template :: plugin where
  "workload_template = \<lparr>
     p_key = ''myworkload'', p_cli_token = ''myworkload'', p_display_name = ''MyWorkload'',
     p_description = ''Short description of workload characteristics.'',
     p_aliases = [''my-workload'', ''MyWorkload''], p_is_meta = False\<rparr>"

definition new_scheduler :: plugin_module where
  "new_scheduler = Registers (register_calls [RegScheduler scheduler_template])"

definition new_workload :: plugin_module where
  "new_workload = Registers (register_calls [RegWorkload workload_template])"

lemma templates_use_registry: "uses_registry new_scheduler" "uses_registry new_workload"
  by (auto simp: uses_registry_def new_scheduler_def new_workload_def)

definition template_registry :: registry where
  "template_registry = snd (register_workload workload_template
     (snd (register_scheduler scheduler_template builtin_registry)))"

text \<open>The names under which the templates are found, computed.\<close>

lemma template_names:
  "list_all (\<lambda>v. map_of (r_scheduler_alias template_registry) v = Some ''myscheduler'') [''myscheduler'', ''my-scheduler'']"
  "map_of (r_schedulers template_registry) ''myscheduler'' = Some (normalize_plugin scheduler_template)"
  "list_all (\<lambda>v. map_of (r_workload_alias template_registry) v = Some ''myworkload'') [''myworkload'', ''my-workload'']"
  "map_of (r_workloads template_registry) ''myworkload'' = Some (normalize_plugin workload_template)"
  by code_simp+

lemma templates_registered:
  "fst (register_scheduler scheduler_template builtin_registry) = None"
  "fst (register_workload workload_template (snd (register_scheduler scheduler_template builtin_registry))) = None"
  "fst (register_scheduler scheduler_template (snd (register_scheduler scheduler_template builtin_registry)))
     = Some (DuplicateKey Scheduler ''myscheduler'')"
  by code_simp+

text \<open>
  Both templates load as they are, and then every one of their names resolves, in any case and
  with blanks around it; but a second copy that was not edited stops the start of every program
  with a duplicate key.
\<close>

theorem templates_load:
  assumes "modules f = new_scheduler" and "modules g = new_workload" and "modules f' = new_scheduler"
  shows "register_files base modules [f, g] builtin_registry
      = Inr (template_registry, [display_path base f, display_path base g])
    \<and> (norm_str v \<in> {''myscheduler'', ''my-scheduler''}
        \<longrightarrow> resolve_scheduler template_registry v = Some (normalize_plugin scheduler_template))
    \<and> (norm_str v \<in> {''myworkload'', ''my-workload''}
        \<longrightarrow> resolve_workload template_registry v = Some (normalize_plugin workload_template))
    \<and> register_files base modules [f, f'] builtin_registry
      = Inl (RegFailed (DuplicateKey Scheduler ''myscheduler''))"
proof -
  obtain r1 where r1: "register_scheduler scheduler_template builtin_registry = (None, r1)"
    using templates_registered(1) by (metis prod.collapse)
  moreover obtain r2 where "register_workload workload_template r1 = (None, r2)"
    using templates_registered(2) r1 by (metis prod.collapse snd_conv)
  moreover obtain r3 where "register_scheduler scheduler_template r1
      = (Some (DuplicateKey Scheduler ''myscheduler''), r3)"
    using templates_registered(3) r1 by (metis prod.collapse snd_conv)
  moreover have "resolve_scheduler template_registry v = Some (normalize_plugin scheduler_template)"
    if "norm_str v \<in> {''myscheduler'', ''my-scheduler''}"
    using that template_names(1,2) by (auto simp: resolve_scheduler_def resolve_plugin_def)
  moreover have "resolve_workload template_registry v = Some (normalize_plugin workload_template)"
    if "norm_str v \<in> {''myworkload'', ''my-workload''}"
    using that template_names(3,4) by (auto simp: resolve_workload_def resolve_plugin_def)
  ultimately show ?thesis
    using assms by (simp add: new_scheduler_def new_workload_def template_registry_def)
qed

end
