(* ===== verification/SuiteSpec.thy ===== *)
theory SuiteSpec
  imports PyValue Plugins
begin

text \<open>
  The two validators of a suite document: \<open>validate_suite\<close> of
  \<open>benchmark/runner/run_suite.py\<close>, which the runner applies, and the stricter
  \<open>scripts/validate_benchmark_spec.py\<close>. A document is the value that \<open>json.load\<close>
  returned; every check is made in the order of the code, and a check that Python makes
  with an exception of its own (a missing key, a value that cannot be converted) is an error
  result too. The text of the messages is not modelled: \<open>fault\<close> has one constructor for
  each call of \<open>fail\<close> and each \<open>SystemExit\<close>.
\<close>

datatype fault =
    MissingSuiteKey string
  | UnsupportedSchemaVersion
  | BadBenchmarkVersion
  | BadSuiteId
  | ExperimentsNotList
  | DefaultsKeyRequired string
  | ReplicationsTooSmall
  | SeedBaseTooSmall
  | DefaultTopologyInvalid
  | DefaultSchedulerInvalid
  | EmptyExperimentId
  | RunsNotList json
  | MissingExperimentKey string
  | DuplicateExperimentId json
  | UnknownReuse json
  | MissingRunKey json nat string
  | WorkloadInvalid json nat
  | CoresTooSmall json nat
  | NumTasksTooSmall json nat
  | StopTimeNotPositive json nat
  | TopologyInvalid json nat
  | BalancerMissing json nat
  | BalancerInvalid json nat
  | WorkStealingNotBool json nat
  | RunSchedulerInvalid json nat
  | UnknownExperimentIds "string list"
  | UnknownScheduler string
  | UnknownWorkload string
  | BadReplications
  | BadSeedBase
  | NoRuns
  | RunsFailed
  | SuiteNotFound
  | BinaryNotFound

type_synonym 'a result = "(fault exn, 'a) res"

definition valid_topologies :: "string list" where
  "valid_topologies = [''sq'', ''mq'']"

definition valid_balancers :: "string list" where
  "valid_balancers = [''rr'', ''leastloaded'']"

text \<open>\<open>if key not in v: fail(...)\<close>\<close>

definition require_key :: "json \<Rightarrow> (string \<Rightarrow> fault) \<Rightarrow> string \<Rightarrow> unit result" where
  "require_key v f k = bind_res (py_contains k v) (\<lambda>b. ensure b (Fail (f k)))"

text \<open>\<open>if int(v) < 1: fail(...)\<close> and \<open>if float(v) <= 0: fail(...)\<close>\<close>

definition require_pos_int :: "json \<Rightarrow> fault \<Rightarrow> unit result" where
  "require_pos_int v f = bind_res (py_int v) (\<lambda>n. ensure (1 \<le> n) (Fail f))"

definition require_pos_float :: "json \<Rightarrow> fault \<Rightarrow> unit result" where
  "require_pos_float v f = bind_res (py_float v) (\<lambda>x. ensure (\<not> float_le_zero x) (Fail f))"

definition suite_keys :: "string list" where
  "suite_keys = [''schema_version'', ''benchmark_version'', ''suite_id'', ''title'',
     ''description'', ''defaults'', ''experiments'']"

definition default_keys :: "string list" where
  "default_keys = [''scheduler'', ''replications'', ''topology'', ''seed_base'']"


section \<open>The validator of the runner\<close>

text \<open>The keys, the schema version, the experiments list and the defaults.\<close>

definition suite_head :: "(json \<Rightarrow> string) \<Rightarrow> registry \<Rightarrow> json \<Rightarrow> unit result" where
  "suite_head rp reg doc =
     bind_res (for_each (require_key doc MissingSuiteKey) suite_keys) (\<lambda>_.
     bind_res (py_getitem doc ''schema_version'') (\<lambda>sv.
     bind_res (ensure (sv = JStr ''suite.v1'') (Fail UnsupportedSchemaVersion)) (\<lambda>_.
     bind_res (py_getitem doc ''experiments'') (\<lambda>exps.
     bind_res (ensure (is_jlist exps) (Fail ExperimentsNotList)) (\<lambda>_.
     bind_res (py_getitem doc ''defaults'') (\<lambda>defaults.
     bind_res (for_each (require_key defaults DefaultsKeyRequired) default_keys) (\<lambda>_.
     bind_res (py_getitem defaults ''replications'') (\<lambda>reps.
     bind_res (require_pos_int reps ReplicationsTooSmall) (\<lambda>_.
     bind_res (py_getitem defaults ''seed_base'') (\<lambda>seed.
     bind_res (require_pos_int seed SeedBaseTooSmall) (\<lambda>_.
     bind_res (py_getitem defaults ''topology'') (\<lambda>topo.
     bind_res (in_str_set topo valid_topologies) (\<lambda>ok.
     bind_res (ensure ok (Fail DefaultTopologyInvalid)) (\<lambda>_.
     bind_res (py_getitem defaults ''scheduler'') (\<lambda>sched.
     ensure (resolve_scheduler reg (py_str rp sched) \<noteq> None)
       (Fail DefaultSchedulerInvalid))))))))))))))))"

text \<open>\<open>str(exp.get("id", "")).strip()\<close>\<close>

definition exp_id_text :: "(json \<Rightarrow> string) \<Rightarrow> json \<Rightarrow> string result" where
  "exp_id_text rp ex =
     bind_res (py_get ex ''id'' (JStr [])) (\<lambda>v. Inr (py_strip (py_str rp v)))"

text \<open>One iteration of the loop over the runs of an experiment.\<close>

definition check_run :: "(json \<Rightarrow> string) \<Rightarrow> registry \<Rightarrow> json \<Rightarrow> nat \<times> json \<Rightarrow> unit result" where
  "check_run rp reg eid ir = (case ir of (idx, run) \<Rightarrow>
     bind_res (py_get run ''workload'' (JStr [])) (\<lambda>w.
     bind_res (ensure (resolve_workload reg (py_str rp w) \<noteq> None)
       (Fail (WorkloadInvalid eid idx))) (\<lambda>_.
     bind_res (py_get run ''cores'' (JInt 0)) (\<lambda>c.
     bind_res (require_pos_int c (CoresTooSmall eid idx)) (\<lambda>_.
     bind_res (py_get run ''num_tasks'' (JInt 0)) (\<lambda>n.
     bind_res (require_pos_int n (NumTasksTooSmall eid idx)) (\<lambda>_.
     bind_res (py_get run ''stop_time'' (JFloat (Fin 0))) (\<lambda>t.
     bind_res (require_pos_float t (StopTimeNotPositive eid idx)) (\<lambda>_.
     bind_res (py_get run ''topology'' (JStr [])) (\<lambda>tv.
     bind_res (Inr (py_lower (py_str rp tv))) (\<lambda>topo.
     bind_res (ensure (topo \<in> set valid_topologies) (Fail (TopologyInvalid eid idx))) (\<lambda>_.
     bind_res (if topo = ''mq''
               then bind_res (py_get run ''balancer'' (JStr [])) (\<lambda>b.
                 ensure (py_lower (py_str rp b) \<in> set valid_balancers)
                   (Fail (BalancerInvalid eid idx)))
               else Inr ()) (\<lambda>_.
     bind_res (py_contains ''scheduler'' run) (\<lambda>has.
     if has
     then bind_res (py_getitem run ''scheduler'') (\<lambda>s.
       ensure (resolve_scheduler reg (py_str rp s) \<noteq> None)
         (Fail (RunSchedulerInvalid eid idx)))
     else Inr ()))))))))))))))"

definition check_experiment :: "(json \<Rightarrow> string) \<Rightarrow> registry \<Rightarrow> json \<Rightarrow> unit result" where
  "check_experiment rp reg ex =
     bind_res (exp_id_text rp ex) (\<lambda>eid.
     bind_res (ensure (eid \<noteq> []) (Fail EmptyExperimentId)) (\<lambda>_.
     bind_res (py_get ex ''runs'' (JList [])) (\<lambda>runs.
     bind_res (ensure (is_jlist runs) (Fail (RunsNotList (JStr eid)))) (\<lambda>_.
     for_each (check_run rp reg (JStr eid)) (enumerate 0 (list_items runs))))))"

text \<open>The check of \<open>reuse_from_experiment\<close> against the set of experiment ids.\<close>

definition check_reuse :: "string list \<Rightarrow> json \<Rightarrow> unit result" where
  "check_reuse ids ex =
     bind_res (py_get ex ''reuse_from_experiment'' JNull) (\<lambda>parent.
     if truthy parent
     then bind_res (in_str_set parent ids) (\<lambda>ok. ensure ok (Fail (UnknownReuse parent)))
     else Inr ())"

definition validate_suite :: "(json \<Rightarrow> string) \<Rightarrow> registry \<Rightarrow> json \<Rightarrow> unit result" where
  "validate_suite rp reg doc =
     bind_res (suite_head rp reg doc) (\<lambda>_.
     bind_res (py_getitem doc ''experiments'') (\<lambda>v.
     bind_res (Inr (list_items v)) (\<lambda>exps.
     bind_res (map_res (exp_id_text rp) exps) (\<lambda>ids.
     bind_res (for_each (check_experiment rp reg) exps) (\<lambda>_.
     for_each (check_reuse ids) exps)))))"

section \<open>The stricter validator\<close>

definition is_nonblank_str :: "json \<Rightarrow> bool" where
  "is_nonblank_str v = (case v of JStr s \<Rightarrow> py_strip s \<noteq> [] | _ \<Rightarrow> False)"

definition is_jbool :: "json \<Rightarrow> bool" where
  "is_jbool v = (case v of JBool _ \<Rightarrow> True | _ \<Rightarrow> False)"

definition validate_top_level :: "json \<Rightarrow> unit result" where
  "validate_top_level doc =
     bind_res (for_each (require_key doc MissingSuiteKey) suite_keys) (\<lambda>_.
     bind_res (py_getitem doc ''schema_version'') (\<lambda>sv.
     bind_res (ensure (sv = JStr ''suite.v1'') (Fail UnsupportedSchemaVersion)) (\<lambda>_.
     bind_res (py_getitem doc ''benchmark_version'') (\<lambda>bv.
     bind_res (ensure (is_nonblank_str bv) (Fail BadBenchmarkVersion)) (\<lambda>_.
     bind_res (py_getitem doc ''suite_id'') (\<lambda>sid.
     bind_res (ensure (is_nonblank_str sid) (Fail BadSuiteId)) (\<lambda>_.
     bind_res (py_getitem doc ''experiments'') (\<lambda>exps.
     ensure (is_jlist exps \<and> list_items exps \<noteq> []) (Fail ExperimentsNotList)))))))))"

definition validate_defaults :: "(json \<Rightarrow> string) \<Rightarrow> registry \<Rightarrow> json \<Rightarrow> unit result" where
  "validate_defaults rp reg defaults =
     bind_res (for_each (require_key defaults DefaultsKeyRequired) default_keys) (\<lambda>_.
     bind_res (py_getitem defaults ''scheduler'') (\<lambda>sched.
     bind_res (ensure (resolve_scheduler reg (py_str rp sched) \<noteq> None)
       (Fail DefaultSchedulerInvalid)) (\<lambda>_.
     bind_res (py_getitem defaults ''replications'') (\<lambda>reps.
     bind_res (require_pos_int reps ReplicationsTooSmall) (\<lambda>_.
     bind_res (py_getitem defaults ''topology'') (\<lambda>topo.
     bind_res (in_str_set topo valid_topologies) (\<lambda>ok.
     bind_res (ensure ok (Fail DefaultTopologyInvalid)) (\<lambda>_.
     bind_res (py_getitem defaults ''seed_base'') (\<lambda>seed.
     require_pos_int seed SeedBaseTooSmall)))))))))"

definition run_keys :: "string list" where
  "run_keys = [''workload'', ''cores'', ''num_tasks'', ''stop_time'', ''topology'']"

definition validate_run :: "(json \<Rightarrow> string) \<Rightarrow> registry \<Rightarrow> json \<Rightarrow> nat \<times> json \<Rightarrow> unit result" where
  "validate_run rp reg eid ir = (case ir of (idx, run) \<Rightarrow>
     bind_res (for_each (require_key run (MissingRunKey eid idx)) run_keys) (\<lambda>_.
     bind_res (py_getitem run ''workload'') (\<lambda>w.
     bind_res (ensure (resolve_workload reg (py_str rp w) \<noteq> None)
       (Fail (WorkloadInvalid eid idx))) (\<lambda>_.
     bind_res (py_getitem run ''cores'') (\<lambda>c.
     bind_res (require_pos_int c (CoresTooSmall eid idx)) (\<lambda>_.
     bind_res (py_getitem run ''num_tasks'') (\<lambda>n.
     bind_res (require_pos_int n (NumTasksTooSmall eid idx)) (\<lambda>_.
     bind_res (py_getitem run ''stop_time'') (\<lambda>t.
     bind_res (require_pos_float t (StopTimeNotPositive eid idx)) (\<lambda>_.
     bind_res (py_getitem run ''topology'') (\<lambda>topo.
     bind_res (in_str_set topo valid_topologies) (\<lambda>ok.
     bind_res (ensure ok (Fail (TopologyInvalid eid idx))) (\<lambda>_.
     bind_res (if topo = JStr ''mq''
               then bind_res (require_key run (\<lambda>_. BalancerMissing eid idx) ''balancer'') (\<lambda>_.
                 bind_res (py_getitem run ''balancer'') (\<lambda>b.
                 bind_res (in_str_set b valid_balancers) (\<lambda>okb.
                 bind_res (ensure okb (Fail (BalancerInvalid eid idx))) (\<lambda>_.
                 bind_res (py_contains ''work_stealing'' run) (\<lambda>has.
                 if has
                 then bind_res (py_getitem run ''work_stealing'') (\<lambda>ws.
                   ensure (is_jbool ws) (Fail (WorkStealingNotBool eid idx)))
                 else Inr ())))))
               else Inr ()) (\<lambda>_.
     bind_res (py_contains ''scheduler'' run) (\<lambda>has.
     if has
     then bind_res (py_getitem run ''scheduler'') (\<lambda>s.
       ensure (resolve_scheduler reg (py_str rp s) \<noteq> None)
         (Fail (RunSchedulerInvalid eid idx)))
     else Inr ())))))))))))))))"

definition experiment_keys :: "string list" where
  "experiment_keys = [''id'', ''title'', ''objective'', ''runs'']"

text \<open>
  One iteration of the loop over the experiments; \<open>seen\<close> holds the canonical forms of the ids
  of the earlier experiments.
\<close>

definition validate_experiment ::
  "(json \<Rightarrow> string) \<Rightarrow> registry \<Rightarrow> json \<Rightarrow> json list \<Rightarrow> json list result" where
  "validate_experiment rp reg ex seen =
     bind_res (for_each (require_key ex MissingExperimentKey) experiment_keys) (\<lambda>_.
     bind_res (py_getitem ex ''id'') (\<lambda>eid.
     bind_res (hash_key eid) (\<lambda>h.
     bind_res (ensure (h \<notin> set seen) (Fail (DuplicateExperimentId eid))) (\<lambda>_.
     bind_res (py_getitem ex ''runs'') (\<lambda>runs.
     bind_res (ensure (is_jlist runs) (Fail (RunsNotList eid))) (\<lambda>_.
     bind_res (for_each (validate_run rp reg eid) (enumerate 0 (list_items runs))) (\<lambda>_.
     Inr (h # seen))))))))"

definition validate_reuse :: "json list \<Rightarrow> json \<Rightarrow> unit result" where
  "validate_reuse seen ex =
     bind_res (py_get ex ''reuse_from_experiment'' JNull) (\<lambda>parent.
     if truthy parent
     then bind_res (hash_key parent) (\<lambda>h. ensure (h \<in> set seen) (Fail (UnknownReuse parent)))
     else Inr ())"

definition validate_experiments :: "(json \<Rightarrow> string) \<Rightarrow> registry \<Rightarrow> json list \<Rightarrow> unit result" where
  "validate_experiments rp reg exps =
     bind_res (fold_res (validate_experiment rp reg) exps []) (\<lambda>seen.
     for_each (validate_reuse seen) exps)"

text \<open>The three calls of \<open>main\<close>.\<close>

definition validate_spec :: "(json \<Rightarrow> string) \<Rightarrow> registry \<Rightarrow> json \<Rightarrow> unit result" where
  "validate_spec rp reg doc =
     bind_res (validate_top_level doc) (\<lambda>_.
     bind_res (py_getitem doc ''defaults'') (\<lambda>defaults.
     bind_res (validate_defaults rp reg defaults) (\<lambda>_.
     bind_res (py_getitem doc ''experiments'') (\<lambda>exps.
     validate_experiments rp reg (list_items exps)))))"

section \<open>What an accepted run looks like\<close>

definition pos_int :: "json \<Rightarrow> bool" where
  "pos_int v = (case (py_int v :: int result) of Inl _ \<Rightarrow> False | Inr n \<Rightarrow> 1 \<le> n)"

definition pos_float :: "json \<Rightarrow> bool" where
  "pos_float v = (case (py_float v :: pyfloat result) of Inl _ \<Rightarrow> False | Inr x \<Rightarrow> \<not> float_le_zero x)"

text \<open>The conditions of the runner on one run, without the order of the checks.\<close>

definition run_ok :: "(json \<Rightarrow> string) \<Rightarrow> registry \<Rightarrow> json \<Rightarrow> bool" where
  "run_ok rp reg run = (case run of
     JObj kvs \<Rightarrow>
       resolve_workload reg (py_str rp (dget kvs ''workload'' (JStr []))) \<noteq> None
       \<and> pos_int (dget kvs ''cores'' (JInt 0)) \<and> pos_int (dget kvs ''num_tasks'' (JInt 0))
       \<and> pos_float (dget kvs ''stop_time'' (JFloat (Fin 0)))
       \<and> py_lower (py_str rp (dget kvs ''topology'' (JStr []))) \<in> set valid_topologies
       \<and> (py_lower (py_str rp (dget kvs ''topology'' (JStr []))) = ''mq'' \<longrightarrow>
            py_lower (py_str rp (dget kvs ''balancer'' (JStr []))) \<in> set valid_balancers)
       \<and> (case map_of kvs ''scheduler'' of None \<Rightarrow> True
            | Some s \<Rightarrow> resolve_scheduler reg (py_str rp s) \<noteq> None)
   | _ \<Rightarrow> False)"

text \<open>The conditions of the stricter validator on one run.\<close>

definition strict_run_ok :: "(json \<Rightarrow> string) \<Rightarrow> registry \<Rightarrow> json \<Rightarrow> bool" where
  "strict_run_ok rp reg run = (case run of
     JObj kvs \<Rightarrow>
       list_all (\<lambda>k. map_of kvs k \<noteq> None) run_keys
       \<and> resolve_workload reg (py_str rp (dget kvs ''workload'' JNull)) \<noteq> None
       \<and> pos_int (dget kvs ''cores'' JNull) \<and> pos_int (dget kvs ''num_tasks'' JNull)
       \<and> pos_float (dget kvs ''stop_time'' JNull)
       \<and> dget kvs ''topology'' JNull \<in> JStr ` set valid_topologies
       \<and> (dget kvs ''topology'' JNull = JStr ''mq'' \<longrightarrow>
            map_of kvs ''balancer'' \<noteq> None
            \<and> dget kvs ''balancer'' JNull \<in> JStr ` set valid_balancers
            \<and> (case map_of kvs ''work_stealing'' of None \<Rightarrow> True | Some ws \<Rightarrow> is_jbool ws))
       \<and> (case map_of kvs ''scheduler'' of None \<Rightarrow> True
            | Some s \<Rightarrow> resolve_scheduler reg (py_str rp s) \<noteq> None)
   | _ \<Rightarrow> False)"

lemma require_pos_int_Inr [simp]: "require_pos_int v f = Inr u \<longleftrightarrow> pos_int v"
  by (auto simp: require_pos_int_def pos_int_def res_simps split: sum.splits)

lemma require_pos_float_Inr [simp]: "require_pos_float v f = Inr u \<longleftrightarrow> pos_float v"
  by (auto simp: require_pos_float_def pos_float_def res_simps split: sum.splits)

lemma require_key_Inr: "require_key v f k = Inr u \<longleftrightarrow> py_contains k v = (Inr True :: bool result)"
  by (auto simp: require_key_def res_simps)

lemma require_key_obj [simp]: "require_key (JObj kvs) f k = Inr u \<longleftrightarrow> map_of kvs k \<noteq> None"
  by (simp add: require_key_Inr map_of_eq_None_iff)

lemma valid_topology_lower: "t \<in> set valid_topologies \<Longrightarrow> py_lower t = t"
  and valid_balancer_lower: "b \<in> set valid_balancers \<Longrightarrow> py_lower b = b"
  by (auto simp: valid_topologies_def valid_balancers_def) code_simp+

lemma check_run_iff: "check_run rp reg eid (i, run) = Inr u \<longleftrightarrow> run_ok rp reg run"
proof (cases run)
  case (JObj kvs)
  show ?thesis
    unfolding JObj check_run_def run_ok_def
    by (simp add: res_simps
        split: option.splits)
qed (simp_all add: check_run_def run_ok_def)

lemma hash_key_str_set:
  "(\<exists>k. hash_key v = (Inr k :: json result) \<and> k \<in> JStr ` A) \<longleftrightarrow> v \<in> JStr ` A"
  by auto

lemma in_str_set_Inr_True [simp]: "in_str_set v ss = (Inr True :: bool result) \<longleftrightarrow> v \<in> JStr ` set ss"
  by (auto simp: in_str_set_True)

lemma mq_valid [simp]: "''mq'' \<in> set valid_topologies"
  by (simp add: valid_topologies_def)

lemma validate_run_iff: "validate_run rp reg eid (i, run) = Inr u \<longleftrightarrow> strict_run_ok rp reg run"
proof (cases run)
  case (JObj kvs)
  show ?thesis
    unfolding JObj validate_run_def strict_run_ok_def
    by (simp add: run_keys_def res_simps case_dget del: not_None_eq) blast
qed (auto simp: validate_run_def strict_run_ok_def run_keys_def res_simps require_key_Inr)

lemma strict_run_ok_run_ok: "strict_run_ok rp reg run \<Longrightarrow> run_ok rp reg run"
  by (auto simp: strict_run_ok_def run_ok_def run_keys_def dget_def valid_topology_lower
      valid_balancer_lower split: json.splits option.splits)

section \<open>What an accepted suite looks like\<close>

definition obj_field :: "json \<Rightarrow> string \<Rightarrow> json" where
  "obj_field v k = (case v of JObj kvs \<Rightarrow> dget kvs k JNull | _ \<Rightarrow> JNull)"

definition suite_experiments :: "json \<Rightarrow> json list" where
  "suite_experiments doc = list_items (obj_field doc ''experiments'')"

definition experiment_runs :: "json \<Rightarrow> json list" where
  "experiment_runs ex =
     (case ex of JObj kvs \<Rightarrow> list_items (dget kvs ''runs'' (JList [])) | _ \<Rightarrow> [])"

definition experiment_ok :: "json \<Rightarrow> bool" where
  "experiment_ok ex = (case ex of
     JObj kvs \<Rightarrow> map_of kvs ''id'' \<noteq> None \<and> is_jlist (dget kvs ''runs'' (JList [])) | _ \<Rightarrow> False)"

definition defaults_ok :: "(json \<Rightarrow> string) \<Rightarrow> registry \<Rightarrow> json \<Rightarrow> bool" where
  "defaults_ok rp reg d = (case d of
     JObj kvs \<Rightarrow> list_all (\<lambda>k. map_of kvs k \<noteq> None) default_keys
       \<and> pos_int (dget kvs ''replications'' JNull) \<and> pos_int (dget kvs ''seed_base'' JNull)
       \<and> dget kvs ''topology'' JNull \<in> JStr ` set valid_topologies
       \<and> resolve_scheduler reg (py_str rp (dget kvs ''scheduler'' JNull)) \<noteq> None
   | _ \<Rightarrow> False)"

text \<open>The part of the head checks that both validators make.\<close>

definition head_ok :: "(json \<Rightarrow> string) \<Rightarrow> registry \<Rightarrow> json \<Rightarrow> bool" where
  "head_ok rp reg doc = (case doc of
     JObj kvs \<Rightarrow> list_all (\<lambda>k. map_of kvs k \<noteq> None) suite_keys
       \<and> dget kvs ''schema_version'' JNull = JStr ''suite.v1''
       \<and> is_jlist (dget kvs ''experiments'' JNull)
       \<and> defaults_ok rp reg (dget kvs ''defaults'' JNull)
   | _ \<Rightarrow> False)"

lemma experiment_runs_obj [simp]:
  "experiment_runs (JObj kvs) = list_items (dget kvs ''runs'' (JList []))"
  by (simp add: experiment_runs_def)

lemma for_each_enumerate:
  assumes "\<And>i x. f (i, x) = Inr () \<longleftrightarrow> P x"
  shows "for_each f (enumerate n xs) = Inr u \<longleftrightarrow> (\<forall>x\<in>set xs. P x)"
  by (induction xs arbitrary: n) (simp_all add: res_simps assms)

lemma suite_head_iff: "suite_head rp reg doc = Inr u \<longleftrightarrow> head_ok rp reg doc"
proof (cases doc)
  case (JObj kvs)
  let ?d = "dget kvs ''defaults'' JNull"
  show ?thesis
  proof (cases ?d)
    case d: (JObj dkvs)
    show ?thesis
      unfolding JObj suite_head_def head_ok_def
      by (simp add: d suite_keys_def default_keys_def res_simps
          defaults_ok_def del: not_None_eq) blast
  qed (simp_all add: JObj suite_head_def head_ok_def res_simps
      defaults_ok_def)
qed (auto simp: suite_head_def head_ok_def suite_keys_def res_simps require_key_Inr)

lemma validate_defaults_iff: "validate_defaults rp reg d = Inr u \<longleftrightarrow> defaults_ok rp reg d"
proof (cases d)
  case (JObj kvs)
  show ?thesis
    unfolding JObj validate_defaults_def defaults_ok_def
    by (simp add: default_keys_def res_simps del: not_None_eq) blast
qed (auto simp: validate_defaults_def defaults_ok_def default_keys_def res_simps require_key_Inr)

lemma check_experiment_iff:
  "check_experiment rp reg ex = Inr u \<longleftrightarrow>
     (\<exists>s. exp_id_text rp ex = Inr s \<and> s \<noteq> [])
     \<and> (\<exists>kvs. ex = JObj kvs \<and> is_jlist (dget kvs ''runs'' (JList [])))
     \<and> (\<forall>run\<in>set (experiment_runs ex). run_ok rp reg run)"
proof (cases ex)
  case (JObj kvs)
  have runs: "for_each (check_run rp reg e) (enumerate 0 xs) = Inr u' \<longleftrightarrow> (\<forall>x\<in>set xs. run_ok rp reg x)"
    for e xs u' by (rule for_each_enumerate) (simp add: check_run_iff)
  show ?thesis
    unfolding JObj check_experiment_def
    by (auto simp: res_simps runs)
qed (simp_all add: check_experiment_def exp_id_text_def)

text \<open>The runner accepts a suite exactly when these conditions hold.\<close>

lemma validate_suite_iff:
  "validate_suite rp reg doc = Inr u \<longleftrightarrow>
     head_ok rp reg doc \<and>
     (\<exists>ids. map_res (exp_id_text rp) (suite_experiments doc) = Inr ids
        \<and> (\<forall>ex\<in>set (suite_experiments doc). check_reuse ids ex = Inr ()))
     \<and> (\<forall>ex\<in>set (suite_experiments doc). check_experiment rp reg ex = Inr ())"
proof (cases doc)
  case (JObj kvs)
  show ?thesis
    unfolding JObj validate_suite_def suite_experiments_def obj_field_def
    by (auto simp: res_simps suite_head_iff head_ok_def suite_keys_def for_each_Inr)
qed (auto simp: validate_suite_def suite_head_iff head_ok_def res_simps)

text \<open>The loop of the stricter validator: distinct ids, and every run satisfies its conditions.\<close>

lemma validate_experiment_iff:
  "validate_experiment rp reg ex seen = Inr seen' \<longleftrightarrow>
     (\<exists>kvs h. ex = JObj kvs \<and> list_all (\<lambda>k. map_of kvs k \<noteq> None) experiment_keys
        \<and> hash_key (dget kvs ''id'' JNull) = (Inr h :: json result) \<and> h \<notin> set seen
        \<and> is_jlist (dget kvs ''runs'' JNull)
        \<and> (\<forall>run\<in>set (experiment_runs ex). strict_run_ok rp reg run) \<and> seen' = h # seen)"
proof (cases ex)
  case (JObj kvs)
  have runs: "for_each (validate_run rp reg e) (enumerate 0 xs) = Inr u'
      \<longleftrightarrow> (\<forall>x\<in>set xs. strict_run_ok rp reg x)"
    for e xs u' by (rule for_each_enumerate) (simp add: validate_run_iff)
  have runs_dget: "dget kvs ''runs'' JNull = dget kvs ''runs'' (JList [])"
    if "map_of kvs ''runs'' \<noteq> None" using that by (auto simp: dget_def)
  show ?thesis
    unfolding JObj validate_experiment_def
    by (auto simp: experiment_keys_def res_simps runs runs_dget)
qed (auto simp: validate_experiment_def experiment_keys_def res_simps require_key_Inr)

section \<open>The contract of a validator\<close>

text \<open>
  What the planner needs from a validator, whichever of the two has been run: an accepted
  document has a list of experiments, each with an id and a list of runs, every run satisfies
  the conditions of the runner, and the defaults are usable.
\<close>

locale suite_validator =
  fixes accepts :: "(json \<Rightarrow> string) \<Rightarrow> registry \<Rightarrow> json \<Rightarrow> bool"
  assumes accepts_head: "accepts rp reg doc \<Longrightarrow> head_ok rp reg doc"
    and accepts_experiment:
      "accepts rp reg doc \<Longrightarrow> ex \<in> set (suite_experiments doc) \<Longrightarrow> experiment_ok ex"
    and accepts_run:
      "accepts rp reg doc \<Longrightarrow> ex \<in> set (suite_experiments doc) \<Longrightarrow> run \<in> set (experiment_runs ex)
       \<Longrightarrow> run_ok rp reg run"
begin

lemma accepts_obj:
  "accepts rp reg doc \<Longrightarrow> \<exists>kvs. doc = JObj kvs \<and> map_of kvs ''experiments'' \<noteq> None"
  by (drule accepts_head) (auto simp: head_ok_def suite_keys_def split: json.splits)

end

definition runner_accepts :: "(json \<Rightarrow> string) \<Rightarrow> registry \<Rightarrow> json \<Rightarrow> bool" where
  "runner_accepts rp reg doc \<longleftrightarrow> validate_suite rp reg doc = Inr ()"

definition spec_accepts :: "(json \<Rightarrow> string) \<Rightarrow> registry \<Rightarrow> json \<Rightarrow> bool" where
  "spec_accepts rp reg doc \<longleftrightarrow> validate_spec rp reg doc = Inr ()"

lemma exp_id_text_present:
  assumes "exp_id_text rp ex = Inr s" and "s \<noteq> []" and "ex = JObj kvs"
  shows "map_of kvs ''id'' \<noteq> None"
  using assms by (auto simp: exp_id_text_def dget_def split: option.splits)

interpretation runner_check: suite_validator runner_accepts
proof unfold_locales
  fix rp reg doc ex run
  assume acc: "runner_accepts rp reg doc"
  then have "head_ok rp reg doc"
    and exps: "\<forall>ex\<in>set (suite_experiments doc). check_experiment rp reg ex = Inr ()"
    by (simp_all add: runner_accepts_def validate_suite_iff)
  then show "head_ok rp reg doc" by simp
  assume ex: "ex \<in> set (suite_experiments doc)"
  with exps have "check_experiment rp reg ex = Inr ()" by blast
  then obtain s kvs where s: "exp_id_text rp ex = Inr s" "s \<noteq> []"
    and kvs: "ex = JObj kvs" "is_jlist (dget kvs ''runs'' (JList []))"
    and runs: "\<forall>run\<in>set (experiment_runs ex). run_ok rp reg run"
    by (auto simp: check_experiment_iff)
  show "experiment_ok ex"
    using exp_id_text_present [OF s kvs(1)] kvs by (simp add: experiment_ok_def)
  assume "run \<in> set (experiment_runs ex)"
  with runs show "run_ok rp reg run" by blast
qed

text \<open>The loop over the experiments collects the canonical ids and checks every experiment.\<close>

definition spec_experiment_ok :: "(json \<Rightarrow> string) \<Rightarrow> registry \<Rightarrow> json \<Rightarrow> bool" where
  "spec_experiment_ok rp reg ex \<longleftrightarrow> (case ex of
     JObj kvs \<Rightarrow> list_all (\<lambda>k. map_of kvs k \<noteq> None) experiment_keys
       \<and> is_jlist (dget kvs ''runs'' JNull) | _ \<Rightarrow> False)
     \<and> list_all (strict_run_ok rp reg) (experiment_runs ex)"

lemma validate_experimentD:
  assumes "validate_experiment rp reg ex seen = Inr seen'"
  shows "\<exists>h. seen' = h # seen \<and> h \<notin> set seen
      \<and> hash_key (obj_field ex ''id'') = (Inr h :: json result) \<and> spec_experiment_ok rp reg ex"
  using assms by (auto simp: validate_experiment_iff spec_experiment_ok_def obj_field_def list_all_iff)

lemma validate_experiments_fold:
  assumes "fold_res (validate_experiment rp reg) exps seen = Inr seen'"
  shows "\<exists>hs. list_all2 (\<lambda>ex h. hash_key (obj_field ex ''id'') = (Inr h :: json result)) exps hs
      \<and> seen' = rev hs @ seen \<and> (\<forall>ex\<in>set exps. spec_experiment_ok rp reg ex)
      \<and> (distinct seen \<longrightarrow> distinct seen')"
  using assms
proof (induction exps arbitrary: seen)
  case (Cons x xs)
  then obtain s1 where s1: "validate_experiment rp reg x seen = Inr s1"
    and rest: "fold_res (validate_experiment rp reg) xs s1 = Inr seen'"
    by (auto simp: res_simps)
  from validate_experimentD [OF s1] obtain h where h: "s1 = h # seen" "h \<notin> set seen"
    "hash_key (obj_field x ''id'') = (Inr h :: json result)" "spec_experiment_ok rp reg x" by blast
  from Cons.IH [OF rest] obtain hs
    where "list_all2 (\<lambda>ex h. hash_key (obj_field ex ''id'') = (Inr h :: json result)) xs hs"
      "seen' = rev hs @ s1" "\<forall>ex\<in>set xs. spec_experiment_ok rp reg ex"
      "distinct s1 \<longrightarrow> distinct seen'" by blast
  with h show ?case by (intro exI [of _ "h # hs"]) simp
qed simp

text \<open>What the stricter validator guarantees.\<close>

lemma spec_acceptsD:
  assumes "spec_accepts rp reg doc"
  shows "head_ok rp reg doc"
    and "ex \<in> set (suite_experiments doc) \<Longrightarrow> spec_experiment_ok rp reg ex"
    and "\<exists>hs. list_all2 (\<lambda>ex h. hash_key (obj_field ex ''id'') = (Inr h :: json result))
            (suite_experiments doc) hs \<and> distinct hs
          \<and> (\<forall>ex\<in>set (suite_experiments doc). validate_reuse (rev hs) ex = Inr ())"
proof -
  from assms obtain kvs where doc: "doc = JObj kvs" and top: "validate_top_level doc = Inr ()"
    by (cases doc) (auto simp: spec_accepts_def validate_spec_def res_simps validate_top_level_def
        suite_keys_def require_key_Inr)
  from assms doc have def_ok: "defaults_ok rp reg (dget kvs ''defaults'' JNull)"
    and exps: "validate_experiments rp reg (suite_experiments doc) = Inr ()"
    by (auto simp: spec_accepts_def validate_spec_def res_simps validate_defaults_iff
        suite_experiments_def obj_field_def)
  from top def_ok show "head_ok rp reg doc"
    by (auto simp: doc validate_top_level_def head_ok_def suite_keys_def res_simps)
  from exps obtain seen
    where fold: "fold_res (validate_experiment rp reg) (suite_experiments doc) [] = Inr seen"
      and reuse: "\<forall>ex\<in>set (suite_experiments doc). validate_reuse seen ex = Inr ()"
    by (auto simp: validate_experiments_def res_simps for_each_Inr)
  from validate_experiments_fold [OF fold] obtain hs
    where hs: "list_all2 (\<lambda>ex h. hash_key (obj_field ex ''id'') = (Inr h :: json result))
        (suite_experiments doc) hs" "seen = rev hs" "distinct hs"
      "\<forall>ex\<in>set (suite_experiments doc). spec_experiment_ok rp reg ex" by auto
  then show "ex \<in> set (suite_experiments doc) \<Longrightarrow> spec_experiment_ok rp reg ex" by blast
  from hs reuse show "\<exists>hs. list_all2 (\<lambda>ex h. hash_key (obj_field ex ''id'') = (Inr h :: json result))
            (suite_experiments doc) hs \<and> distinct hs
          \<and> (\<forall>ex\<in>set (suite_experiments doc). validate_reuse (rev hs) ex = Inr ())" by blast
qed

lemma spec_experiment_ok_runs:
  assumes "spec_experiment_ok rp reg ex"
  shows "experiment_ok ex" and "run \<in> set (experiment_runs ex) \<Longrightarrow> strict_run_ok rp reg run"
  using assms
  by (auto simp: spec_experiment_ok_def experiment_ok_def experiment_keys_def list_all_iff
      split: json.splits)

interpretation spec_check: suite_validator spec_accepts
  by unfold_locales
     (auto dest: spec_acceptsD intro: spec_experiment_ok_runs strict_run_ok_run_ok)

section \<open>The two validators compared\<close>

definition id_text :: "json \<Rightarrow> string" where
  "id_text ex = (case obj_field ex ''id'' of JStr s \<Rightarrow> s | _ \<Rightarrow> [])"

text \<open>An id that is a string without surrounding blanks, and not empty.\<close>

definition clean_id :: "json \<Rightarrow> bool" where
  "clean_id ex \<longleftrightarrow> obj_field ex ''id'' = JStr (id_text ex)
     \<and> id_text ex \<noteq> [] \<and> py_strip (id_text ex) = id_text ex"

lemma clean_id_text:
  assumes "experiment_ok ex" and "clean_id ex"
  shows "exp_id_text rp ex = Inr (id_text ex)"
proof -
  from assms(1) obtain kvs v where "ex = JObj kvs" "map_of kvs ''id'' = Some v"
    by (auto simp: experiment_ok_def split: json.splits)
  with assms(2) show ?thesis
    by (simp add: exp_id_text_def clean_id_def obj_field_def)
qed

lemma validate_reuse_check_reuse:
  assumes "validate_reuse seen ex = Inr ()" and "set seen \<subseteq> JStr ` set ids"
  shows "check_reuse ids ex = Inr ()"
proof -
  from assms(1) obtain kvs where ex: "ex = JObj kvs"
    by (auto simp: validate_reuse_def res_simps py_get_Inr)
  with assms show ?thesis
    by (auto simp: validate_reuse_def check_reuse_def res_simps in_str_set_def split: if_splits)
qed

text \<open>
  C22. The documented workflow (validate the spec, then run it) is safe for suites with clean
  experiment ids: whatever the stricter validator accepts, the runner accepts too.
\<close>

theorem spec_accepts_runner_accepts:
  assumes spec: "spec_accepts rp reg doc"
    and clean: "\<forall>ex\<in>set (suite_experiments doc). clean_id ex"
  shows "runner_accepts rp reg doc"
proof -
  let ?exps = "suite_experiments doc" and ?ids = "map id_text (suite_experiments doc)"
  have ok: "experiment_ok ex" "\<forall>run\<in>set (experiment_runs ex). run_ok rp reg run"
    if "ex \<in> set ?exps" for ex
    using that spec spec_check.accepts_experiment spec_check.accepts_run by blast+
  have idt: "exp_id_text rp ex = Inr (id_text ex)" if "ex \<in> set ?exps" for ex
    using that ok(1) clean clean_id_text by blast
  from spec_acceptsD(3) [OF spec] obtain hs
    where hs: "list_all2 (\<lambda>ex h. hash_key (obj_field ex ''id'') = (Inr h :: json result)) ?exps hs"
      and reuse: "\<forall>ex\<in>set ?exps. validate_reuse (rev hs) ex = Inr ()" by blast
  have "set hs \<subseteq> JStr ` set ?ids"
  proof
    fix h assume "h \<in> set hs"
    then obtain ex where ex: "ex \<in> set ?exps" "hash_key (obj_field ex ''id'') = (Inr h :: json result)"
      using list_all2_set2 [OF hs] by blast
    then have "h = JStr (id_text ex)" using clean by (auto simp: clean_id_def)
    with ex(1) show "h \<in> JStr ` set ?ids" by simp
  qed
  then have "check_reuse ?ids ex = Inr ()" if "ex \<in> set ?exps" for ex
    using that reuse validate_reuse_check_reuse [of "rev hs" ex ?ids] by simp
  moreover have "check_experiment rp reg ex = Inr ()" if "ex \<in> set ?exps" for ex
    using ok [OF that] idt [OF that] clean that
    by (auto simp: check_experiment_iff clean_id_def experiment_ok_def split: json.splits)
  moreover have "map_res (exp_id_text rp) ?exps = Inr ?ids"
    by (rule map_res_total) (simp add: idt)
  ultimately show ?thesis
    using spec_acceptsD(1) [OF spec] by (simp add: runner_accepts_def validate_suite_iff)
qed

text \<open>A suite with one experiment, for examples.\<close>

definition sample_run :: "string \<Rightarrow> (string \<times> json) list \<Rightarrow> json" where
  "sample_run topo extra = JObj ([(''workload'', JStr ''desktop''), (''cores'', JInt 4),
     (''num_tasks'', JInt 100), (''stop_time'', JInt 500), (''topology'', JStr topo)] @ extra)"

definition sample_experiment :: "string \<Rightarrow> (string \<times> json) list \<Rightarrow> json list \<Rightarrow> json" where
  "sample_experiment eid extra runs = JObj ([(''id'', JStr eid), (''title'', JStr ''t''),
     (''objective'', JStr ''o''), (''runs'', JList runs)] @ extra)"

definition sample_suite :: "json list \<Rightarrow> json" where
  "sample_suite exps = JObj [(''schema_version'', JStr ''suite.v1''),
     (''benchmark_version'', JStr ''v1''), (''suite_id'', JStr ''demo''), (''title'', JStr ''t''),
     (''description'', JStr ''d''),
     (''defaults'', JObj [(''scheduler'', JStr ''all''), (''replications'', JInt 1),
        (''topology'', JStr ''sq''), (''seed_base'', JInt 7)]),
     (''experiments'', JList exps)]"

definition sample_two :: json where
  "sample_two = sample_suite [sample_experiment ''exp1'' [] [sample_run ''sq'' []],
     sample_experiment ''exp2'' [(''reuse_from_experiment'', JStr ''exp1'')] []]"

theorem spec_accepts_runner_accepts_witness:
  "runner_accepts (\<lambda>_. []) builtin_registry sample_two"
proof -
  have "spec_accepts (\<lambda>_. []) builtin_registry sample_two" by code_simp
  moreover have "\<forall>ex\<in>set (suite_experiments sample_two). clean_id ex" by code_simp
  ultimately show ?thesis by (rule spec_accepts_runner_accepts)
qed

text \<open>
  Without clean ids the two validators disagree: a suite whose only experiment has the id
  of length zero passes the stricter validator, and the runner then refuses it.
\<close>

theorem blank_id_only_runner_rejects:
  "spec_accepts rp builtin_registry (sample_suite [sample_experiment [] [] [sample_run ''sq'' []]])
   \<and> validate_suite rp builtin_registry (sample_suite [sample_experiment [] [] [sample_run ''sq'' []]])
     = Inl (Fail EmptyExperimentId)"
  by code_simp

text \<open>
  The stricter validator keeps experiment ids apart: in an accepted suite no two
  experiments have ids that Python treats as equal.
\<close>

theorem spec_accepts_distinct_ids:
  assumes "spec_accepts rp reg doc"
    and "i < length (suite_experiments doc)" and "j < i"
  shows "hash_key (obj_field (suite_experiments doc ! i) ''id'')
    \<noteq> (hash_key (obj_field (suite_experiments doc ! j) ''id'') :: json result)"
proof -
  from spec_acceptsD(3) [OF assms(1)] obtain hs
    where hs: "list_all2 (\<lambda>ex h. hash_key (obj_field ex ''id'') = (Inr h :: json result))
        (suite_experiments doc) hs" and d: "distinct hs" by blast
  from hs have len: "length hs = length (suite_experiments doc)"
    and nth: "\<And>k. k < length hs \<Longrightarrow>
      hash_key (obj_field (suite_experiments doc ! k) ''id'') = (Inr (hs ! k) :: json result)"
    by (auto simp: list_all2_conv_all_nth)
  from d len assms(2,3) have "hs ! i \<noteq> hs ! j"
    by (simp add: nth_eq_iff_index_eq)
  with nth [of i] nth [of j] len assms(2,3) show ?thesis by simp
qed

theorem spec_accepts_distinct_ids_witness:
  "hash_key (obj_field (suite_experiments sample_two ! 1) ''id'')
    \<noteq> (hash_key (obj_field (suite_experiments sample_two ! 0) ''id'') :: json result)"
proof -
  have "spec_accepts (\<lambda>_. []) builtin_registry sample_two" by code_simp
  moreover have "1 < length (suite_experiments sample_two)" by code_simp
  ultimately show ?thesis by (rule spec_accepts_distinct_ids) simp
qed

end
