(* ===== verification/SpecMain.thy ===== *)
theory SpecMain
  imports PluginLoader SuiteSpec
begin

text \<open>
  \<open>main\<close> and \<open>load_json\<close> of \<open>scripts/validate_benchmark_spec.py\<close>: the suite file is looked
  for, the registry is built with the plugins of the command line, the suite is read and
  validated, and a report is printed.

  What the file holds is an input: \<open>None\<close> is a missing file, \<open>Some None\<close> one that is no JSON.
\<close>

datatype spec_error = SuiteMissing | PluginsFailed load_error | InvalidJson | Rejected "fault exn"

record spec_report =
  vr_schema_version :: json
  vr_benchmark_version :: json
  vr_suite_id :: json
  vr_experiments :: nat
  vr_runs :: nat
  vr_schedulers :: nat
  vr_workloads :: nat
  vr_loaded :: nat

type_synonym 'a spec_result = "(spec_error, 'a) res"

definition rejected :: "'a result \<Rightarrow> 'a spec_result" where
  "rejected r = (case r of Inl e \<Rightarrow> Inl (Rejected e) | Inr v \<Rightarrow> Inr v)"

text \<open>\<open>load_json\<close>: a decoding error becomes a failure of the validation.\<close>

definition load_json :: "json option \<Rightarrow> json spec_result" where
  "load_json parsed = (case parsed of None \<Rightarrow> Inl InvalidJson | Some doc \<Rightarrow> Inr doc)"

text \<open>\<open>len(v)\<close>\<close>

fun py_len :: "json \<Rightarrow> nat result" where
  "py_len (JList xs) = Inr (length xs)"
| "py_len (JObj kvs) = Inr (length kvs)"
| "py_len (JStr s) = Inr (length s)"
| "py_len _ = Inl TypeErr"

text \<open>\<open>sum(len(exp["runs"]) for exp in doc["experiments"])\<close>\<close>

definition count_runs :: "json list \<Rightarrow> nat result" where
  "count_runs exps =
     bind_res (map_res (\<lambda>ex. bind_res (py_getitem ex ''runs'') py_len) exps) (\<lambda>ns. Inr (sum_list ns))"

definition spec_report_of :: "registry \<Rightarrow> string list \<Rightarrow> json \<Rightarrow> spec_report result" where
  "spec_report_of reg loaded doc =
     bind_res (bind_res (py_getitem doc ''experiments'') py_len) (\<lambda>n.
     bind_res (bind_res (bind_res (py_getitem doc ''experiments'') py_iter) count_runs) (\<lambda>runs.
     bind_res (py_getitem doc ''schema_version'') (\<lambda>sv.
     bind_res (py_getitem doc ''benchmark_version'') (\<lambda>bv.
     bind_res (py_getitem doc ''suite_id'') (\<lambda>sid.
     Inr \<lparr>vr_schema_version = sv, vr_benchmark_version = bv, vr_suite_id = sid,
          vr_experiments = n, vr_runs = runs, vr_schedulers = length (scheduler_keys reg),
          vr_workloads = length (workload_keys reg), vr_loaded = length loaded\<rparr>)))))"

definition spec_main ::
  "(json \<Rightarrow> string) \<Rightarrow> string \<Rightarrow> file_system \<Rightarrow> (string \<Rightarrow> plugin_module) \<Rightarrow> string \<Rightarrow> json option option
    \<Rightarrow> spec_report spec_result"
where
  "spec_main rp base fs modules plugins suite_path = (case suite_path of
      None \<Rightarrow> Inl SuiteMissing
    | Some parsed \<Rightarrow> (case build_plugin_registry base fs modules plugins of
          Inl e \<Rightarrow> Inl (PluginsFailed e)
        | Inr (reg, loaded) \<Rightarrow>
            bind_res (load_json parsed) (\<lambda>doc.
            bind_res (rejected (validate_spec rp reg doc)) (\<lambda>_.
            rejected (spec_report_of reg loaded doc)))))"

text \<open>
  The exit code: 0 after a report, and 1 after any exception, whether it is caught at the end of
  the script, is a \<open>SystemExit\<close> with a message, or ends the interpreter.
\<close>

definition spec_exit_code :: "spec_report spec_result \<Rightarrow> int" where
  "spec_exit_code r = (case r of Inr _ \<Rightarrow> 0 | Inl _ \<Rightarrow> 1)"


section \<open>The report of an accepted suite\<close>

lemma py_len_jlist: "is_jlist v \<Longrightarrow> py_len v = Inr (length (list_items v))"
  by (cases v) (simp_all add: is_jlist_def list_items_def)

lemma count_runs_ok:
  assumes "\<forall>ex\<in>set exps. spec_experiment_ok rp reg ex"
  shows "count_runs exps = Inr (sum_list (map (\<lambda>ex. length (experiment_runs ex)) exps))"
proof -
  have "bind_res (py_getitem ex ''runs'') py_len = Inr (length (experiment_runs ex))" if "ex \<in> set exps" for ex
  proof -
    from assms that have ok: "spec_experiment_ok rp reg ex" by blast
    then obtain kvs where kvs: "ex = JObj kvs" by (auto simp: spec_experiment_ok_def split: json.splits)
    with ok have "map_of kvs ''runs'' \<noteq> None" "is_jlist (dget kvs ''runs'' JNull)"
      by (simp_all add: spec_experiment_ok_def experiment_keys_def)
    then obtain runs where ex: "ex = JObj kvs" "map_of kvs ''runs'' = Some runs" "is_jlist runs"
      using kvs by (cases "map_of kvs ''runs''") simp_all
    then have "experiment_runs ex = list_items runs" by (simp add: experiment_runs_def obj_field_def)
    moreover have "(py_getitem ex ''runs'' :: json result) = Inr runs" using ex by simp
    ultimately show ?thesis using ex(3) by (simp add: py_len_jlist)
  qed
  then have "map_res (\<lambda>ex. bind_res (py_getitem ex ''runs'') py_len) exps
      = Inr (map (\<lambda>ex. length (experiment_runs ex)) exps)" by (rule map_res_total)
  then show ?thesis by (simp add: count_runs_def)
qed

lemma accepted_report:
  assumes "validate_spec rp reg doc = Inr ()"
  shows "\<exists>report. spec_report_of reg loaded doc = Inr report
    \<and> vr_experiments report = length (suite_experiments doc)
    \<and> vr_runs report = sum_list (map (\<lambda>ex. length (experiment_runs ex)) (suite_experiments doc))
    \<and> vr_schedulers report = length (scheduler_keys reg)
    \<and> vr_workloads report = length (workload_keys reg) \<and> vr_loaded report = length loaded"
proof -
  from assms have acc: "spec_accepts rp reg doc" by (simp add: spec_accepts_def)
  from assms have top: "validate_top_level doc = Inr ()" by (auto simp: validate_spec_def bind_res_Inr)
  then obtain kvs where doc: "doc = JObj kvs"
    by (cases doc) (auto simp: res_simps validate_top_level_def suite_keys_def require_key_Inr)
  with top obtain v sv bv sid where v: "map_of kvs ''experiments'' = Some v" "map_of kvs ''schema_version'' = Some sv"
      "map_of kvs ''benchmark_version'' = Some bv" "map_of kvs ''suite_id'' = Some sid" "is_jlist v"
    by (auto simp: validate_top_level_def suite_keys_def res_simps)
  then have items: "suite_experiments doc = list_items v" by (simp add: doc suite_experiments_def obj_field_def)
  have get: "(py_getitem doc ''experiments'' :: json result) = Inr v" "(py_getitem doc ''schema_version'' :: json result) = Inr sv"
    "(py_getitem doc ''benchmark_version'' :: json result) = Inr bv" "(py_getitem doc ''suite_id'' :: json result) = Inr sid"
    using v by (simp_all add: doc)
  have iter: "(py_iter v :: json list result) = Inr (list_items v)" "py_len v = Inr (length (list_items v))"
    using v(5) by (cases v; simp add: is_jlist_def list_items_def)+
  have "\<forall>ex\<in>set (list_items v). spec_experiment_ok rp reg ex" using spec_acceptsD(2) [OF acc] items by simp
  from count_runs_ok [OF this] show ?thesis
    unfolding spec_report_of_def get iter bind_res_simps items by simp
qed

text \<open>
  C23. The validator exits with 0 exactly if the file is there and is JSON, the plugins load and
  the suite is accepted with the registry they give; the report then counts the experiments, their
  explicit runs and the plugins. After the validation nothing can fail any more.
\<close>

theorem spec_main_exit:
  "(spec_exit_code (spec_main rp base fs modules plugins suite_path) = 0 \<longleftrightarrow>
     (\<exists>doc reg loaded. suite_path = Some (Some doc)
       \<and> build_plugin_registry base fs modules plugins = Inr (reg, loaded)
       \<and> validate_spec rp reg doc = Inr ()))
   \<and> (\<forall>doc reg loaded report. suite_path = Some (Some doc)
       \<longrightarrow> build_plugin_registry base fs modules plugins = Inr (reg, loaded)
       \<longrightarrow> spec_main rp base fs modules plugins suite_path = Inr report
       \<longrightarrow> vr_experiments report = length (suite_experiments doc)
         \<and> vr_runs report = sum_list (map (\<lambda>ex. length (experiment_runs ex)) (suite_experiments doc))
         \<and> vr_schedulers report = length (scheduler_keys reg)
         \<and> vr_workloads report = length (workload_keys reg) \<and> vr_loaded report = length loaded)"
proof (intro conjI)
  have exit: "spec_exit_code r = 0 \<longleftrightarrow> (\<exists>report. r = Inr report)" for r
    by (auto simp: spec_exit_code_def split: sum.splits)
  have split: "spec_main rp base fs modules plugins suite_path = Inr report \<longleftrightarrow>
     (\<exists>doc reg loaded. suite_path = Some (Some doc)
       \<and> build_plugin_registry base fs modules plugins = Inr (reg, loaded)
       \<and> validate_spec rp reg doc = Inr () \<and> spec_report_of reg loaded doc = Inr report)" for report
    by (auto simp: spec_main_def load_json_def rejected_def bind_res_Inr split: option.splits sum.splits)
  show "spec_exit_code (spec_main rp base fs modules plugins suite_path) = 0 \<longleftrightarrow>
     (\<exists>doc reg loaded. suite_path = Some (Some doc)
       \<and> build_plugin_registry base fs modules plugins = Inr (reg, loaded)
       \<and> validate_spec rp reg doc = Inr ())"
    unfolding exit split using accepted_report by blast
  show "\<forall>doc reg loaded report. suite_path = Some (Some doc)
       \<longrightarrow> build_plugin_registry base fs modules plugins = Inr (reg, loaded)
       \<longrightarrow> spec_main rp base fs modules plugins suite_path = Inr report
       \<longrightarrow> vr_experiments report = length (suite_experiments doc)
         \<and> vr_runs report = sum_list (map (\<lambda>ex. length (experiment_runs ex)) (suite_experiments doc))
         \<and> vr_schedulers report = length (scheduler_keys reg)
         \<and> vr_workloads report = length (workload_keys reg) \<and> vr_loaded report = length loaded"
  proof (intro allI impI)
    fix doc reg loaded report
    assume *: "suite_path = Some (Some doc)" "build_plugin_registry base fs modules plugins = Inr (reg, loaded)"
      "spec_main rp base fs modules plugins suite_path = Inr report"
    then have "validate_spec rp reg doc = Inr ()" "spec_report_of reg loaded doc = Inr report"
      unfolding split by auto
    with accepted_report [of rp reg doc loaded]
    show "vr_experiments report = length (suite_experiments doc)
         \<and> vr_runs report = sum_list (map (\<lambda>ex. length (experiment_runs ex)) (suite_experiments doc))
         \<and> vr_schedulers report = length (scheduler_keys reg)
         \<and> vr_workloads report = length (workload_keys reg) \<and> vr_loaded report = length loaded" by auto
  qed
qed

theorem spec_main_exit_witness:
  "\<exists>report. spec_main (\<lambda>_. []) ''/r'' sample_fs sample_modules '' /ext/w.py ,'' (Some (Some sample_two)) = Inr report
    \<and> vr_experiments report = 2 \<and> vr_runs report = 1"
proof -
  obtain reg loaded where l: "sample_loaded = (reg, loaded)" by (cases sample_loaded)
  have build: "build_plugin_registry ''/r'' sample_fs sample_modules '' /ext/w.py ,'' = Inr (reg, loaded)"
    using sample_build l by simp
  have "validate_spec (\<lambda>_. []) (fst sample_loaded) sample_two = Inr ()" by code_simp
  then have valid: "validate_spec (\<lambda>_. []) reg sample_two = Inr ()" by (simp add: l)
  note main = spec_main_exit [of "\<lambda>_. []" "''/r''" sample_fs sample_modules "'' /ext/w.py ,''" "Some (Some sample_two)"]
  from main [THEN conjunct1] build valid
  have "spec_exit_code (spec_main (\<lambda>_. []) ''/r'' sample_fs sample_modules '' /ext/w.py ,'' (Some (Some sample_two))) = 0"
    by blast
  then obtain report where report:
    "spec_main (\<lambda>_. []) ''/r'' sample_fs sample_modules '' /ext/w.py ,'' (Some (Some sample_two)) = Inr report"
    by (auto simp: spec_exit_code_def split: sum.splits)
  have "length (suite_experiments sample_two) = 2"
    "sum_list (map (\<lambda>ex. length (experiment_runs ex)) (suite_experiments sample_two)) = 1" by code_simp+
  with main [THEN conjunct2, rule_format, OF refl build report] report show ?thesis by simp
qed

end
