(* ===== verification/RunId.thy ===== *)
theory RunId
  imports PyString
begin

text \<open>
  \<open>sanitize_id\<close> of \<open>benchmark/runner/run_suite.py\<close>: the names of artifact directories.
  The two regular-expression substitutions are scans that replace every maximal run of
  characters of a class by one dash.
\<close>

abbreviation dash :: char where
  "dash \<equiv> CHR ''-''"

text \<open>The class \<open>[A-Za-z0-9_-]\<close>, and the same without the dash.\<close>

definition word_char :: "char \<Rightarrow> bool" where
  "word_char c \<longleftrightarrow> is_ascii_alnum c \<or> c = CHR ''_''"

definition id_char :: "char \<Rightarrow> bool" where
  "id_char c \<longleftrightarrow> word_char c \<or> c = dash"

text \<open>\<open>re.sub("[class]+", "-", s)\<close>; \<open>inside\<close> says that the run has been replaced already.\<close>

fun sub_runs :: "(char \<Rightarrow> bool) \<Rightarrow> bool \<Rightarrow> string \<Rightarrow> string" where
  "sub_runs P inside [] = []"
| "sub_runs P inside (c # cs) =
     (if P c then (if inside then sub_runs P True cs else dash # sub_runs P True cs)
      else c # sub_runs P False cs)"

definition sanitize_id :: "string \<Rightarrow> string" where
  "sanitize_id value =
     (let sanitized = sub_runs (\<lambda>c. \<not> id_char c) False (py_strip value);
          sanitized = sub_runs (\<lambda>c. c = dash) False sanitized;
          sanitized = strip_by (\<lambda>c. c = dash) sanitized
      in if sanitized = [] then ''id'' else sanitized)"


section \<open>The words of an identifier\<close>

text \<open>
  The reference for \<open>sanitize_id\<close>: the maximal runs of word characters, joined by single
  dashes.
\<close>

definition dashed :: "string \<Rightarrow> string" where
  "dashed s = map (\<lambda>c. if word_char c then c else dash) s"

definition id_words :: "string \<Rightarrow> string list" where
  "id_words s = filter (\<lambda>w. w \<noteq> []) (split_on dash (dashed s))"

lemma word_char_not_dash: "word_char c \<Longrightarrow> c \<noteq> dash"
  by (auto simp: word_char_def is_ascii_alnum_def Let_def)

lemma not_word_char_dash [simp]: "\<not> word_char dash"
  using word_char_not_dash by blast

lemma is_space_not_word: "is_space c \<Longrightarrow> \<not> word_char c"
  by (auto simp: word_char_def is_ascii_alnum_def is_space_def Let_def)

text \<open>The two substitutions amount to one, of runs of everything that is no word character.\<close>

lemma sub_runs_twice:
  "(r' \<longrightarrow> r) \<Longrightarrow> sub_runs (\<lambda>c. c = dash) r (sub_runs (\<lambda>c. \<not> id_char c) r' s)
     = sub_runs (\<lambda>c. \<not> word_char c) r s"
proof (induction s arbitrary: r r')
  case (Cons c cs)
  show ?case
  proof (cases "word_char c")
    case True
    with Cons show ?thesis by (auto simp: id_char_def dest: word_char_not_dash)
  next
    case False
    with Cons show ?thesis by (auto simp: id_char_def)
  qed
qed simp

lemma sub_runs_dashed:
  "sub_runs (\<lambda>c. \<not> word_char c) r s = sub_runs (\<lambda>c. c = dash) r (dashed s)"
  by (induction s arbitrary: r) (auto simp: dashed_def dest: word_char_not_dash)

text \<open>Collapsing the dashes of a text, piece by piece.\<close>

lemma sub_runs_free: "dash \<notin> set w \<Longrightarrow> sub_runs (\<lambda>c. c = dash) r (w @ dash # s)
    = (if w = [] then (if r then [] else [dash]) @ sub_runs (\<lambda>c. c = dash) True s
       else w @ dash # sub_runs (\<lambda>c. c = dash) True s)"
  by (induction w arbitrary: r) auto

lemma sub_runs_word: "dash \<notin> set w \<Longrightarrow> sub_runs (\<lambda>c. c = dash) r w = w"
  by (induction w arbitrary: r) auto

lemma sub_runs_join_True:
  assumes "ws \<noteq> []" and "\<And>w. w \<in> set ws \<Longrightarrow> dash \<notin> set w"
  shows "\<exists>t. sub_runs (\<lambda>c. c = dash) True (join [dash] ws)
      = join [dash] (filter (\<lambda>w. w \<noteq> []) ws) @ t
    \<and> (t = [] \<or> t = [dash] \<and> filter (\<lambda>w. w \<noteq> []) ws \<noteq> [])"
  using assms
proof (induction "[dash]" ws rule: join.induct)
  case (2 w)
  then show ?case by (auto simp: sub_runs_word)
next
  case (3 w v ws)
  let ?F = "filter (\<lambda>w. w \<noteq> []) (v # ws)"
  obtain t where t: "sub_runs (\<lambda>c. c = dash) True (join [dash] (v # ws)) = join [dash] ?F @ t"
    "t = [] \<or> t = [dash] \<and> ?F \<noteq> []"
    using 3 by auto
  have w: "dash \<notin> set w" using 3 by simp
  show ?case
  proof (cases "w = []")
    case True
    with t w sub_runs_free [OF w, of True "join [dash] (v # ws)"] show ?thesis by auto
  next
    case False
    show ?thesis
    proof (cases "?F = []")
      case True
      with t False w sub_runs_free [OF w, of True "join [dash] (v # ws)"] show ?thesis by auto
    next
      case F: False
      then obtain f fs where "?F = f # fs" by (cases ?F) auto
      with t False w sub_runs_free [OF w, of True "join [dash] (v # ws)"] show ?thesis by auto
    qed
  qed
qed simp

lemma sub_runs_False:
  "\<exists>l. sub_runs (\<lambda>c. c = dash) False s = l @ sub_runs (\<lambda>c. c = dash) True s \<and> (l = [] \<or> l = [dash])"
  by (cases s) auto

lemma strip_by_around:
  assumes "\<forall>c\<in>set l. P c" and "\<forall>c\<in>set t. P c" and "x = [] \<or> \<not> P (hd x) \<and> \<not> P (last x)"
  shows "strip_by P (l @ x @ t) = x"
proof (cases "x = []")
  case True
  with assms show ?thesis by (simp flip: strip_by_Nil_iff) auto
next
  case False
  with assms(1,3) have "dropWhile P (l @ x @ t) = x @ t"
    by (cases x) auto
  moreover have "dropWhile P (rev t @ rev x) = rev x"
  proof -
    have "dropWhile P (rev t @ rev x) = dropWhile P (rev x)"
      using assms(2) by (intro dropWhile_append2) simp
    with assms(3) False show ?thesis by (simp add: dropWhile_eq_self_iff hd_rev)
  qed
  ultimately show ?thesis by (simp add: strip_by_def)
qed

text \<open>The words joined by dashes begin and end with a word character.\<close>

lemma join_ends:
  assumes "ws \<noteq> []" and "\<And>w. w \<in> set ws \<Longrightarrow> w \<noteq> []"
  shows "hd (join sep ws) = hd (hd ws)" "last (join sep ws) = last (last ws)" "join sep ws \<noteq> []"
  using assms by (induction sep ws rule: join.induct) auto

lemma id_words_chars: "w \<in> set (id_words s) \<Longrightarrow> w \<noteq> [] \<and> (\<forall>c\<in>set w. word_char c)"
proof -
  assume w: "w \<in> set (id_words s)"
  then have "w \<in> set (split_on dash (dashed s))" "w \<noteq> []" by (auto simp: id_words_def)
  with set_split_on [OF this(1)] split_on_no_sep [OF this(1)] show ?thesis
    by (auto simp: dashed_def split: if_splits)
qed

lemma split_on_append_sep: "split_on d (xs @ d # ys) = split_on d xs @ split_on d ys"
  by (induction xs) (auto split: list.splits)

lemma id_words_append:
  "\<not> word_char c \<Longrightarrow> id_words (xs @ c # ys) = id_words xs @ id_words ys"
  by (simp add: id_words_def dashed_def split_on_append_sep)

lemma id_words_Nil [simp]: "id_words [] = []"
  by (simp add: id_words_def dashed_def)

lemma id_words_blank: "\<forall>c\<in>set s. \<not> word_char c \<Longrightarrow> id_words s = []"
  using id_words_append [of _ "[]"] by (induction s) auto

lemma id_words_around:
  assumes "\<forall>c\<in>set l. \<not> word_char c" and "\<forall>c\<in>set t. \<not> word_char c"
  shows "id_words (l @ x @ t) = id_words x"
proof -
  have "id_words (x @ t) = id_words x"
    using assms(2) id_words_append by (cases t) (simp_all add: id_words_blank)
  with assms(1) show ?thesis
    using id_words_append [of _ "[]"] by (induction l) auto
qed

lemma id_words_strip: "id_words (py_strip s) = id_words s"
proof -
  let ?d = "dropWhile is_space s"
  have s: "s = takeWhile is_space s @ py_strip s @ rev (takeWhile is_space (rev ?d))"
    by (metis py_strip_def rev_append rev_rev_ident strip_by_def takeWhile_dropWhile_id)
  have "\<forall>c\<in>set (takeWhile is_space s). \<not> word_char c"
    "\<forall>c\<in>set (rev (takeWhile is_space (rev ?d))). \<not> word_char c"
    using is_space_not_word by (auto dest: set_takeWhileD)
  from id_words_around [OF this] s show ?thesis by metis
qed

lemma join_words_Nil: "join [dash] (id_words v) = [] \<longleftrightarrow> id_words v = []"
proof
  assume *: "join [dash] (id_words v) = []"
  show "id_words v = []"
  proof (rule ccontr)
    assume ne: "id_words v \<noteq> []"
    have "\<And>w. w \<in> set (id_words v) \<Longrightarrow> w \<noteq> []" using id_words_chars by blast
    with ne join_ends(3) [of "id_words v" "[dash]"] * show False by blast
  qed
qed simp

text \<open>\<open>sanitize_id\<close> computes exactly that.\<close>

lemma sanitize_id_words:
  "sanitize_id v = (if id_words v = [] then ''id'' else join [dash] (id_words v))"
proof -
  let ?v = "py_strip v" and ?Q = "\<lambda>c. c = dash"
  let ?J = "join [dash] (id_words v)"
  have "sub_runs ?Q False (sub_runs (\<lambda>c. \<not> id_char c) False ?v) = sub_runs ?Q False (dashed ?v)"
    by (simp add: sub_runs_twice sub_runs_dashed)
  moreover obtain l where "sub_runs ?Q False (dashed ?v) = l @ sub_runs ?Q True (dashed ?v)"
    "l = [] \<or> l = [dash]"
    using sub_runs_False by blast
  moreover obtain t where "sub_runs ?Q True (dashed ?v) = ?J @ t" "t = [] \<or> t = [dash]"
    using sub_runs_join_True [of "split_on dash (dashed ?v)"]
    by (auto simp: join_split_on split_on_no_sep id_words_strip simp flip: id_words_def)
  moreover have "?J = [] \<or> hd ?J \<noteq> dash \<and> last ?J \<noteq> dash"
  proof (cases "id_words v = []")
    case False
    then have "hd (id_words v) \<in> set (id_words v)" "last (id_words v) \<in> set (id_words v)" by simp_all
    then have "word_char (hd (hd (id_words v)))" "word_char (last (last (id_words v)))"
      using id_words_chars by (metis hd_in_set, metis last_in_set)
    with False show ?thesis
      using join_ends [of "id_words v" "[dash]"] id_words_chars word_char_not_dash by metis
  qed simp
  ultimately have "strip_by ?Q (sub_runs ?Q False (sub_runs (\<lambda>c. \<not> id_char c) False ?v)) = ?J"
    using strip_by_around [of l ?Q t ?J] by auto
  moreover have "?J = [] \<longleftrightarrow> id_words v = []"
    by (rule join_words_Nil)
  ultimately show ?thesis by (simp add: sanitize_id_def Let_def del: strip_by_Nil_iff)
qed

section \<open>What a sanitised identifier is\<close>

text \<open>
  The interface the planner uses: identifiers made of a common prefix, a number, and anything
  after it, separated by dashes, are distinct when their numbers are.
\<close>

locale run_namer =
  fixes namer :: "string \<Rightarrow> string"
  assumes namer_index: "namer (base @ dash # pad3 i @ dash # rest)
      = namer (base' @ dash # pad3 j @ dash # rest') \<Longrightarrow> id_words base = id_words base' \<Longrightarrow> i = j"
    and namer_component: "c \<in> set (namer s) \<Longrightarrow> id_char c"
    and namer_nonempty: "namer s \<noteq> []"
begin

lemma namer_no_slash: "CHR ''/'' \<notin> set (namer s)" and namer_no_dot: "CHR ''.'' \<notin> set (namer s)"
  using namer_component by (auto simp: id_char_def word_char_def is_ascii_alnum_def) fastforce+

text \<open>Distinct indices give distinct directories below the same parent.\<close>

lemma namer_paths_distinct:
  assumes "i \<noteq> j" and "id_words base = id_words base'"
  shows "dir @ CHR ''/'' # namer (base @ dash # pad3 i @ dash # rest)
    \<noteq> dir @ CHR ''/'' # namer (base' @ dash # pad3 j @ dash # rest')"
  using assms namer_index by auto

end

lemma id_words_digits:
  assumes "w \<noteq> []" and "\<And>c. c \<in> set w \<Longrightarrow> word_char c"
  shows "id_words w = [w]"
proof -
  have "dashed w = w" using assms(2) by (simp add: dashed_def map_idI)
  moreover have "dash \<notin> set w" using assms(2) word_char_not_dash by blast
  ultimately show ?thesis using assms(1) by (simp add: id_words_def split_on_single)
qed

lemma id_words_pad3: "id_words (base @ dash # pad3 i @ dash # rest) = id_words base @ pad3 i # id_words rest"
proof -
  have "id_words (pad3 i) = [pad3 i]"
    by (rule id_words_digits) (auto simp: word_char_def is_digit_alnum pad3_is_digit, simp add: pad3_def)
  then show ?thesis by (simp add: id_words_append)
qed

text \<open>Word lists are recovered from the sanitised text.\<close>

lemma split_sanitize_id:
  assumes "id_words v \<noteq> []"
  shows "split_on dash (sanitize_id v) = id_words v"
  using assms id_words_chars word_char_not_dash
  by (simp add: sanitize_id_words) (rule split_on_join, blast+)

lemma sanitize_id_char: "c \<in> set (sanitize_id v) \<Longrightarrow> id_char c"
proof -
  have *: "c \<in> set (join [dash] ws) \<Longrightarrow> c = dash \<or> (\<exists>w\<in>set ws. c \<in> set w)" for ws
    by (induction "[dash]" ws rule: join.induct) auto
  assume c: "c \<in> set (sanitize_id v)"
  show ?thesis
  proof (cases "id_words v = []")
    case True
    with c have "c \<in> set ''id''" by (simp add: sanitize_id_words)
    then show ?thesis by (auto simp: id_char_def word_char_def is_ascii_alnum_def)
  next
    case False
    with c * [of "id_words v"] id_words_chars show ?thesis
      by (auto simp: sanitize_id_words id_char_def)
  qed
qed

lemma sanitize_id_nonempty: "sanitize_id v \<noteq> []"
  by (simp add: sanitize_id_words join_words_Nil)

interpretation sanitizer: run_namer sanitize_id
proof unfold_locales
  fix base i rest base' j rest'
  assume eq: "sanitize_id (base @ dash # pad3 i @ dash # rest)
      = sanitize_id (base' @ dash # pad3 j @ dash # rest')" and base: "id_words base = id_words base'"
  have "id_words (base @ dash # pad3 i @ dash # rest) = id_words (base' @ dash # pad3 j @ dash # rest')"
    using eq split_sanitize_id by (metis Nil_is_append_conv id_words_pad3 list.distinct(1))
  with base show "i = j" by (simp add: id_words_pad3)
qed (auto simp: sanitize_id_char sanitize_id_nonempty)

text \<open>
  C34. \<open>sanitize_id\<close> meets its reference: the result is the word runs of the input joined by
  single dashes (\<open>id\<close> if there are none), and sanitising again changes nothing.
\<close>

theorem sanitize_id_correct:
  "sanitize_id v = (if id_words v = [] then ''id'' else join [dash] (id_words v))
   \<and> sanitize_id (sanitize_id v) = sanitize_id v"
proof -
  have "id_words (sanitize_id v) = (if id_words v = [] then [''id''] else id_words v)"
  proof (cases "id_words v = []")
    case True
    have "id_words ''id'' = [''id'']" by code_simp
    with True show ?thesis by (simp add: sanitize_id_words)
  next
    case False
    have "(if word_char c then c else dash) = c" if "c \<in> set (sanitize_id v)" for c
      using sanitize_id_char [OF that] by (auto simp: id_char_def)
    then have "dashed (sanitize_id v) = sanitize_id v"
      by (simp add: dashed_def map_idI)
    with False split_sanitize_id [OF False] id_words_chars show ?thesis
      by (auto simp: id_words_def [of "sanitize_id v"] filter_id_conv)
  qed
  then show ?thesis by (auto simp: sanitize_id_words)
qed

text \<open>
  A sanitised identifier is a safe path component: it is not empty, holds only letters,
  digits, underscores and dashes, so neither a separator nor a dot, and has no dash at either
  end.
\<close>

theorem sanitize_id_safe:
  "sanitize_id v \<noteq> [] \<and> list_all id_char (sanitize_id v)
   \<and> CHR ''/'' \<notin> set (sanitize_id v) \<and> CHR ''.'' \<notin> set (sanitize_id v)
   \<and> hd (sanitize_id v) \<noteq> dash \<and> last (sanitize_id v) \<noteq> dash"
proof -
  have "hd (sanitize_id v) \<noteq> dash \<and> last (sanitize_id v) \<noteq> dash"
  proof (cases "id_words v = []")
    case False
    then have "word_char (hd (hd (id_words v)))" "word_char (last (last (id_words v)))"
      using id_words_chars by (metis hd_in_set, metis last_in_set)
    with False show ?thesis
      using join_ends [of "id_words v" "[dash]"] id_words_chars word_char_not_dash
      by (metis sanitize_id_words)
  qed (simp add: sanitize_id_words)
  then show ?thesis
    using sanitizer.namer_no_slash sanitizer.namer_no_dot
    by (simp add: sanitize_id_nonempty list_all_iff sanitize_id_char)
qed

end
