(* ===== verification/RunPlan.thy ===== *)
theory RunPlan
  imports SuiteSpec RunId "HOL-Library.Multiset"
begin

text \<open>
  The planner of \<open>benchmark/runner/run_suite.py\<close>: \<open>pick_experiments\<close>, \<open>run_key\<close>,
  \<open>build_run_plan\<close> and \<open>build_command\<close>.

  \<open>dedup_map\<close> maps a run key to an entry of \<open>plan\<close>, and appending to the experiments of
  that entry changes the plan. The model keeps the position of the entry in the plan instead
  of a reference.
\<close>

section \<open>Picking experiments\<close>

text \<open>\<open>exp.get("id") in wanted\<close>\<close>

definition exp_wanted :: "string list \<Rightarrow> json \<Rightarrow> bool result" where
  "exp_wanted wanted ex = bind_res (py_get ex ''id'' JNull) (\<lambda>v. in_str_set v wanted)"

definition wanted_ids :: "string \<Rightarrow> string list" where
  "wanted_ids only = filter (\<lambda>x. x \<noteq> []) (map py_strip (split_on (CHR '','') only))"

definition pick_experiments :: "json list \<Rightarrow> string \<Rightarrow> json list result" where
  "pick_experiments exps only =
     (if py_strip only = [] then Inr exps
      else (let wanted = wanted_ids only in
        bind_res (map_res (\<lambda>ex. bind_res (exp_wanted wanted ex) (\<lambda>b. Inr (b, ex))) exps) (\<lambda>marked.
        let picked = map snd (filter fst marked);
            missing = filter (\<lambda>w. JStr w \<notin> (\<lambda>ex. obj_field ex ''id'') ` set picked) wanted
        in if missing \<noteq> [] then Inl (Fail (UnknownExperimentIds (sorted_set missing)))
           else Inr picked)))"


section \<open>Run keys\<close>

record run_key =
  k_workload_cli :: string
  k_scheduler_cli :: string
  k_cores :: int
  k_num_tasks :: int
  k_stop_time :: pyfloat
  k_topology :: json
  k_balancer :: json
  k_ws :: json

definition mk_run_key :: "json \<Rightarrow> string \<Rightarrow> string \<Rightarrow> run_key result" where
  "mk_run_key run workload_cli scheduler_cli =
     bind_res (py_getitem run ''topology'') (\<lambda>topology.
     bind_res (if topology = JStr ''mq'' then py_get run ''balancer'' (JStr ''leastloaded'')
               else Inr (JStr ''na'')) (\<lambda>balancer.
     bind_res (if topology = JStr ''mq'' then py_get run ''work_stealing'' (JBool True)
               else Inr JNull) (\<lambda>ws.
     bind_res (bind_res (py_getitem run ''cores'') py_int) (\<lambda>cores.
     bind_res (bind_res (py_getitem run ''num_tasks'') py_int) (\<lambda>num_tasks.
     bind_res (bind_res (py_getitem run ''stop_time'') py_float) (\<lambda>stop_time.
     Inr \<lparr>k_workload_cli = workload_cli, k_scheduler_cli = scheduler_cli, k_cores = cores,
          k_num_tasks = num_tasks, k_stop_time = stop_time, k_topology = topology,
          k_balancer = balancer, k_ws = ws\<rparr>))))))"

text \<open>
  A key as a dictionary key: its members in canonical form, so that keys that Python compares
  as equal have the same form. NaN is equal to nothing, so a key that holds one is never found.
\<close>

definition hash_run_key :: "run_key \<Rightarrow> run_key result" where
  "hash_run_key k =
     bind_res (hash_key (k_topology k)) (\<lambda>t.
     bind_res (hash_key (k_balancer k)) (\<lambda>b.
     bind_res (hash_key (k_ws k)) (\<lambda>w.
     Inr (k\<lparr>k_topology := t, k_balancer := b, k_ws := w\<rparr>))))"

definition nan_key :: "run_key \<Rightarrow> bool" where
  "nan_key k \<longleftrightarrow> k_stop_time k = NaN
     \<or> JFloat NaN \<in> {k_topology k, k_balancer k, k_ws k}"

definition key_lookup :: "(run_key \<times> nat) list \<Rightarrow> run_key \<Rightarrow> nat option" where
  "key_lookup m k = (if nan_key k then None else map_of m k)"


section \<open>Building the plan\<close>

record run_case =
  c_case_index :: nat
  c_experiments :: "json list"
  c_exp_run_index :: nat
  c_workload_key :: string
  c_workload_cli :: string
  c_cores :: int
  c_num_tasks :: int
  c_stop_time :: pyfloat
  c_topology :: json
  c_balancer :: json
  c_work_stealing :: json
  c_run_id :: string
  c_seed :: int
  c_scheduler_key :: string
  c_scheduler_cli :: string
  c_replications :: int
  c_artifact_dir :: string

text \<open>The arguments of \<open>build_run_plan\<close>, and the variables of its loops.\<close>

record plan_env =
  e_suite :: json
  e_dedupe :: bool
  e_scheduler_key :: string
  e_replications :: int
  e_seed_base :: int
  e_runs_dir :: string
  e_registry :: registry

record plan_state =
  s_plan :: "run_case list"
  s_dedup :: "(run_key \<times> nat) list"
  s_case_index :: nat

definition plan_start :: plan_state where
  "plan_start = \<lparr>s_plan = [], s_dedup = [], s_case_index = 0\<rparr>"

text \<open>\<open>sanitize_id(v)\<close> of a value that may be no string, and \<open>pathlib\<close>'s \<open>d / c\<close> for an
  absolute directory and one component.\<close>

definition sanitize_value :: "json \<Rightarrow> string result" where
  "sanitize_value v = (case v of JStr s \<Rightarrow> Inr (sanitize_id s) | _ \<Rightarrow> Inl AttrErr)"

definition path_join :: "string \<Rightarrow> string \<Rightarrow> string" where
  "path_join d c = (if d = ''/'' then ''/'' @ c else d @ ''/'' @ c)"

definition run_id_base :: "(json \<Rightarrow> string) \<Rightarrow> json \<Rightarrow> string" where
  "run_id_base rp suite_id = py_str rp suite_id"

text \<open>The text after the case index.\<close>

definition run_id_rest :: "(json \<Rightarrow> string) \<Rightarrow> string \<Rightarrow> run_key \<Rightarrow> int \<Rightarrow> string" where
  "run_id_rest rp wkey k t =
     wkey @ ''-'' @ dec_int (k_cores k) @ ''c-n'' @ dec_int (k_num_tasks k) @ ''-t'' @ dec_int t
     @ (if k_topology k = JStr ''mq''
        then ''-'' @ py_str rp (k_balancer k) @ ''-ws-'' @ (if truthy (k_ws k) then ''on'' else ''off'')
        else ''-sq'')"

text \<open>The entry that is appended for a key that is new.\<close>

definition mk_case ::
  "(json \<Rightarrow> string) \<Rightarrow> plan_env \<Rightarrow> json \<Rightarrow> nat \<Rightarrow> plugin \<Rightarrow> plugin \<Rightarrow> run_key \<Rightarrow> nat \<Rightarrow> run_case result"
where
  "mk_case rp env exp_id i sp wp k n =
     bind_res (py_getitem (e_suite env) ''suite_id'') (\<lambda>suite_id.
     bind_res (float_to_int (k_stop_time k)) (\<lambda>t.
     bind_res (Inr (sanitize_id (run_id_base rp suite_id @ dash # pad3 n @ dash #
                 run_id_rest rp (p_key wp) k t))) (\<lambda>run_id.
     bind_res (sanitize_value suite_id) (\<lambda>dir.
     Inr \<lparr>c_case_index = n, c_experiments = [exp_id], c_exp_run_index = i,
          c_workload_key = p_key wp, c_workload_cli = k_workload_cli k,
          c_cores = k_cores k, c_num_tasks = k_num_tasks k, c_stop_time = k_stop_time k,
          c_topology = k_topology k, c_balancer = k_balancer k, c_work_stealing = k_ws k,
          c_run_id = run_id, c_seed = e_seed_base env + int n * 1000,
          c_scheduler_key = p_key sp, c_scheduler_cli = k_scheduler_cli k,
          c_replications = e_replications env,
          c_artifact_dir = path_join (path_join (e_runs_dir env) dir) run_id\<rparr>))))"

text \<open>The plugins of a run and its key: the part of an iteration that does not use the state.\<close>

definition run_request ::
  "(json \<Rightarrow> string) \<Rightarrow> plan_env \<Rightarrow> json \<Rightarrow> (plugin \<times> plugin \<times> run_key) result" where
  "run_request rp env run =
     bind_res (py_get run ''scheduler'' (JStr (e_scheduler_key env))) (\<lambda>s.
     case resolve_scheduler (e_registry env) (py_str rp s) of
       None \<Rightarrow> Inl (Fail (UnknownScheduler (py_str rp s)))
     | Some sp \<Rightarrow>
         bind_res (py_getitem run ''workload'') (\<lambda>w.
         case resolve_workload (e_registry env) (py_str rp w) of
           None \<Rightarrow> Inl (Fail (UnknownWorkload (py_str rp w)))
         | Some wp \<Rightarrow>
             bind_res (mk_run_key run (p_cli_token wp) (p_cli_token sp)) (\<lambda>k.
             Inr (sp, wp, k))))"

definition add_experiment :: "json \<Rightarrow> run_case \<Rightarrow> run_case" where
  "add_experiment exp_id c = c\<lparr>c_experiments := c_experiments c @ [exp_id]\<rparr>"

text \<open>One iteration of the inner loop.\<close>

definition plan_run ::
  "(json \<Rightarrow> string) \<Rightarrow> plan_env \<Rightarrow> json \<Rightarrow> nat \<times> json \<Rightarrow> plan_state \<Rightarrow> plan_state result" where
  "plan_run rp env exp_id ir st = (case ir of (i, run) \<Rightarrow>
     bind_res (run_request rp env run) (\<lambda>(sp, wp, k).
     bind_res (if e_dedupe env
               then bind_res (hash_run_key k) (\<lambda>h. Inr (key_lookup (s_dedup st) h))
               else Inr None) (\<lambda>hit.
     case hit of
       Some j \<Rightarrow> Inr (st\<lparr>s_plan := (s_plan st)[j := add_experiment exp_id (s_plan st ! j)]\<rparr>)
     | None \<Rightarrow>
         bind_res (mk_case rp env exp_id i sp wp k (Suc (s_case_index st))) (\<lambda>entry.
         bind_res (hash_run_key k) (\<lambda>h.
         Inr \<lparr>s_plan = s_plan st @ [entry],
              s_dedup = (h, length (s_plan st)) # s_dedup st,
              s_case_index = Suc (s_case_index st)\<rparr>)))))"

text \<open>One iteration of the outer loop.\<close>

definition plan_experiment ::
  "(json \<Rightarrow> string) \<Rightarrow> plan_env \<Rightarrow> json \<Rightarrow> plan_state \<Rightarrow> plan_state result" where
  "plan_experiment rp env ex st =
     bind_res (py_getitem ex ''id'') (\<lambda>exp_id.
     bind_res (bind_res (py_get ex ''runs'' (JList [])) py_iter) (\<lambda>runs.
     fold_res (plan_run rp env exp_id) (enumerate 1 runs) st))"

definition build_run_plan ::
  "(json \<Rightarrow> string) \<Rightarrow> plan_env \<Rightarrow> json list \<Rightarrow> run_case list result" where
  "build_run_plan rp env exps =
     bind_res (fold_res (plan_experiment rp env) exps plan_start) (\<lambda>st. Inr (s_plan st))"


section \<open>The command of a case\<close>

text \<open>The argument list; the members that come from the document may be no strings.\<close>

definition build_command :: "string \<Rightarrow> json \<Rightarrow> run_case \<Rightarrow> json list result" where
  "build_command bin suite c =
     bind_res (float_to_int (c_stop_time c)) (\<lambda>t.
     bind_res (py_getitem suite ''benchmark_version'') (\<lambda>version.
     bind_res (py_getitem suite ''suite_id'') (\<lambda>suite_id.
     Inr ([JStr bin,
       JStr ''-s'', JStr (c_scheduler_cli c), JStr ''-w'', JStr (c_workload_cli c),
       JStr ''-c'', JStr (dec_int (c_cores c)), JStr ''-m'', c_topology c,
       JStr ''-n'', JStr (dec_int (c_num_tasks c)), JStr ''-t'', JStr (dec_int t),
       JStr ''-r'', JStr (dec_int (c_replications c)),
       JStr ''--benchmark-version'', version, JStr ''--suite-id'', suite_id,
       JStr ''--run-id'', JStr (c_run_id c), JStr ''--seed'', JStr (dec_int (c_seed c)),
       JStr ''--artifact-dir'', JStr (c_artifact_dir c)]
      @ (if c_topology c = JStr ''mq''
         then [JStr ''-b'', c_balancer c]
           @ (if c_work_stealing c = JBool False then [JStr ''--no-steal''] else [])
         else [])))))"

text \<open>\<open>" ".join(cmd)\<close>: every argument has to be a string.\<close>

fun command_strings :: "json list \<Rightarrow> string list result" where
  "command_strings [] = Inr []"
| "command_strings (JStr s # vs) = bind_res (command_strings vs) (\<lambda>ss. Inr (s # ss))"
| "command_strings _ = Inl TypeErr"

section \<open>The plan as a grouping of requests\<close>

text \<open>
  What the plan should be: every selected run is a request, its experiment and its canonical
  key. Requests with equal keys form one group, in the order of their first occurrence.
\<close>

definition canon :: "json \<Rightarrow> json" where
  "canon v = (case (hash_key v :: json result) of Inr h \<Rightarrow> h | Inl _ \<Rightarrow> v)"

definition canon_key :: "run_key \<Rightarrow> run_key" where
  "canon_key k = k\<lparr>k_topology := canon (k_topology k), k_balancer := canon (k_balancer k),
     k_ws := canon (k_ws k)\<rparr>"

definition raw_key :: "run_case \<Rightarrow> run_key" where
  "raw_key c = \<lparr>k_workload_cli = c_workload_cli c, k_scheduler_cli = c_scheduler_cli c,
     k_cores = c_cores c, k_num_tasks = c_num_tasks c, k_stop_time = c_stop_time c,
     k_topology = c_topology c, k_balancer = c_balancer c, k_ws = c_work_stealing c\<rparr>"

definition case_key :: "run_case \<Rightarrow> run_key" where
  "case_key c = canon_key (raw_key c)"

definition experiment_requests ::
  "(json \<Rightarrow> string) \<Rightarrow> plan_env \<Rightarrow> json \<Rightarrow> (json \<times> run_key) list result" where
  "experiment_requests rp env ex =
     bind_res (py_getitem ex ''id'') (\<lambda>exp_id.
     bind_res (bind_res (py_get ex ''runs'' (JList [])) py_iter) (\<lambda>runs.
     map_res (\<lambda>(i, run). bind_res (run_request rp env run) (\<lambda>(sp, wp, k). Inr (exp_id, canon_key k)))
       (enumerate 1 runs)))"

definition plan_requests ::
  "(json \<Rightarrow> string) \<Rightarrow> plan_env \<Rightarrow> json list \<Rightarrow> (json \<times> run_key) list result" where
  "plan_requests rp env exps =
     bind_res (map_res (experiment_requests rp env) exps) (\<lambda>rss. Inr (concat rss))"

fun group_insert ::
  "json \<times> run_key \<Rightarrow> (run_key \<times> json list) list \<Rightarrow> (run_key \<times> json list) list" where
  "group_insert (e, k) gs = add_group nan_key k e gs"

fun single_insert ::
  "json \<times> run_key \<Rightarrow> (run_key \<times> json list) list \<Rightarrow> (run_key \<times> json list) list" where
  "single_insert (e, k) gs = gs @ [(k, [e])]"

definition plan_groups :: "bool \<Rightarrow> (json \<times> run_key) list \<Rightarrow> (run_key \<times> json list) list" where
  "plan_groups dedupe reqs = fold (if dedupe then group_insert else single_insert) reqs []"

text \<open>What a plan says, apart from the numbering.\<close>

definition plan_view :: "run_case list \<Rightarrow> (run_key \<times> json list) list" where
  "plan_view plan = map (\<lambda>c. (case_key c, c_experiments c)) plan"

lemma hash_run_key_canon: "hash_run_key k = Inr h \<Longrightarrow> h = canon_key k"
  by (auto simp: hash_run_key_def canon_key_def canon_def res_simps)

lemma mk_case_key: "mk_case rp env e i sp wp k n = Inr c \<Longrightarrow> raw_key c = k \<and> c_experiments c = [e]"
  by (auto simp: mk_case_def raw_key_def res_simps)

lemma raw_key_add [simp]: "raw_key (add_experiment e c) = raw_key c"
  and case_key_add [simp]: "case_key (add_experiment e c) = case_key c"
  and experiments_add [simp]: "c_experiments (add_experiment e c) = c_experiments c @ [e]"
  by (simp_all add: add_experiment_def raw_key_def case_key_def)

lemma map_of_positions:
  "map_of (rev (zip ks [0..<length ks])) k = Some j \<Longrightarrow> j < length ks \<and> ks ! j = k"
  by (drule map_of_SomeD) (auto simp: in_set_zip)

lemma map_of_positions_None:
  "map_of (rev (zip ks [0..<length ks])) k = None \<longleftrightarrow> k \<notin> set ks"
  by (simp add: map_of_eq_None_iff flip: set_map)

section \<open>The planner implements the grouping\<close>

text \<open>The numbering of the case at position \<open>i\<close>.\<close>

definition case_numbered :: "(json \<Rightarrow> string) \<Rightarrow> plan_env \<Rightarrow> nat \<Rightarrow> run_case \<Rightarrow> bool" where
  "case_numbered rp env i c \<longleftrightarrow>
     c_case_index c = i + 1 \<and> c_seed c = e_seed_base env + int (i + 1) * 1000
     \<and> c_replications c = e_replications env
     \<and> (\<exists>t sid. float_to_int (c_stop_time c) = (Inr t :: int result)
          \<and> py_getitem (e_suite env) ''suite_id'' = (Inr (JStr sid) :: json result)
          \<and> c_run_id c = sanitize_id (sid @ dash # pad3 (i + 1) @ dash #
                run_id_rest rp (c_workload_key c) (raw_key c) t)
          \<and> c_artifact_dir c = path_join (path_join (e_runs_dir env) (sanitize_id sid)) (c_run_id c))"

definition plan_numbered :: "(json \<Rightarrow> string) \<Rightarrow> plan_env \<Rightarrow> run_case list \<Rightarrow> bool" where
  "plan_numbered rp env plan \<longleftrightarrow> (\<forall>i<length plan. case_numbered rp env i (plan ! i))"

text \<open>The invariant of the loops: the dictionary is the list of the keys of the plan.\<close>

definition plan_inv :: "(json \<Rightarrow> string) \<Rightarrow> plan_env \<Rightarrow> plan_state \<Rightarrow> bool" where
  "plan_inv rp env st \<longleftrightarrow>
     s_case_index st = length (s_plan st)
     \<and> s_dedup st = rev (zip (map case_key (s_plan st)) [0..<length (s_plan st)])
     \<and> (e_dedupe env \<longrightarrow> distinct (filter (\<lambda>k. \<not> nan_key k) (map case_key (s_plan st))))
     \<and> plan_numbered rp env (s_plan st)"

lemma fst_plan_view [simp]: "map fst (plan_view plan) = map case_key plan"
  by (simp add: plan_view_def)

lemma plan_numbered_append:
  "plan_numbered rp env plan \<Longrightarrow> case_numbered rp env (length plan) c
   \<Longrightarrow> plan_numbered rp env (plan @ [c])"
  by (auto simp: plan_numbered_def nth_append less_Suc_eq)

lemma plan_numbered_add:
  "plan_numbered rp env plan \<Longrightarrow> j < length plan
   \<Longrightarrow> plan_numbered rp env (plan[j := add_experiment e (plan ! j)])"
  by (auto simp: plan_numbered_def nth_list_update case_numbered_def)
     (simp_all add: add_experiment_def raw_key_def)

lemma sanitize_value_Inr:
  "sanitize_value v = Inr d \<longleftrightarrow> (\<exists>s. v = JStr s \<and> d = sanitize_id s)"
  by (cases v) (auto simp: sanitize_value_def)

lemma mk_case_numbered:
  "mk_case rp env e i sp wp k (Suc n) = Inr c \<Longrightarrow> case_numbered rp env n c"
  by (cases k) (auto simp: mk_case_def res_simps sanitize_value_Inr case_numbered_def
      run_id_base_def raw_key_def)

text \<open>A run appends a case, or adds its experiment to the case it finds.\<close>

lemma plan_run_cases:
  assumes "plan_run rp env e (i, run) st = Inr st'"
  obtains (hit) sp wp k j where "run_request rp env run = Inr (sp, wp, k)" "e_dedupe env"
      "key_lookup (s_dedup st) (canon_key k) = Some j"
      "st' = st\<lparr>s_plan := (s_plan st)[j := add_experiment e (s_plan st ! j)]\<rparr>"
    | (new) sp wp k c where "run_request rp env run = Inr (sp, wp, k)"
      "e_dedupe env \<longrightarrow> key_lookup (s_dedup st) (canon_key k) = None"
      "mk_case rp env e i sp wp k (Suc (s_case_index st)) = Inr c"
      "st' = \<lparr>s_plan = s_plan st @ [c],
              s_dedup = (canon_key k, length (s_plan st)) # s_dedup st,
              s_case_index = Suc (s_case_index st)\<rparr>"
proof -
  from assms obtain sp wp k hit where req: "run_request rp env run = Inr (sp, wp, k)"
    and hit: "(if e_dedupe env then bind_res (hash_run_key k) (\<lambda>h. Inr (key_lookup (s_dedup st) h))
               else Inr None) = (Inr hit :: nat option result)"
    and st': "(case hit of
       Some j \<Rightarrow> Inr (st\<lparr>s_plan := (s_plan st)[j := add_experiment e (s_plan st ! j)]\<rparr>)
     | None \<Rightarrow>
         bind_res (mk_case rp env e i sp wp k (Suc (s_case_index st))) (\<lambda>entry.
         bind_res (hash_run_key k) (\<lambda>h.
         Inr \<lparr>s_plan = s_plan st @ [entry],
              s_dedup = (h, length (s_plan st)) # s_dedup st,
              s_case_index = Suc (s_case_index st)\<rparr>))) = Inr st'"
    unfolding plan_run_def by (auto simp: bind_res_Inr)
  from hit have look: "hit = (if e_dedupe env then key_lookup (s_dedup st) (canon_key k) else None)"
    by (auto simp: res_simps dest: hash_run_key_canon split: if_splits)
  show thesis
  proof (cases hit)
    case None
    with st' obtain c h where "mk_case rp env e i sp wp k (Suc (s_case_index st)) = Inr c"
      "hash_run_key k = Inr h" "st' = \<lparr>s_plan = s_plan st @ [c],
              s_dedup = (h, length (s_plan st)) # s_dedup st,
              s_case_index = Suc (s_case_index st)\<rparr>"
      by (auto simp: res_simps)
    moreover from this have "h = canon_key k" by (simp add: hash_run_key_canon)
    ultimately show thesis using look None by (intro new [OF req]) (simp_all split: if_splits)
  next
    case (Some j)
    with look have "e_dedupe env" "key_lookup (s_dedup st) (canon_key k) = Some j"
      by (simp_all split: if_splits)
    moreover from st' Some
    have "st' = st\<lparr>s_plan := (s_plan st)[j := add_experiment e (s_plan st ! j)]\<rparr>" by simp
    ultimately show thesis by (rule that(1) [OF req])
  qed
qed

lemma plan_run_simulates:
  assumes "plan_run rp env e (i, run) st = Inr st'" and inv: "plan_inv rp env st"
  shows "plan_inv rp env st' \<and>
    (\<exists>r. bind_res (run_request rp env run) (\<lambda>(sp, wp, k). Inr (e, canon_key k)) = (Inr r :: (json \<times> run_key) result)
      \<and> plan_view (s_plan st') = (if e_dedupe env then group_insert else single_insert) r (plan_view (s_plan st)))"
  using assms(1)
proof (cases rule: plan_run_cases)
  case (hit sp wp k j)
  let ?ks = "map case_key (s_plan st)"
  from hit(3) inv have "\<not> nan_key (canon_key k)"
    and "map_of (rev (zip ?ks [0..<length ?ks])) (canon_key k) = Some j"
    by (auto simp: key_lookup_def plan_inv_def split: if_splits)
  with map_of_positions have j: "j < length (s_plan st)" "case_key (s_plan st ! j) = canon_key k"
    "\<not> nan_key (canon_key k)" by fastforce+
  have ins: "group_insert (e, canon_key k) (plan_view (s_plan st))
      = (plan_view (s_plan st))[j := (canon_key k, snd (plan_view (s_plan st) ! j) @ [e])]"
    unfolding group_insert.simps by (rule add_group_hit) (use j hit(2) inv in \<open>auto simp: plan_view_def plan_inv_def comp_def\<close>)
  have keys: "map case_key ((s_plan st)[j := add_experiment e (s_plan st ! j)]) = map case_key (s_plan st)"
    using j by (metis case_key_add list_update_id map_update)
  have "plan_inv rp env st'"
    using inv hit(4) j plan_numbered_add [of rp env "s_plan st" j e]
    by (auto simp: plan_inv_def keys)
  with hit(1,2,4) j ins show ?thesis
    by (simp add: plan_view_def map_update)
next
  case (new sp wp k c)
  have key: "case_key c = canon_key k" "c_experiments c = [e]"
    using mk_case_key [OF new(3)] by (simp_all add: case_key_def)
  let ?ks = "map case_key (s_plan st)"
  have fresh: "nan_key (canon_key k) \<or> canon_key k \<notin> set ?ks" if "e_dedupe env"
    using that new(2) inv map_of_positions_None [of ?ks "canon_key k"]
    by (auto simp: key_lookup_def plan_inv_def split: if_splits)
  have "plan_inv rp env st'"
    using inv new(4) key fresh mk_case_numbered [OF new(3)] plan_numbered_append [of rp env "s_plan st" c]
    by (auto simp: plan_inv_def)
  moreover have "plan_view (s_plan st')
      = (if e_dedupe env then group_insert else single_insert) (e, canon_key k) (plan_view (s_plan st))"
    using new(4) key fresh add_group_new [of nan_key "canon_key k" "plan_view (s_plan st)" e]
    by (auto simp: plan_view_def image_image)
  ultimately show ?thesis using new(1) by simp
qed

lemma plan_start_inv [simp]: "plan_inv rp env plan_start"
  by (simp add: plan_inv_def plan_start_def plan_numbered_def)

text \<open>The loop over the runs of an experiment, and the loop over the experiments.\<close>

lemma plan_experiment_simulates:
  assumes "plan_experiment rp env ex st = Inr st'" and "plan_inv rp env st"
  shows "plan_inv rp env st' \<and>
    (\<exists>rs. experiment_requests rp env ex = Inr rs
      \<and> plan_view (s_plan st')
        = fold (if e_dedupe env then group_insert else single_insert) rs (plan_view (s_plan st)))"
proof -
  from assms(1) obtain eid rv runs where eid: "py_getitem ex ''id'' = (Inr eid :: json result)"
    and runs: "py_get ex ''runs'' (JList []) = (Inr rv :: json result)"
      "py_iter rv = (Inr runs :: json list result)"
    and loop: "fold_res (plan_run rp env eid) (enumerate 1 runs) st = Inr st'"
    by (auto simp: plan_experiment_def bind_res_Inr)
  let ?g = "\<lambda>(i, run). bind_res (run_request rp env run)
    (\<lambda>(sp, wp, k). Inr (eid, canon_key k)) :: (json \<times> run_key) result"
  have "plan_inv rp env st' \<and> (\<exists>rs. map_res ?g (enumerate 1 runs) = Inr rs
      \<and> plan_view (s_plan st')
        = fold (if e_dedupe env then group_insert else single_insert) rs (plan_view (s_plan st)))"
  proof (rule fold_res_simulates [OF loop, where I = "plan_inv rp env" and view = "plan_view \<circ> s_plan", simplified comp_apply])
    show "plan_inv rp env st" by (rule assms(2))
    fix x s t
    assume "plan_run rp env eid x s = Inr t" "plan_inv rp env s"
    then show "plan_inv rp env t \<and> (\<exists>y. ?g x = Inr y \<and> plan_view (s_plan t)
        = (if e_dedupe env then group_insert else single_insert) y (plan_view (s_plan s)))"
      by (cases x) (auto dest: plan_run_simulates)
  qed
  then show ?thesis
    by (auto simp: experiment_requests_def eid runs)
qed

lemma fold_concat: "fold (fold f) xss s = fold f (concat xss) s"
  by (induction xss arbitrary: s) simp_all

lemma plan_simulates:
  assumes "build_run_plan rp env exps = Inr plan"
  shows "plan_numbered rp env plan \<and>
    (\<exists>reqs. plan_requests rp env exps = Inr reqs \<and> plan_view plan = plan_groups (e_dedupe env) reqs)
    \<and> (e_dedupe env \<longrightarrow> distinct (filter (\<lambda>k. \<not> nan_key k) (map case_key plan)))"
proof -
  from assms obtain st where loop: "fold_res (plan_experiment rp env) exps plan_start = Inr st"
    and plan: "plan = s_plan st" by (auto simp: build_run_plan_def res_simps)
  let ?ins = "if e_dedupe env then group_insert else single_insert"
  have "plan_inv rp env st \<and> (\<exists>rss. map_res (experiment_requests rp env) exps = Inr rss
      \<and> plan_view (s_plan st) = fold (fold ?ins) rss (plan_view (s_plan plan_start)))"
    by (rule fold_res_simulates [OF loop, where I = "plan_inv rp env" and view = "plan_view \<circ> s_plan",
          simplified comp_apply]) (rule plan_start_inv, rule plan_experiment_simulates)
  then show ?thesis
    by (auto simp: plan plan_inv_def plan_requests_def plan_groups_def fold_concat plan_view_def
        plan_start_def)
qed


text \<open>A small registry, as its registrations leave it, so that examples evaluate fast.\<close>

definition sample_registry :: registry where
  "sample_registry = \<lparr>
     r_schedulers = [(''all'', mk_plugin ''all'' ''All Schedulers'' [] [] True)],
     r_workloads = [(''desktop'', mk_plugin ''desktop'' ''Desktop'' [] [] False)],
     r_scheduler_alias = [(''all'', ''all'')], r_workload_alias = [(''desktop'', ''desktop'')]\<rparr>"

definition sample_env :: "bool \<Rightarrow> plan_env" where
  "sample_env dedupe = \<lparr>e_suite = sample_suite [], e_dedupe = dedupe, e_scheduler_key = ''all'',
     e_replications = 3, e_seed_base = 7, e_runs_dir = ''/runs'', e_registry = sample_registry\<rparr>"

text \<open>Two experiments that ask for the same run, and the second for another one.\<close>

definition sample_exps :: "json list" where
  "sample_exps = [sample_experiment ''e1'' [] [sample_run ''sq'' []],
     sample_experiment ''e2'' [] [sample_run ''mq'' [(''balancer'', JStr ''rr'')], sample_run ''sq'' []]]"

definition sample_case :: "nat \<Rightarrow> json list \<Rightarrow> nat \<Rightarrow> json \<Rightarrow> json \<Rightarrow> json \<Rightarrow> string \<Rightarrow> run_case" where
  "sample_case n exps i topo bal ws rid = \<lparr>c_case_index = n, c_experiments = exps, c_exp_run_index = i,
     c_workload_key = ''desktop'', c_workload_cli = ''desktop'', c_cores = 4, c_num_tasks = 100,
     c_stop_time = Fin 500, c_topology = topo, c_balancer = bal, c_work_stealing = ws,
     c_run_id = rid, c_seed = 7 + int n * 1000, c_scheduler_key = ''all'', c_scheduler_cli = ''all'',
     c_replications = 3, c_artifact_dir = ''/runs/demo/'' @ rid\<rparr>"

definition sample_plan :: "run_case list" where
  "sample_plan =
     [sample_case 1 [JStr ''e1'', JStr ''e2''] 1 (JStr ''sq'') (JStr ''na'') JNull
        ''demo-001-desktop-4c-n100-t500-sq'',
      sample_case 2 [JStr ''e2''] 1 (JStr ''mq'') (JStr ''rr'') (JBool True)
        ''demo-002-desktop-4c-n100-t500-rr-ws-on'']"

lemma sample_plan_built: "build_run_plan (\<lambda>_. []) (sample_env True) sample_exps = Inr sample_plan"
  by code_simp


lemma plan_groups_nonempty: "(k, es) \<in> set (plan_groups d reqs) \<Longrightarrow> es \<noteq> []"
proof -
  have add: "list_all (\<lambda>g. snd g \<noteq> []) gs \<Longrightarrow> list_all (\<lambda>g. snd g \<noteq> []) (add_group lone k v gs)" for lone k gs and v :: json
    by (induction lone k v gs rule: add_group.induct) simp_all
  have "list_all (\<lambda>g. snd g \<noteq> []) (fold (if d then group_insert else single_insert) reqs gs)"
    if "list_all (\<lambda>g. snd g \<noteq> []) gs" for gs
    using that
  proof (induction reqs arbitrary: gs)
    case (Cons r reqs)
    then show ?case by (cases r) (simp add: add)
  qed simp
  from this [of "[]"] show "(k, es) \<in> set (plan_groups d reqs) \<Longrightarrow> es \<noteq> []"
    by (auto simp: plan_groups_def list_all_iff)
qed

lemma plan_experiments_nonempty:
  assumes "build_run_plan rp env exps = Inr plan" and "c \<in> set plan"
  shows "c_experiments c \<noteq> []"
proof -
  from plan_simulates [OF assms(1)] obtain reqs where "plan_view plan = plan_groups (e_dedupe env) reqs" by blast
  moreover have "(case_key c, c_experiments c) \<in> set (plan_view plan)"
    using assms(2) by (auto simp: plan_view_def)
  ultimately show ?thesis using plan_groups_nonempty by metis
qed

lemma plan_groups_size: "sum_list (map (\<lambda>g. length (snd g)) (plan_groups d reqs)) = length reqs"
proof -
  have "sum_list (map (\<lambda>g. length (snd g)) (fold (if d then group_insert else single_insert) reqs gs))
      = sum_list (map (\<lambda>g. length (snd g)) gs) + length reqs" for gs
  proof (induction reqs arbitrary: gs)
    case (Cons r reqs)
    then show ?case by (cases r) (auto simp: add_group_size)
  qed simp
  then show ?thesis by (simp add: plan_groups_def)
qed

text \<open>
  Nothing is planned twice and nothing is lost: no two cases of a deduplicated plan have
  keys that Python compares as equal, and the cases together list one experiment for each
  selected run.
\<close>

theorem build_run_plan_once:
  assumes "build_run_plan rp env exps = Inr plan"
  shows "(e_dedupe env \<longrightarrow> (\<forall>i<length plan. \<forall>j<i. \<not> nan_key (case_key (plan ! i))
        \<longrightarrow> case_key (plan ! j) \<noteq> case_key (plan ! i)))
    \<and> (\<exists>reqs. plan_requests rp env exps = Inr reqs
        \<and> sum_list (map (\<lambda>c. length (c_experiments c)) plan) = length reqs)"
proof (intro conjI impI allI)
  from plan_simulates [OF assms] obtain reqs where reqs: "plan_requests rp env exps = Inr reqs"
    "plan_view plan = plan_groups (e_dedupe env) reqs"
    and dist: "e_dedupe env \<longrightarrow> distinct (filter (\<lambda>k. \<not> nan_key k) (map case_key plan))" by blast
  have "sum_list (map (\<lambda>c. length (c_experiments c)) plan) = sum_list (map (\<lambda>g. length (snd g)) (plan_view plan))"
    by (simp add: plan_view_def comp_def)
  with reqs show "\<exists>reqs. plan_requests rp env exps = Inr reqs
      \<and> sum_list (map (\<lambda>c. length (c_experiments c)) plan) = length reqs"
    by (simp add: plan_groups_size)
  fix i j
  assume *: "e_dedupe env" "i < length plan" "j < i" "\<not> nan_key (case_key (plan ! i))"
  with dist distinct_filter_nth [of "\<lambda>k. \<not> nan_key k" "map case_key plan" i j]
  show "case_key (plan ! j) \<noteq> case_key (plan ! i)" by simp
qed

theorem build_run_plan_once_witness: "case_key (sample_plan ! 0) \<noteq> case_key (sample_plan ! 1)"
proof -
  have "\<not> nan_key (case_key (sample_plan ! 1))" by code_simp
  moreover have "e_dedupe (sample_env True)" "1 < length sample_plan" "0 < (1::nat)"
    by (simp_all add: sample_env_def sample_plan_def)
  ultimately show ?thesis using build_run_plan_once [OF sample_plan_built] by blast
qed

text \<open>The directory of a case and its run id, which contains the number of the case.\<close>

lemma plan_case_ids:
  assumes "build_run_plan rp env exps = Inr plan"
  shows "c \<in> set plan \<Longrightarrow> \<exists>sid s. py_getitem (e_suite env) ''suite_id'' = (Inr (JStr sid) :: json result)
      \<and> c_run_id c = sanitize_id s
      \<and> c_artifact_dir c = path_join (path_join (e_runs_dir env) (sanitize_id sid)) (c_run_id c)"
    and "distinct (map c_run_id plan)"
proof -
  have num: "case_numbered rp env i (plan ! i)" if "i < length plan" for i
    using plan_simulates [OF assms] that by (simp add: plan_numbered_def)
  show "\<exists>sid s. py_getitem (e_suite env) ''suite_id'' = (Inr (JStr sid) :: json result)
      \<and> c_run_id c = sanitize_id s
      \<and> c_artifact_dir c = path_join (path_join (e_runs_dir env) (sanitize_id sid)) (c_run_id c)"
    if c: "c \<in> set plan"
  proof -
    from c num obtain i where "case_numbered rp env i c" by (auto simp: in_set_conv_nth)
    then show ?thesis by (auto simp: case_numbered_def)
  qed
  have named: "\<exists>sid a. py_getitem (e_suite env) ''suite_id'' = (Inr (JStr sid) :: json result)
      \<and> c_run_id (plan ! i) = sanitize_id (sid @ dash # pad3 (i + 1) @ dash # a)" if "i < length plan" for i
    using num [OF that] unfolding case_numbered_def by blast
  have "c_run_id (plan ! i) \<noteq> c_run_id (plan ! j)"
    if lt: "i < length plan" "j < length plan" and ne: "i \<noteq> j" for i j
  proof
    assume eq: "c_run_id (plan ! i) = c_run_id (plan ! j)"
    obtain sid a where i: "py_getitem (e_suite env) ''suite_id'' = (Inr (JStr sid) :: json result)"
      "c_run_id (plan ! i) = sanitize_id (sid @ dash # pad3 (i + 1) @ dash # a)" using named [OF lt(1)] by blast
    obtain sid' b where j: "py_getitem (e_suite env) ''suite_id'' = (Inr (JStr sid') :: json result)"
      "c_run_id (plan ! j) = sanitize_id (sid' @ dash # pad3 (j + 1) @ dash # b)" using named [OF lt(2)] by blast
    from i(1) j(1) have "sid' = sid" by simp
    have "i + 1 = j + 1"
      by (rule sanitizer.namer_index [of sid _ a sid _ b])
         (use eq i(2) j(2) \<open>sid' = sid\<close> in \<open>simp_all only:\<close>)
    with ne show False by simp
  qed
  then show "distinct (map c_run_id plan)" by (simp add: distinct_conv_nth)
qed

text \<open>
  C7. The cases are numbered from 1, the seeds are \<open>seed_base + 1000 * index\<close>, and every
  case writes to a directory of its own below the directory of the suite: artifacts of two
  cases never mix, whatever the suite id and the balancer texts are.
\<close>

theorem build_run_plan_separate:
  assumes "build_run_plan rp env exps = Inr plan"
  shows "map c_case_index plan = [1..<length plan + 1]
    \<and> map c_seed plan = map (\<lambda>i. e_seed_base env + int i * 1000) [1..<length plan + 1]
    \<and> distinct (map c_run_id plan) \<and> distinct (map c_artifact_dir plan)
    \<and> (\<forall>c\<in>set plan. CHR ''/'' \<notin> set (c_run_id c) \<and> CHR ''.'' \<notin> set (c_run_id c)
        \<and> (\<exists>sid. c_artifact_dir c = path_join (path_join (e_runs_dir env) (sanitize_id sid)) (c_run_id c)))"
proof -
  have num: "case_numbered rp env i (plan ! i)" if "i < length plan" for i
    using plan_simulates [OF assms] that by (simp add: plan_numbered_def)
  have eq: "map c_case_index plan = [1..<length plan + 1]"
    "map c_seed plan = map (\<lambda>i. e_seed_base env + int i * 1000) [1..<length plan + 1]"
    by (auto intro!: nth_equalityI simp: num [unfolded case_numbered_def] simp del: upt_Suc)
  have "c_run_id c = c_run_id c'"
    if cs: "c \<in> set plan" "c' \<in> set plan" and eq: "c_artifact_dir c = c_artifact_dir c'" for c c'
  proof -
    obtain sid where sid: "py_getitem (e_suite env) ''suite_id'' = (Inr (JStr sid) :: json result)"
      "c_artifact_dir c = path_join (path_join (e_runs_dir env) (sanitize_id sid)) (c_run_id c)"
      using plan_case_ids(1) [OF assms cs(1)] by blast
    obtain sid' where "py_getitem (e_suite env) ''suite_id'' = (Inr (JStr sid') :: json result)"
      "c_artifact_dir c' = path_join (path_join (e_runs_dir env) (sanitize_id sid')) (c_run_id c')"
      using plan_case_ids(1) [OF assms cs(2)] by blast
    with sid eq show ?thesis by (simp add: path_join_def split: if_splits)
  qed
  then have "inj_on c_artifact_dir (set plan)"
    using plan_case_ids(2) [OF assms] unfolding distinct_map inj_on_def by blast
  then have "distinct (map c_artifact_dir plan)"
    using plan_case_ids(2) [OF assms] unfolding distinct_map by blast
  moreover have "CHR ''/'' \<notin> set (c_run_id c) \<and> CHR ''.'' \<notin> set (c_run_id c)
      \<and> (\<exists>sid. c_artifact_dir c = path_join (path_join (e_runs_dir env) (sanitize_id sid)) (c_run_id c))"
    if "c \<in> set plan" for c
    using plan_case_ids(1) [OF assms that] sanitizer.namer_no_slash sanitizer.namer_no_dot by metis
  ultimately show ?thesis using plan_case_ids(2) [OF assms] eq by blast
qed

theorem build_run_plan_separate_witness:
  "map c_case_index sample_plan = [1, 2] \<and> distinct (map c_artifact_dir sample_plan)"
  using build_run_plan_separate [OF sample_plan_built] by (simp add: sample_plan_def upt_rec)

section \<open>Accepted suites are planned\<close>

text \<open>
  Both validators compare \<open>float(stop_time)\<close> with zero only, so infinity and NaN pass; the
  planner needs \<open>int(stop_time)\<close>.
\<close>

definition finite_stop :: "json \<Rightarrow> bool" where
  "finite_stop run \<longleftrightarrow>
     (case (py_float (obj_field run ''stop_time'') :: pyfloat result) of
        Inr (Fin r) \<Rightarrow> True | _ \<Rightarrow> False)"

definition strict_members :: "json \<Rightarrow> json \<Rightarrow> json \<Rightarrow> bool" where
  "strict_members topo bal ws \<longleftrightarrow>
     (topo = JStr ''sq'' \<and> bal = JStr ''na'' \<and> ws = JNull
      \<or> topo = JStr ''mq'' \<and> bal \<in> JStr ` set valid_balancers \<and> is_jbool ws)"

lemma is_jbool_iff: "is_jbool v \<longleftrightarrow> (\<exists>b. v = JBool b)"
  by (cases v) (auto simp: is_jbool_def)

lemma pos_intD: "pos_int v \<Longrightarrow> \<exists>n. py_int v = (Inr n :: int result)"
  by (auto simp: pos_int_def split: sum.splits)

lemma strict_run_key:
  assumes "strict_run_ok rp reg run" and "finite_stop run"
  shows "\<exists>k r. mk_run_key run wcli scli = Inr k \<and> k_stop_time k = Fin r
      \<and> strict_members (k_topology k) (k_balancer k) (k_ws k)"
proof -
  from assms(1) obtain kvs where run: "run = JObj kvs"
    by (auto simp: strict_run_ok_def split: json.splits)
  have "\<exists>v. map_of kvs k = Some v" if "k \<in> set run_keys" for k
    using assms(1) that by (auto simp: strict_run_ok_def run list_all_iff)
  then obtain t cv nv sv where vals: "map_of kvs ''topology'' = Some t" "map_of kvs ''cores'' = Some cv"
    "map_of kvs ''num_tasks'' = Some nv" "map_of kvs ''stop_time'' = Some sv"
    by (fastforce simp: run_keys_def)
  have items: "py_getitem run ''topology'' = (Inr t :: json result)"
    "py_getitem run ''cores'' = (Inr cv :: json result)"
    "py_getitem run ''num_tasks'' = (Inr nv :: json result)"
    "py_getitem run ''stop_time'' = (Inr sv :: json result)"
    by (simp_all add: run vals)
  from assms(2) vals obtain r where stop: "py_float sv = (Inr (Fin r) :: pyfloat result)"
    by (auto simp: finite_stop_def run obj_field_def split: sum.splits pyfloat.splits)
  from assms(1) have "pos_int cv" "pos_int nv" by (simp_all add: strict_run_ok_def run vals)
  then obtain c n where ints: "py_int cv = (Inr c :: int result)" "py_int nv = (Inr n :: int result)"
    using pos_intD by blast
  consider "t = JStr ''sq''"
    | b w where "t = JStr ''mq''" "b \<in> set valid_balancers"
      "dget kvs ''balancer'' (JStr ''leastloaded'') = JStr b"
      "dget kvs ''work_stealing'' (JBool True) = JBool w"
    using assms(1) by (auto simp: strict_run_ok_def run vals valid_topologies_def is_jbool_iff dget_def
        split: option.splits)
  moreover have "py_get run k d = (Inr (dget kvs k d) :: json result)" for k d
    by (simp add: run)
  ultimately show ?thesis
    by cases (simp_all add: mk_run_key_def items ints stop strict_members_def is_jbool_iff)
qed

lemma strict_run_request:
  assumes "strict_run_ok rp (e_registry env) run" and "finite_stop run"
    and "resolve_scheduler (e_registry env) (e_scheduler_key env) \<noteq> None"
  shows "\<exists>sp wp k r. run_request rp env run = Inr (sp, wp, k) \<and> k_stop_time k = Fin r
      \<and> strict_members (k_topology k) (k_balancer k) (k_ws k)"
proof -
  from assms(1) obtain kvs where run: "run = JObj kvs"
    by (auto simp: strict_run_ok_def split: json.splits)
  have "\<exists>sp. resolve_scheduler (e_registry env)
      (py_str rp (dget kvs ''scheduler'' (JStr (e_scheduler_key env)))) = Some sp"
    using assms(1,3) by (auto simp: strict_run_ok_def run dget_def split: option.splits)
  moreover have "\<exists>w wp. map_of kvs ''workload'' = Some w
      \<and> resolve_workload (e_registry env) (py_str rp w) = Some wp"
    using assms(1) by (auto simp: strict_run_ok_def run run_keys_def dget_def)
  ultimately obtain sp w wp where "resolve_scheduler (e_registry env)
      (py_str rp (dget kvs ''scheduler'' (JStr (e_scheduler_key env)))) = Some sp"
    "map_of kvs ''workload'' = Some w" "resolve_workload (e_registry env) (py_str rp w) = Some wp"
    by blast
  with strict_run_key [OF assms(1,2), of "p_cli_token wp" "p_cli_token sp"] show ?thesis
    by (auto simp: run_request_def run bind_res_Inr py_getitem.simps)
qed

lemma strict_members_hash:
  assumes "strict_members (k_topology k) (k_balancer k) (k_ws k)"
  shows "\<exists>h. hash_run_key k = Inr h"
  using assms by (auto simp: strict_members_def hash_run_key_def is_jbool_iff)

definition strict_case :: "run_case \<Rightarrow> bool" where
  "strict_case c \<longleftrightarrow> (\<exists>r. c_stop_time c = Fin r)
     \<and> strict_members (c_topology c) (c_balancer c) (c_work_stealing c)"

lemma strict_case_add: "strict_case (add_experiment e c) = strict_case c"
  by (simp add: strict_case_def add_experiment_def)

lemma strict_plan_run:
  assumes "strict_run_ok rp (e_registry env) run" and "finite_stop run"
    and "resolve_scheduler (e_registry env) (e_scheduler_key env) \<noteq> None"
    and "py_getitem (e_suite env) ''suite_id'' = (Inr (JStr sid) :: json result)"
    and "\<forall>c\<in>set (s_plan st). strict_case c"
    and "plan_inv rp env st"
  shows "\<exists>st'. plan_run rp env e (i, run) st = Inr st' \<and> (\<forall>c\<in>set (s_plan st'). strict_case c)
      \<and> plan_inv rp env st'"
proof -
  from strict_run_request [OF assms(1-3)] obtain sp wp k r
    where req: "run_request rp env run = Inr (sp, wp, k)" "k_stop_time k = Fin r"
      "strict_members (k_topology k) (k_balancer k) (k_ws k)" by blast
  from strict_members_hash [OF req(3)] obtain h where h: "hash_run_key k = Inr h" by blast
  obtain c where c: "mk_case rp env e i sp wp k (Suc (s_case_index st)) = Inr c"
    using req(2) assms(4) by (auto simp: mk_case_def sanitize_value_def)
  from c req(2,3) have sc: "strict_case c"
    using mk_case_key [OF c] by (auto simp: strict_case_def raw_key_def)
  have "\<exists>st'. plan_run rp env e (i, run) st = Inr st'"
    using req(1) h c by (auto simp: plan_run_def split: option.splits)
  then obtain st' where st': "plan_run rp env e (i, run) st = Inr st'" by blast
  have inv: "plan_inv rp env st'" using plan_run_simulates [OF st' assms(6)] by simp
  from st' have "\<forall>c\<in>set (s_plan st'). strict_case c"
  proof (cases rule: plan_run_cases)
    case (hit sp' wp' k' j)
    then have "map_of (s_dedup st) (canon_key k') = Some j" by (simp add: key_lookup_def split: if_splits)
    with assms(6) map_of_positions [of "map case_key (s_plan st)" "canon_key k'" j]
    have "j < length (s_plan st)" by (simp add: plan_inv_def)
    with hit(4) assms(5) show ?thesis
      by (auto simp: strict_case_add dest!: subsetD [OF set_update_subset_insert])
  next
    case (new sp' wp' k' c')
    with req(1) c sc assms(5) show ?thesis by auto
  qed
  with st' inv show ?thesis by blast
qed

lemma strict_plan_experiment:
  assumes ok: "spec_accepts rp (e_registry env) (e_suite env)"
    and "resolve_scheduler (e_registry env) (e_scheduler_key env) \<noteq> None"
    and "py_getitem (e_suite env) ''suite_id'' = (Inr (JStr sid) :: json result)"
    and ex: "ex \<in> set (suite_experiments (e_suite env))"
    and fin: "\<forall>run\<in>set (experiment_runs ex). finite_stop run"
    and "(\<forall>c\<in>set (s_plan st). strict_case c) \<and> plan_inv rp env st"
  shows "\<exists>st'. plan_experiment rp env ex st = Inr st'
      \<and> (\<forall>c\<in>set (s_plan st'). strict_case c) \<and> plan_inv rp env st'"
proof -
  from spec_check.accepts_experiment [OF ok ex] obtain kvs eid where exo: "ex = JObj kvs"
    "map_of kvs ''id'' = Some eid" "is_jlist (dget kvs ''runs'' (JList []))"
    by (auto simp: experiment_ok_def split: json.splits)
  then obtain runs where runs: "dget kvs ''runs'' (JList []) = JList runs"
    by (auto simp: is_jlist_def split: json.splits)
  have strict: "strict_run_ok rp (e_registry env) run \<and> finite_stop run" if "run \<in> set runs" for run
    using that fin spec_experiment_ok_runs(2) [OF spec_acceptsD(2) [OF ok ex]]
    by (simp add: exo runs list_items_def)
  have "\<exists>st'. fold_res (plan_run rp env eid) (enumerate 1 runs) st = Inr st'
      \<and> (\<forall>c\<in>set (s_plan st'). strict_case c) \<and> plan_inv rp env st'"
  proof (rule fold_res_total)
    show "(\<forall>c\<in>set (s_plan st). strict_case c) \<and> plan_inv rp env st" by (rule assms(6))
    fix x s
    assume x: "x \<in> set (enumerate 1 runs)"
      and s: "(\<forall>c\<in>set (s_plan s). strict_case c) \<and> plan_inv rp env s"
    from x have "snd x \<in> set runs" by (metis image_eqI list.set_map map_snd_enumerate)
    then obtain i run where "x = (i, run)" "run \<in> set runs" by (cases x) simp
    with s strict strict_plan_run [OF _ _ assms(2,3), of rp run s eid i]
    show "\<exists>t. plan_run rp env eid x s = Inr t \<and> (\<forall>c\<in>set (s_plan t). strict_case c) \<and> plan_inv rp env t"
      by blast
  qed
  then show ?thesis by (auto simp: plan_experiment_def exo runs py_getitem.simps)
qed

lemma spec_accepts_strings:
  assumes "spec_accepts rp reg doc"
  shows "\<exists>sid bv. py_getitem doc ''suite_id'' = (Inr (JStr sid) :: json result)
    \<and> py_getitem doc ''benchmark_version'' = (Inr (JStr bv) :: json result)"
proof -
  from assms have "validate_top_level doc = Inr ()"
    by (auto simp: spec_accepts_def validate_spec_def res_simps)
  then obtain kvs sid bv where "doc = JObj kvs" "map_of kvs ''suite_id'' = Some sid"
    "map_of kvs ''benchmark_version'' = Some bv" "is_nonblank_str sid" "is_nonblank_str bv"
    by (cases doc) (auto simp: validate_top_level_def suite_keys_def res_simps require_key_Inr)
  then show ?thesis by (auto simp: is_nonblank_str_def split: json.splits)
qed

lemma strict_plan:
  assumes ok: "spec_accepts rp (e_registry env) (e_suite env)"
    and "resolve_scheduler (e_registry env) (e_scheduler_key env) \<noteq> None"
    and "set exps \<subseteq> set (suite_experiments (e_suite env))"
    and "\<forall>ex\<in>set exps. \<forall>run\<in>set (experiment_runs ex). finite_stop run"
  shows "\<exists>plan. build_run_plan rp env exps = Inr plan \<and> (\<forall>c\<in>set plan. strict_case c)"
proof -
  from spec_accepts_strings [OF ok] obtain sid
    where sid: "py_getitem (e_suite env) ''suite_id'' = (Inr (JStr sid) :: json result)" by blast
  have "\<exists>st. fold_res (plan_experiment rp env) exps plan_start = Inr st
      \<and> (\<forall>c\<in>set (s_plan st). strict_case c) \<and> plan_inv rp env st"
  proof (rule fold_res_total)
    show "(\<forall>c\<in>set (s_plan plan_start). strict_case c) \<and> plan_inv rp env plan_start"
      by (simp add: plan_start_inv) (simp add: plan_start_def)
    show "\<exists>t. plan_experiment rp env ex s = Inr t
        \<and> (\<forall>c\<in>set (s_plan t). strict_case c) \<and> plan_inv rp env t"
      if "ex \<in> set exps" and "(\<forall>c\<in>set (s_plan s). strict_case c) \<and> plan_inv rp env s" for ex s
      using that assms(3,4) strict_plan_experiment [OF ok assms(2) sid] by blast
  qed
  then show ?thesis by (auto simp: build_run_plan_def)
qed

text \<open>The options of a command: pairs of a flag and its value, and a last flag without one.\<close>

fun cmd_options :: "string list \<Rightarrow> (string \<times> string option) list" where
  "cmd_options [] = []"
| "cmd_options [f] = [(f, None)]"
| "cmd_options (f # v # r) = (f, Some v) # cmd_options r"

text \<open>What a command tells the simulator about its case.\<close>

definition command_ok :: "string \<Rightarrow> string list \<Rightarrow> run_case \<Rightarrow> bool" where
  "command_ok bin cmd c \<longleftrightarrow> (case cmd of [] \<Rightarrow> False | b # args \<Rightarrow>
     b = bin
     \<and> map_of (cmd_options args) ''-t''
         = Some (case (float_to_int (c_stop_time c) :: int result) of Inr t \<Rightarrow> Some (dec_int t) | Inl _ \<Rightarrow> None)
     \<and> map_of (cmd_options args) ''-s'' = Some (Some (c_scheduler_cli c))
     \<and> map_of (cmd_options args) ''-w'' = Some (Some (c_workload_cli c))
     \<and> map_of (cmd_options args) ''-c'' = Some (Some (dec_int (c_cores c)))
     \<and> map_of (cmd_options args) ''-n'' = Some (Some (dec_int (c_num_tasks c)))
     \<and> map_of (cmd_options args) ''-r'' = Some (Some (dec_int (c_replications c)))
     \<and> map_of (cmd_options args) ''--seed'' = Some (Some (dec_int (c_seed c)))
     \<and> map_of (cmd_options args) ''--run-id'' = Some (Some (c_run_id c))
     \<and> map_of (cmd_options args) ''--artifact-dir'' = Some (Some (c_artifact_dir c))
     \<and> (map_of (cmd_options args) ''-b'' \<noteq> None \<longleftrightarrow> c_topology c = JStr ''mq'')
     \<and> (map_of (cmd_options args) ''--no-steal'' \<noteq> None \<longleftrightarrow> c_work_stealing c = JBool False))"

lemma strict_command:
  assumes "strict_case c" and "py_getitem suite ''suite_id'' = (Inr (JStr sid) :: json result)"
    and "py_getitem suite ''benchmark_version'' = (Inr (JStr bv) :: json result)"
  shows "\<exists>cmd. bind_res (build_command bin suite c) command_strings = Inr cmd \<and> command_ok bin cmd c"
  using assms
  by (auto simp: strict_case_def strict_members_def is_jbool_iff build_command_def command_ok_def)


definition sample_strict_env :: plan_env where
  "sample_strict_env = (sample_env True)\<lparr>e_suite := sample_suite sample_exps\<rparr>"


section \<open>What the runner's own validator lets through\<close>

text \<open>The outcome of planning one run of a suite, and the last arguments of its command.\<close>

definition plan_one :: "json \<Rightarrow> run_case list result" where
  "plan_one run = build_run_plan (\<lambda>_. []) (sample_env True) [sample_experiment ''e1'' [] [run]]"

definition one_suite :: "json \<Rightarrow> json" where
  "one_suite run = sample_suite [sample_experiment ''e1'' [] [run]]"

definition plan_one_args :: "json \<Rightarrow> (string \<times> string option) list" where
  "plan_one_args run = (case plan_one run of
      Inr [c] \<Rightarrow> (case bind_res (build_command ''sim'' (one_suite run) c) command_strings of
          Inr (b # args) \<Rightarrow> cmd_options args | _ \<Rightarrow> [])
    | _ \<Rightarrow> [])"

definition endless_run :: json where
  "endless_run = JObj [(''workload'', JStr ''desktop''), (''cores'', JInt 4), (''num_tasks'', JInt 100),
     (''stop_time'', JFloat PosInf), (''topology'', JStr ''sq'')]"


section \<open>The selection of experiments\<close>

lemma exp_wanted_True:
  "exp_wanted wanted ex = Inr b \<Longrightarrow> b \<longleftrightarrow> obj_field ex ''id'' \<in> JStr ` set wanted"
  by (cases ex) (auto simp: exp_wanted_def in_str_set_def res_simps obj_field_def)

lemma marked_filter:
  assumes "map_res (\<lambda>ex. bind_res (exp_wanted wanted ex) (\<lambda>b. Inr (b, ex))) exps = Inr marked"
  shows "map snd (filter fst marked) = filter (\<lambda>ex. obj_field ex ''id'' \<in> JStr ` set wanted) exps"
  using assms
proof (induction exps arbitrary: marked)
  case (Cons ex exps)
  then obtain b rest where "exp_wanted wanted ex = Inr b" "marked = (b, ex) # rest"
    "map_res (\<lambda>ex. bind_res (exp_wanted wanted ex) (\<lambda>b. Inr (b, ex))) exps = Inr rest"
    by (auto simp: res_simps)
  with Cons.IH exp_wanted_True show ?case by auto
qed simp

text \<open>
  A selection keeps exactly the experiments with a wanted id, in the order of the suite, and
  every wanted id is the id of one of them: a selection never silently drops a name.
\<close>

theorem pick_experiments_exact:
  assumes "pick_experiments exps only = Inr picked" and "py_strip only \<noteq> []"
  shows "picked = filter (\<lambda>ex. obj_field ex ''id'' \<in> JStr ` set (wanted_ids only)) exps
    \<and> (\<forall>w\<in>set (wanted_ids only). \<exists>ex\<in>set picked. obj_field ex ''id'' = JStr w)"
proof -
  from assms obtain marked
    where marked: "map_res (\<lambda>ex. bind_res (exp_wanted (wanted_ids only) ex) (\<lambda>b. Inr (b, ex))) exps = Inr marked"
      and rest: "picked = map snd (filter fst marked)"
      "filter (\<lambda>w. JStr w \<notin> (\<lambda>ex. obj_field ex ''id'') ` set picked) (wanted_ids only) = []"
    by (auto simp: pick_experiments_def Let_def res_simps split: if_splits)
  from rest(2) have "\<exists>ex\<in>set picked. obj_field ex ''id'' = JStr w" if "w \<in> set (wanted_ids only)" for w
    using that by (fastforce simp: filter_empty_conv)
  with rest(1) marked_filter [OF marked] show ?thesis by simp
qed

theorem pick_experiments_exact_witness:
  "[sample_experiment ''e2'' [] []]
     = filter (\<lambda>ex. obj_field ex ''id'' \<in> JStr ` set (wanted_ids '' e2 ,''))
         [sample_experiment ''e1'' [] [], sample_experiment ''e2'' [] []]"
proof -
  have "pick_experiments [sample_experiment ''e1'' [] [], sample_experiment ''e2'' [] []] '' e2 ,''
      = Inr [sample_experiment ''e2'' [] []]" by code_simp
  moreover have "py_strip '' e2 ,'' \<noteq> []" by code_simp
  ultimately show ?thesis using pick_experiments_exact by blast
qed

end
