(* ===== verification/Runner.thy ===== *)
theory Runner
  imports RunPlan
begin

text \<open>
  \<open>execute_plan\<close>, \<open>write_summary\<close>, \<open>maybe_generate_manifests\<close>, \<open>load_suite\<close> and
  \<open>main\<close> of \<open>benchmark/runner/run_suite.py\<close>.

  The operating system is a record of functions on a state of the world, a parameter of every
  definition: running a process (its return code and what it does to the world), removing a
  directory, writing the summary, running the manifest script, and the existence of a path.
  What is printed, the time stamp of the summary and the log files are not modelled.
\<close>

section \<open>Data\<close>

datatype case_status = Planned | Pending | Ok | Failed

record case_result =
  cr_case_index :: nat
  cr_run_id :: string
  cr_experiments :: "json list"
  cr_command :: "string list"
  cr_log_path :: string
  cr_status :: case_status
  cr_return_code :: "int option"

record exec_summary =
  x_suite_id :: json
  x_benchmark_version :: json
  x_binary :: string
  x_dry_run :: bool
  x_total_cases :: nat
  x_cases :: "case_result list"
  x_stopped_early :: bool
  x_failed_case_index :: "nat option"
  x_failed_run_id :: "string option"
  x_ok :: nat
  x_failed :: nat
  x_planned_only :: nat

record 'w os =
  os_run :: "string list \<Rightarrow> 'w \<Rightarrow> int \<times> 'w"
  os_exists :: "string \<Rightarrow> 'w \<Rightarrow> bool"
  os_rmtree :: "string \<Rightarrow> 'w \<Rightarrow> 'w"
  os_write_summary :: "string \<Rightarrow> exec_summary \<Rightarrow> 'w \<Rightarrow> 'w"
  os_manifests :: "string \<Rightarrow> 'w \<Rightarrow> 'w"

text \<open>The arguments of \<open>execute_plan\<close> and the constant \<open>ROOT_DIR\<close>.\<close>

record exec_env =
  v_suite :: json
  v_bin_path :: string
  v_runs_dir :: string
  v_dry_run :: bool
  v_continue_on_error :: bool
  v_root_dir :: string


section \<open>Executing the plan\<close>

text \<open>\<open>str(p.relative_to(base))\<close>; a path outside of \<open>base\<close> is a \<open>ValueError\<close>.\<close>

definition relative_to :: "string \<Rightarrow> string \<Rightarrow> string result" where
  "relative_to base p =
     (if prefix (path_join base []) p then Inr (drop (length (path_join base [])) p)
      else Inl ConvErr)"

definition log_path :: "exec_env \<Rightarrow> run_case \<Rightarrow> string" where
  "log_path v c = path_join (path_join (path_join (v_runs_dir v) ''logs'') ''suite_runner'')
     (c_run_id c @ ''.log'')"

text \<open>\<open>case_result\<close> before the process is started.\<close>

definition new_result :: "exec_env \<Rightarrow> run_case \<Rightarrow> case_result result" where
  "new_result v c =
     bind_res (bind_res (build_command (v_bin_path v) (v_suite v) c) command_strings) (\<lambda>cmd.
     bind_res (relative_to (v_root_dir v) (log_path v c)) (\<lambda>p.
     Inr \<lparr>cr_case_index = c_case_index c, cr_run_id = c_run_id c, cr_experiments = c_experiments c,
          cr_command = cmd, cr_log_path = p,
          cr_status = (if v_dry_run v then Planned else Pending), cr_return_code = None\<rparr>))"

definition finish_result :: "int \<Rightarrow> case_result \<Rightarrow> case_result" where
  "finish_result rc r = r\<lparr>cr_return_code := Some rc, cr_status := (if rc = 0 then Ok else Failed)\<rparr>"

definition add_case :: "case_result \<Rightarrow> exec_summary \<Rightarrow> exec_summary" where
  "add_case r s = s\<lparr>x_cases := x_cases s @ [r]\<rparr>"

definition stop_early :: "nat \<Rightarrow> run_case \<Rightarrow> exec_summary \<Rightarrow> exec_summary" where
  "stop_early idx c s = s\<lparr>x_stopped_early := True, x_failed_case_index := Some idx,
     x_failed_run_id := Some (c_run_id c)\<rparr>"

text \<open>The loop; \<open>break\<close> is the branch without a recursive call.\<close>

fun exec_loop ::
  "'w os \<Rightarrow> exec_env \<Rightarrow> (nat \<times> run_case) list \<Rightarrow> exec_summary \<Rightarrow> 'w
     \<Rightarrow> exec_summary result \<times> 'w"
where
  "exec_loop os v [] s w = (Inr s, w)"
| "exec_loop os v ((idx, c) # cs) s w =
     (case new_result v c of
        Inl e \<Rightarrow> (Inl e, w)
      | Inr r \<Rightarrow>
          if v_dry_run v then exec_loop os v cs (add_case r s) w
          else (let (rc, w') = os_run os (cr_command r) w; r' = finish_result rc r
                in if rc \<noteq> 0 \<and> \<not> v_continue_on_error v
                   then (Inr (stop_early idx c (add_case r' s)), w')
                   else exec_loop os v cs (add_case r' s) w'))"

definition new_summary :: "exec_env \<Rightarrow> run_case list \<Rightarrow> exec_summary result" where
  "new_summary v plan =
     bind_res (py_getitem (v_suite v) ''suite_id'') (\<lambda>sid.
     bind_res (py_getitem (v_suite v) ''benchmark_version'') (\<lambda>bv.
     Inr \<lparr>x_suite_id = sid, x_benchmark_version = bv, x_binary = v_bin_path v,
          x_dry_run = v_dry_run v, x_total_cases = length plan, x_cases = [],
          x_stopped_early = False, x_failed_case_index = None, x_failed_run_id = None,
          x_ok = 0, x_failed = 0, x_planned_only = 0\<rparr>))"

definition count_status :: "case_status \<Rightarrow> case_result list \<Rightarrow> nat" where
  "count_status st cs = length (filter (\<lambda>r. cr_status r = st) cs)"

definition count_cases :: "exec_summary \<Rightarrow> exec_summary" where
  "count_cases s = s\<lparr>x_ok := count_status Ok (x_cases s),
     x_failed := count_status Failed (x_cases s),
     x_planned_only := count_status Planned (x_cases s)\<rparr>"

definition execute_plan ::
  "'w os \<Rightarrow> exec_env \<Rightarrow> run_case list \<Rightarrow> 'w \<Rightarrow> exec_summary result \<times> 'w" where
  "execute_plan os v plan w =
     (case new_summary v plan of
        Inl e \<Rightarrow> (Inl e, w)
      | Inr s \<Rightarrow> (case exec_loop os v (enumerate 1 plan) s w of
            (Inl e, w') \<Rightarrow> (Inl e, w')
          | (Inr s', w') \<Rightarrow> (Inr (count_cases s'), w')))"


section \<open>The program\<close>

record suite_args =
  a_bin :: string
  a_runs_dir :: string
  a_only_experiments :: string
  a_scheduler :: "string option"
  a_replications :: "int option"
  a_seed_base :: "int option"
  a_no_dedupe :: bool
  a_dry_run :: bool
  a_continue_on_error :: bool
  a_generate_manifests :: bool
  a_clean_suite_dir :: bool
  a_root_dir :: string

text \<open>\<open>file\<close> is what reading and parsing the suite file gives, \<open>None\<close> if there is no file.\<close>

definition load_suite :: "(json \<Rightarrow> string) \<Rightarrow> json result option \<Rightarrow> registry \<Rightarrow> json result" where
  "load_suite rp file reg = (case file of
      None \<Rightarrow> Inl (Fail SuiteNotFound)
    | Some parsed \<Rightarrow> bind_res parsed (\<lambda>doc. bind_res (validate_suite rp reg doc) (\<lambda>_. Inr doc)))"

text \<open>The first half of \<open>main\<close>: everything up to the plan.\<close>

definition prepare ::
  "(json \<Rightarrow> string) \<Rightarrow> suite_args \<Rightarrow> bool \<Rightarrow> registry result \<Rightarrow> json result option
     \<Rightarrow> (json \<times> run_case list) result"
where
  "prepare rp a bin_exists registry file =
     bind_res (ensure bin_exists (Fail BinaryNotFound)) (\<lambda>_.
     bind_res registry (\<lambda>reg.
     bind_res (load_suite rp file reg) (\<lambda>suite.
     bind_res (py_getitem suite ''experiments'') (\<lambda>exps.
     bind_res (pick_experiments (list_items exps) (a_only_experiments a)) (\<lambda>selected.
     bind_res (py_getitem suite ''defaults'') (\<lambda>defaults.
     bind_res (case a_scheduler a of
         Some (c # cs) \<Rightarrow> Inr (JStr (c # cs))
       | _ \<Rightarrow> py_getitem defaults ''scheduler'') (\<lambda>scheduler.
     case resolve_scheduler reg (py_str rp scheduler) of
       None \<Rightarrow> Inl (Fail (UnknownScheduler (py_str rp scheduler)))
     | Some sp \<Rightarrow>
         bind_res (case a_replications a of
             Some n \<Rightarrow> Inr n
           | None \<Rightarrow> bind_res (py_getitem defaults ''replications'') py_int) (\<lambda>replications.
         bind_res (case a_seed_base a of
             Some n \<Rightarrow> Inr n
           | None \<Rightarrow> bind_res (py_getitem defaults ''seed_base'') py_int) (\<lambda>seed_base.
         bind_res (ensure (1 \<le> replications) (Fail BadReplications)) (\<lambda>_.
         bind_res (ensure (1 \<le> seed_base) (Fail BadSeedBase)) (\<lambda>_.
         bind_res (build_run_plan rp
             \<lparr>e_suite = suite, e_dedupe = \<not> a_no_dedupe a, e_scheduler_key = p_key sp,
              e_replications = replications, e_seed_base = seed_base,
              e_runs_dir = a_runs_dir a, e_registry = reg\<rparr> selected) (\<lambda>plan.
         bind_res (ensure (plan \<noteq> []) (Fail NoRuns)) (\<lambda>_.
         Inr (suite, plan))))))))))))))"

definition summary_path :: "string \<Rightarrow> string \<Rightarrow> string" where
  "summary_path runs_dir suite_dir =
     path_join (path_join runs_dir ''manifests'') (suite_dir @ ''.execution_summary.json'')"

text \<open>The second half: the old artifacts, the execution, the summary and the manifests.\<close>

definition perform ::
  "'w os \<Rightarrow> suite_args \<Rightarrow> json \<Rightarrow> run_case list \<Rightarrow> 'w \<Rightarrow> exec_summary result \<times> 'w"
where
  "perform os a suite plan w =
     (case bind_res (py_getitem suite ''suite_id'') sanitize_value of
        Inl e \<Rightarrow> (Inl e, w)
      | Inr dir \<Rightarrow>
          (let out = path_join (a_runs_dir a) dir;
               w1 = (if a_clean_suite_dir a \<and> os_exists os out w \<and> \<not> a_dry_run a
                     then os_rmtree os out w else w)
           in case execute_plan os
                 \<lparr>v_suite = suite, v_bin_path = a_bin a, v_runs_dir = a_runs_dir a,
                  v_dry_run = a_dry_run a, v_continue_on_error = a_continue_on_error a,
                  v_root_dir = a_root_dir a\<rparr> plan w1 of
                (Inl e, w2) \<Rightarrow> (Inl e, w2)
              | (Inr s, w2) \<Rightarrow>
                  (let w3 = os_write_summary os (summary_path (a_runs_dir a) dir) s w2;
                       script = path_join (path_join (a_root_dir a) ''scripts'') ''generate_run_manifests.py'';
                       w4 = (if a_generate_manifests a \<and> \<not> a_dry_run a \<and> os_exists os script w3
                             then os_manifests os (a_runs_dir a) w3 else w3)
                   in (if 0 < x_failed s then Inl (Fail RunsFailed) else Inr s, w4))))"

definition run_main ::
  "(json \<Rightarrow> string) \<Rightarrow> 'w os \<Rightarrow> suite_args \<Rightarrow> registry result \<Rightarrow> json result option \<Rightarrow> 'w
     \<Rightarrow> exec_summary result \<times> 'w"
where
  "run_main rp os a registry file w =
     (case prepare rp a (os_exists os (a_bin a) w) registry file of
        Inl e \<Rightarrow> (Inl e, w)
      | Inr (suite, plan) \<Rightarrow> perform os a suite plan w)"

text \<open>Every exception ends the process with status 1.\<close>

definition exit_code :: "'a result \<Rightarrow> int" where
  "exit_code r = (case r of Inl _ \<Rightarrow> 1 | Inr _ \<Rightarrow> 0)"

section \<open>The loop as a step relation\<close>

text \<open>
  A state is the cases that are left, the summary so far and the world. A step executes one
  case; the last rule leaves nothing to do, which is the \<open>break\<close>.
\<close>

type_synonym 'w exec_state = "(nat \<times> run_case) list \<times> exec_summary \<times> 'w"

inductive exec_step :: "'w os \<Rightarrow> exec_env \<Rightarrow> 'w exec_state \<Rightarrow> 'w exec_state \<Rightarrow> bool"
  for os v
where
  step_dry: "new_result v c = Inr r \<Longrightarrow> v_dry_run v
    \<Longrightarrow> exec_step os v ((idx, c) # cs, s, w) (cs, add_case r s, w)"
| step_run: "new_result v c = Inr r \<Longrightarrow> \<not> v_dry_run v \<Longrightarrow> os_run os (cr_command r) w = (rc, w')
    \<Longrightarrow> rc = 0 \<or> v_continue_on_error v
    \<Longrightarrow> exec_step os v ((idx, c) # cs, s, w) (cs, add_case (finish_result rc r) s, w')"
| step_stop: "new_result v c = Inr r \<Longrightarrow> \<not> v_dry_run v \<Longrightarrow> os_run os (cr_command r) w = (rc, w')
    \<Longrightarrow> rc \<noteq> 0 \<Longrightarrow> \<not> v_continue_on_error v
    \<Longrightarrow> exec_step os v ((idx, c) # cs, s, w) ([], stop_early idx c (add_case (finish_result rc r) s), w')"

inductive_simps exec_step_Nil [simp]: "exec_step os v ([], s, w) st"

text \<open>The loop returns a summary exactly when the steps lead to it.\<close>

lemma exec_loop_steps:
  "exec_loop os v cs s w = (Inr s', w') \<Longrightarrow> (exec_step os v)\<^sup>*\<^sup>* (cs, s, w) ([], s', w')"
proof (induction os v cs s w rule: exec_loop.induct)
  case (2 os v idx c cs s w)
  from 2(3) obtain r where r: "new_result v c = Inr r" by (auto split: sum.splits)
  obtain rc w1 where rc: "os_run os (cr_command r) w = (rc, w1)" by force
  consider (dry) "v_dry_run v" | (go) "\<not> v_dry_run v" "rc = 0 \<or> v_continue_on_error v"
    | (stop) "\<not> v_dry_run v" "rc \<noteq> 0" "\<not> v_continue_on_error v" by blast
  then show ?case
  proof cases
    case dry
    with 2 r have "(exec_step os v)\<^sup>*\<^sup>* (cs, add_case r s, w) ([], s', w')" by simp
    with step_dry [OF r dry] show ?thesis by (meson converse_rtranclp_into_rtranclp)
  next
    case go
    with 2 r rc have "(exec_step os v)\<^sup>*\<^sup>* (cs, add_case (finish_result rc r) s, w1) ([], s', w')"
      by (auto split: if_splits)
    with step_run [OF r go(1) rc go(2)] show ?thesis by (meson converse_rtranclp_into_rtranclp)
  next
    case stop
    with 2 r rc have "s' = stop_early idx c (add_case (finish_result rc r) s)" "w' = w1" by auto
    with step_stop [OF r stop(1) rc stop(2,3)] show ?thesis by blast
  qed
qed simp

lemma steps_exec_loop:
  "(exec_step os v)\<^sup>*\<^sup>* (cs, s, w) ([], s', w') \<Longrightarrow> exec_loop os v cs s w = (Inr s', w')"
proof (induction cs arbitrary: s w)
  case Nil
  then show ?case by (auto elim: converse_rtranclpE)
next
  case (Cons ic cs)
  obtain idx c where ic: "ic = (idx, c)" by force
  from Cons.prems ic obtain st where st: "exec_step os v ((idx, c) # cs, s, w) st"
    "(exec_step os v)\<^sup>*\<^sup>* st ([], s', w')" by (auto elim: converse_rtranclpE)
  from st(1) show ?case
  proof cases
    case (step_stop r rc w'')
    with st(2) have "s' = stop_early idx c (add_case (finish_result rc r) s)" "w' = w''"
      by (auto elim: converse_rtranclpE)
    with step_stop ic show ?thesis by simp
  qed (use Cons.IH st(2) ic in \<open>auto\<close>)
qed

text \<open>
  The invariant of the loop: the results so far are those of the first cases of the plan, in
  order; a dry run only plans; without \<open>--continue-on-error\<close> every case before the last has
  succeeded, and the flag for the early stop is set exactly when the last one has failed.
\<close>

definition exec_inv ::
  "exec_env \<Rightarrow> run_case list \<Rightarrow> (nat \<times> run_case) list \<Rightarrow> exec_summary \<Rightarrow> bool" where
  "exec_inv v plan cs s \<longleftrightarrow>
     (let n = length (x_cases s) in
        n \<le> length plan \<and> x_total_cases s = length plan \<and> x_dry_run s = v_dry_run v
        \<and> map cr_run_id (x_cases s) = take n (map c_run_id plan)
        \<and> map cr_case_index (x_cases s) = take n (map c_case_index plan)
        \<and> map cr_experiments (x_cases s) = take n (map c_experiments plan)
        \<and> py_getitem (v_suite v) ''suite_id'' = (Inr (x_suite_id s) :: json result)
        \<and> (v_dry_run v \<longrightarrow> (\<forall>r\<in>set (x_cases s). cr_status r = Planned))
        \<and> (\<not> v_dry_run v \<longrightarrow> (\<forall>r\<in>set (x_cases s). cr_status r = Ok \<or> cr_status r = Failed))
        \<and> (if x_stopped_early s
           then cs = [] \<and> \<not> v_dry_run v \<and> \<not> v_continue_on_error v
             \<and> (\<exists>rs r. x_cases s = rs @ [r] \<and> cr_status r = Failed \<and> (\<forall>r\<in>set rs. cr_status r = Ok)
                  \<and> x_failed_case_index s = Some n \<and> x_failed_run_id s = Some (cr_run_id r))
           else cs = drop n (enumerate 1 plan)
             \<and> x_failed_case_index s = None \<and> x_failed_run_id s = None
             \<and> (\<not> v_dry_run v \<and> \<not> v_continue_on_error v \<longrightarrow> (\<forall>r\<in>set (x_cases s). cr_status r = Ok))))"

lemma new_result_simps:
  "new_result v c = Inr r \<Longrightarrow> cr_run_id r = c_run_id c \<and> cr_case_index r = c_case_index c
     \<and> cr_experiments r = c_experiments c \<and> cr_status r = (if v_dry_run v then Planned else Pending)"
  by (auto simp: new_result_def res_simps)

lemma finish_result_simps [simp]:
  "cr_run_id (finish_result rc r) = cr_run_id r" "cr_case_index (finish_result rc r) = cr_case_index r"
  "cr_command (finish_result rc r) = cr_command r" "cr_experiments (finish_result rc r) = cr_experiments r"
  "cr_log_path (finish_result rc r) = cr_log_path r"
  "cr_status (finish_result rc r) = (if rc = 0 then Ok else Failed)"
  by (simp_all add: finish_result_def)

lemma drop_enumerate_Cons:
  assumes "(idx, c) # cs = drop n (enumerate 1 xs)"
  shows "n < length xs \<and> c = xs ! n \<and> idx = Suc n \<and> cs = drop (Suc n) (enumerate 1 xs)"
proof -
  from assms have n: "n < length (enumerate 1 xs)"
    by (metis drop_all list.distinct(1) not_le)
  with assms have "(idx, c) = enumerate 1 xs ! n" "cs = drop (Suc n) (enumerate 1 xs)"
    by (metis Cons_nth_drop_Suc list.inject)+
  with n show ?thesis by (simp add: nth_enumerate_eq)
qed

lemma exec_inv_open:
  assumes "exec_inv v plan ((idx, c) # cs) s"
  shows "\<not> x_stopped_early s" and "length (x_cases s) < length plan"
    and "c = plan ! length (x_cases s)" and "idx = Suc (length (x_cases s))"
    and "cs = drop (Suc (length (x_cases s))) (enumerate 1 plan)"
proof -
  from assms show "\<not> x_stopped_early s" by (auto simp: exec_inv_def Let_def)
  with assms have "(idx, c) # cs = drop (length (x_cases s)) (enumerate 1 plan)"
    by (simp add: exec_inv_def Let_def)
  from drop_enumerate_Cons [OF this] show "length (x_cases s) < length plan"
    "c = plan ! length (x_cases s)" "idx = Suc (length (x_cases s))"
    "cs = drop (Suc (length (x_cases s))) (enumerate 1 plan)" by simp_all
qed

lemma exec_inv_step:
  assumes "exec_step os v st st'" and "exec_inv v plan (fst st) (fst (snd st))"
  shows "exec_inv v plan (fst st') (fst (snd st'))"
  using assms
proof (induction rule: exec_step.induct)
  case (step_dry c r idx cs s w)
  then have inv: "exec_inv v plan ((idx, c) # cs) s" by simp
  note nxt = exec_inv_open [OF inv]
  from inv nxt step_dry new_result_simps [OF step_dry(1)] show ?case
    by (auto simp: exec_inv_def Let_def add_case_def take_Suc_conv_app_nth)
next
  case (step_run c r w rc w' idx cs s)
  then have inv: "exec_inv v plan ((idx, c) # cs) s" by simp
  note nxt = exec_inv_open [OF inv]
  from inv nxt step_run new_result_simps [OF step_run(1)] show ?case
    by (auto simp: exec_inv_def Let_def add_case_def take_Suc_conv_app_nth)
next
  case (step_stop c r w rc w' idx cs s)
  then have inv: "exec_inv v plan ((idx, c) # cs) s" by simp
  note nxt = exec_inv_open [OF inv]
  from inv nxt step_stop new_result_simps [OF step_stop(1)] show ?case
    by (auto simp: exec_inv_def Let_def add_case_def stop_early_def take_Suc_conv_app_nth)
qed

lemma exec_inv_steps:
  assumes "(exec_step os v)\<^sup>*\<^sup>* st st'" and "exec_inv v plan (fst st) (fst (snd st))"
  shows "exec_inv v plan (fst st') (fst (snd st'))"
  using assms by (induction rule: rtranclp_induct) (auto intro: exec_inv_step)

section \<open>What an execution reports\<close>

lemma exec_start_inv: "new_summary v plan = Inr s0 \<Longrightarrow> exec_inv v plan (enumerate 1 plan) s0"
  by (auto simp: new_summary_def res_simps exec_inv_def)

lemma execute_planD:
  assumes "execute_plan os v plan w = (Inr s, w')"
  shows "\<exists>s0 s1. new_summary v plan = Inr s0 \<and> exec_loop os v (enumerate 1 plan) s0 w = (Inr s1, w')
    \<and> s = count_cases s1 \<and> exec_inv v plan [] s1"
proof -
  from assms obtain s0 s1 where s0: "new_summary v plan = Inr s0"
    and loop: "exec_loop os v (enumerate 1 plan) s0 w = (Inr s1, w')" and s: "s = count_cases s1"
    by (auto simp: execute_plan_def split: sum.splits prod.splits)
  from exec_start_inv [OF s0] exec_inv_steps [OF exec_loop_steps [OF loop], of plan] have "exec_inv v plan [] s1" by simp
  with s0 loop s show ?thesis by blast
qed

lemma count_cases_simps [simp]:
  "x_cases (count_cases s) = x_cases s" "x_stopped_early (count_cases s) = x_stopped_early s"
  "x_total_cases (count_cases s) = x_total_cases s" "x_dry_run (count_cases s) = x_dry_run s"
  "x_failed_case_index (count_cases s) = x_failed_case_index s"
  "x_failed_run_id (count_cases s) = x_failed_run_id s" "x_suite_id (count_cases s) = x_suite_id s"
  "x_ok (count_cases s) = count_status Ok (x_cases s)"
  "x_failed (count_cases s) = count_status Failed (x_cases s)"
  "x_planned_only (count_cases s) = count_status Planned (x_cases s)"
  by (simp_all add: count_cases_def)

lemma count_status_all: "(\<forall>r\<in>set cs. cr_status r = st) \<Longrightarrow> count_status st cs = length cs"
  and count_status_none: "(\<forall>r\<in>set cs. cr_status r \<noteq> st) \<Longrightarrow> count_status st cs = 0"
  and count_status_append [simp]: "count_status st (cs @ ds) = count_status st cs + count_status st ds"
  by (simp_all add: count_status_def filter_empty_conv)

lemma count_status_Ok_Failed:
  "(\<forall>r\<in>set cs. cr_status r = Ok \<or> cr_status r = Failed)
   \<Longrightarrow> count_status Ok cs + count_status Failed cs = length cs \<and> count_status Planned cs = 0"
  by (induction cs) (auto simp: count_status_def)

lemma exec_loop_dry: "v_dry_run v \<Longrightarrow> exec_loop os v cs s w = (r, w') \<Longrightarrow> w' = w"
  by (induction os v cs s w rule: exec_loop.induct) (auto split: sum.splits)

text \<open>
  C4. What the summary of an execution says is what happened: its cases are the first cases of
  the plan, in order, and the three counts add up to them. A dry run plans every case and
  leaves the world alone; with \<open>--continue-on-error\<close> every case is run; otherwise the run ends
  at the first failure, which is then the last case, the only failed one, and the one reported,
  or every case has succeeded.
\<close>

theorem execute_plan_outcome:
  assumes "execute_plan os v plan w = (Inr s, w')"
  shows "x_total_cases s = length plan
    \<and> map cr_run_id (x_cases s) = take (length (x_cases s)) (map c_run_id plan)
    \<and> x_ok s + x_failed s + x_planned_only s = length (x_cases s)
    \<and> (if v_dry_run v then x_planned_only s = length plan \<and> \<not> x_stopped_early s \<and> w' = w
       else if v_continue_on_error v then x_ok s + x_failed s = length plan \<and> \<not> x_stopped_early s
       else if x_stopped_early s
       then x_failed s = 1 \<and> x_ok s + 1 = length (x_cases s) \<and> cr_status (last (x_cases s)) = Failed
         \<and> x_failed_case_index s = Some (length (x_cases s))
         \<and> x_failed_run_id s = Some (cr_run_id (last (x_cases s)))
       else x_ok s = length plan)"
proof -
  from execute_planD [OF assms] obtain s0 s1
    where loop: "exec_loop os v (enumerate 1 plan) s0 w = (Inr s1, w')" and s: "s = count_cases s1"
      and inv: "exec_inv v plan [] s1" by blast
  let ?n = "length (x_cases s1)"
  have seq: "x_total_cases s1 = length plan" "?n \<le> length plan"
    "map cr_run_id (x_cases s1) = take ?n (map c_run_id plan)"
    and all: "\<not> x_stopped_early s1 \<longrightarrow> ?n = length plan"
    using inv by (auto simp: exec_inv_def Let_def)
  show ?thesis
  proof (cases "v_dry_run v")
    case True
    with inv have "\<forall>r\<in>set (x_cases s1). cr_status r = Planned" "\<not> x_stopped_early s1"
      by (auto simp: exec_inv_def Let_def split: if_splits)
    with True all seq loop show ?thesis
      by (simp add: s count_status_all count_status_none exec_loop_dry)
  next
    case False
    with inv have st: "\<forall>r\<in>set (x_cases s1). cr_status r = Ok \<or> cr_status r = Failed"
      by (auto simp: exec_inv_def Let_def)
    have stop: "\<not> v_continue_on_error v \<and> (\<exists>rs r. x_cases s1 = rs @ [r] \<and> cr_status r = Failed
        \<and> (\<forall>r\<in>set rs. cr_status r = Ok) \<and> x_failed_case_index s1 = Some ?n
        \<and> x_failed_run_id s1 = Some (cr_run_id r))" if "x_stopped_early s1"
      using inv that by (auto simp: exec_inv_def Let_def)
    have go: "\<not> v_continue_on_error v \<longrightarrow> (\<forall>r\<in>set (x_cases s1). cr_status r = Ok)" if "\<not> x_stopped_early s1"
      using inv that False by (auto simp: exec_inv_def Let_def)
    show ?thesis
    proof (cases "x_stopped_early s1")
      case True
      with stop obtain rs r where "x_cases s1 = rs @ [r]" "cr_status r = Failed"
        "\<forall>r\<in>set rs. cr_status r = Ok" "x_failed_case_index s1 = Some ?n"
        "x_failed_run_id s1 = Some (cr_run_id r)" "\<not> v_continue_on_error v" by blast
      with False True seq show ?thesis
        by (simp add: s count_status_all count_status_none)
    next
      case go': False
      with False all seq go count_status_Ok_Failed [OF st] show ?thesis
        by (simp add: s count_status_all)
    qed
  qed
qed

text \<open>A world for examples: it records the processes and fails every command of a given run.\<close>

definition sample_os :: "string \<Rightarrow> string list list os" where
  "sample_os bad = \<lparr>os_run = \<lambda>cmd w. (if bad \<in> set cmd then 1 else 0, w @ [cmd]),
     os_exists = \<lambda>p w. True, os_rmtree = \<lambda>p w. w @ [[''rm'', p]],
     os_write_summary = \<lambda>p s w. w @ [[''summary'', p]], os_manifests = \<lambda>d w. w @ [[''manifests'', d]]\<rparr>"

definition sample_exec_env :: "bool \<Rightarrow> exec_env" where
  "sample_exec_env go = \<lparr>v_suite = sample_suite [], v_bin_path = ''sim'', v_runs_dir = ''/r/runs'',
     v_dry_run = False, v_continue_on_error = go, v_root_dir = ''/r''\<rparr>"

definition first_run_id :: string where
  "first_run_id = ''demo-001-desktop-4c-n100-t500-sq''"

lemma sample_execution:
  "\<exists>s w'. execute_plan (sample_os first_run_id) (sample_exec_env False) sample_plan [] = (Inr s, w')
    \<and> x_stopped_early s"
  by (simp add: execute_plan_def new_summary_def sample_exec_env_def sample_suite_def sample_plan_def
      sample_case_def new_result_def build_command_def py_getitem.simps relative_to_def log_path_def
      path_join_def sample_os_def first_run_id_def Let_def finish_result_def add_case_def stop_early_def
      count_cases_def)

theorem execute_plan_outcome_witness:
  "\<exists>s w'. execute_plan (sample_os first_run_id) (sample_exec_env False) sample_plan [] = (Inr s, w')
    \<and> x_failed s = 1 \<and> x_failed_case_index s = Some (length (x_cases s))"
proof -
  from sample_execution obtain s w'
    where *: "execute_plan (sample_os first_run_id) (sample_exec_env False) sample_plan [] = (Inr s, w')"
      "x_stopped_early s" by blast
  moreover have "\<not> v_dry_run (sample_exec_env False)" "\<not> v_continue_on_error (sample_exec_env False)"
    by (simp_all add: sample_exec_env_def)
  ultimately show ?thesis using execute_plan_outcome [OF *(1)] by auto
qed


text \<open>The processes of a real run, in order.\<close>

definition run_processes :: "'w os \<Rightarrow> case_result list \<Rightarrow> 'w \<Rightarrow> 'w" where
  "run_processes os rs w = fold (\<lambda>r w. snd (os_run os (cr_command r) w)) rs w"

definition result_of :: "exec_env \<Rightarrow> case_result \<Rightarrow> run_case \<Rightarrow> bool" where
  "result_of v r c \<longleftrightarrow>
     bind_res (build_command (v_bin_path v) (v_suite v) c) command_strings = Inr (cr_command r)
     \<and> cr_run_id r = c_run_id c \<and> cr_experiments r = c_experiments c"

lemma new_result_of: "new_result v c = Inr r \<Longrightarrow> result_of v r c \<and> result_of v (finish_result rc r) c"
  by (auto simp: new_result_def result_of_def finish_result_def res_simps)

lemma exec_loop_world:
  assumes "exec_loop os v cs s w = (Inr s', w')" and "\<not> v_dry_run v"
  shows "\<exists>rs. x_cases s' = x_cases s @ rs \<and> w' = run_processes os rs w
    \<and> list_all2 (\<lambda>r c. result_of v r (snd c)) rs (take (length rs) cs)"
  using assms(1)
proof (induction cs arbitrary: s w)
  case (Cons ic cs)
  obtain idx c where ic: "ic = (idx, c)" by force
  from Cons.prems ic obtain r where r: "new_result v c = Inr r" by (auto split: sum.splits)
  obtain rc w1 where rc: "os_run os (cr_command r) w = (rc, w1)" by force
  show ?case
  proof (cases "rc \<noteq> 0 \<and> \<not> v_continue_on_error v")
    case True
    with Cons.prems ic r rc assms(2) have "x_cases s' = x_cases s @ [finish_result rc r]" "w' = w1"
      by (auto simp: stop_early_def add_case_def)
    with new_result_of [OF r] rc ic show ?thesis
      by (intro exI [of _ "[finish_result rc r]"]) (simp add: run_processes_def)
  next
    case False
    with Cons.prems ic r rc assms(2)
    have "exec_loop os v cs (add_case (finish_result rc r) s) w1 = (Inr s', w')"
      by (auto split: if_splits)
    from Cons.IH [OF this] obtain rs where rs: "x_cases s' = x_cases (add_case (finish_result rc r) s) @ rs"
      "w' = run_processes os rs w1" "list_all2 (\<lambda>r c. result_of v r (snd c)) rs (take (length rs) cs)"
      by blast
    with new_result_of [OF r] rc ic show ?thesis
      by (intro exI [of _ "finish_result rc r # rs"]) (simp add: run_processes_def add_case_def)
  qed
qed (auto simp: run_processes_def)

text \<open>
  A real run starts exactly the reported processes: the world at the end is the one after
  the commands of the reported cases, in that order, and the command of each is that of its
  case in the plan.
\<close>

theorem execute_plan_world:
  assumes "execute_plan os v plan w = (Inr s, w')" and "\<not> v_dry_run v"
  shows "w' = run_processes os (x_cases s) w
    \<and> list_all2 (result_of v) (x_cases s) (take (length (x_cases s)) plan)"
proof -
  from execute_planD [OF assms(1)] obtain s0 s1 where s0: "new_summary v plan = Inr s0"
    and loop: "exec_loop os v (enumerate 1 plan) s0 w = (Inr s1, w')" and s: "s = count_cases s1"
    by blast
  from exec_loop_world [OF loop assms(2)] s0
  have "w' = run_processes os (x_cases s1) w"
    and "list_all2 (\<lambda>r c. result_of v r (snd c)) (x_cases s1) (take (length (x_cases s1)) (enumerate 1 plan))"
    by (auto simp: new_summary_def res_simps)
  moreover have "map snd (take n (enumerate 1 plan)) = take n plan" for n
    by (simp flip: take_map)
  ultimately show ?thesis
    using s by (metis count_cases_simps(1) list_all2_map2)
qed

theorem execute_plan_world_witness:
  "\<exists>s w'. execute_plan (sample_os first_run_id) (sample_exec_env False) sample_plan [] = (Inr s, w')
    \<and> w' = run_processes (sample_os first_run_id) (x_cases s) []"
proof -
  from sample_execution obtain s w'
    where *: "execute_plan (sample_os first_run_id) (sample_exec_env False) sample_plan [] = (Inr s, w')"
    by blast
  moreover have "\<not> v_dry_run (sample_exec_env False)" by (simp add: sample_exec_env_def)
  ultimately show ?thesis using execute_plan_world [OF *] by blast
qed

section \<open>What the program does\<close>

lemma execute_plan_dry: "v_dry_run v \<Longrightarrow> execute_plan os v plan w = (r, w') \<Longrightarrow> w' = w"
  by (auto simp: execute_plan_def dest: exec_loop_dry split: sum.splits prod.splits)

text \<open>
  C39. \<open>--dry-run\<close> is safe: whatever the suite and the other options are, it starts no process,
  removes no directory and generates no manifests. The world at the end is the one before, or
  that with the summary written to it.
\<close>

theorem dry_run_safe:
  assumes "a_dry_run a"
  shows "snd (run_main rp os a registry file w) = w
    \<or> (\<exists>path s. snd (run_main rp os a registry file w) = os_write_summary os path s w
        \<and> x_dry_run s \<and> x_planned_only s = x_total_cases s)"
proof (cases "prepare rp a (os_exists os (a_bin a) w) registry file")
  case (Inr sp)
  then obtain suite plan where p: "prepare rp a (os_exists os (a_bin a) w) registry file = Inr (suite, plan)"
    by (cases sp) simp
  show ?thesis
  proof (cases "bind_res (py_getitem suite ''suite_id'') sanitize_value :: string result")
    case (Inr dir)
    let ?v = "\<lparr>v_suite = suite, v_bin_path = a_bin a, v_runs_dir = a_runs_dir a,
       v_dry_run = a_dry_run a, v_continue_on_error = a_continue_on_error a, v_root_dir = a_root_dir a\<rparr>"
    obtain r w' where ex: "execute_plan os ?v plan w = (r, w')" by force
    with assms have w': "w' = w" using execute_plan_dry [OF _ ex] by simp
    show ?thesis
    proof (cases r)
      case (Inl e)
      with p Inr ex w' assms show ?thesis by (simp add: run_main_def perform_def Let_def)
    next
      case s: (Inr s)
      from execute_planD [OF ex [unfolded s]] assms
      have "x_dry_run s" "x_planned_only s = x_total_cases s" "x_failed s = 0"
        by (auto simp: exec_inv_def Let_def count_status_all count_status_none new_summary_def res_simps
            split: if_splits)
      with p Inr ex w' s assms show ?thesis by (auto simp: run_main_def perform_def Let_def)
    qed
  qed (use p in \<open>simp add: run_main_def perform_def\<close>)
qed (simp add: run_main_def)

definition sample_args :: "bool \<Rightarrow> string \<Rightarrow> suite_args" where
  "sample_args dry runs = \<lparr>a_bin = ''sim'', a_runs_dir = runs, a_only_experiments = [],
     a_scheduler = None, a_replications = Some 2, a_seed_base = None, a_no_dedupe = False,
     a_dry_run = dry, a_continue_on_error = False, a_generate_manifests = True,
     a_clean_suite_dir = True, a_root_dir = ''/r''\<rparr>"

theorem dry_run_safe_witness:
  "let out = snd (run_main (\<lambda>_. []) (sample_os first_run_id) (sample_args True ''/r/runs'')
         (Inr sample_registry) (Some (Inr (sample_suite sample_exps))) [])
   in out = [] \<or> (\<exists>p. out = [[''summary'', p]])"
proof -
  have "a_dry_run (sample_args True ''/r/runs'')" by (simp add: sample_args_def)
  from dry_run_safe [OF this, of "\<lambda>_. []" "sample_os first_run_id" "Inr sample_registry"
      "Some (Inr (sample_suite sample_exps))" "[]"]
  show ?thesis by (auto simp: Let_def) (simp add: sample_os_def)
qed

lemma prefix_path_join: "prefix d (path_join d c)"
  by (simp add: path_join_def)

lemma strict_new_result:
  assumes "strict_case c" and "py_getitem (v_suite v) ''suite_id'' = (Inr (JStr sid) :: json result)"
    and "py_getitem (v_suite v) ''benchmark_version'' = (Inr (JStr bv) :: json result)"
    and "prefix (path_join (v_root_dir v) []) (v_runs_dir v)"
  shows "\<exists>r. new_result v c = Inr r"
proof -
  from strict_command [OF assms(1-3)] obtain cmd
    where "bind_res (build_command (v_bin_path v) (v_suite v) c) command_strings = Inr cmd" by blast
  moreover have "prefix (path_join (v_root_dir v) []) (log_path v c)"
    using assms(4) prefix_path_join unfolding log_path_def by (meson prefix_order.trans)
  ultimately show ?thesis by (simp add: new_result_def relative_to_def)
qed

lemma exec_loop_all_ok:
  assumes "\<forall>ic\<in>set cs. \<exists>r. new_result v (snd ic) = Inr r"
    and "v_dry_run v \<or> (\<forall>cmd w. fst (os_run os cmd w) = 0)"
    and "\<forall>r\<in>set (x_cases s). cr_status r \<noteq> Failed"
  shows "\<exists>s' w'. exec_loop os v cs s w = (Inr s', w') \<and> (\<forall>r\<in>set (x_cases s'). cr_status r \<noteq> Failed)
    \<and> length (x_cases s') = length (x_cases s) + length cs"
  using assms
proof (induction cs arbitrary: s w)
  case (Cons ic cs)
  obtain idx c where ic: "ic = (idx, c)" by force
  with Cons.prems(1) obtain r where r: "new_result v c = Inr r" by auto
  obtain rc w1 where rc: "os_run os (cr_command r) w = (rc, w1)" by force
  show ?case
  proof (cases "v_dry_run v")
    case True
    with Cons.prems new_result_simps [OF r] Cons.IH [of "add_case r s" w] show ?thesis
      by (simp add: ic r add_case_def)
  next
    case False
    with Cons.prems rc have "rc = 0" by (metis fst_conv)
    with False Cons.prems rc r Cons.IH [of "add_case (finish_result rc r) s" w1] show ?thesis
      by (simp add: ic add_case_def)
  qed
qed simp

lemma execute_plan_all_ok:
  assumes "\<forall>c\<in>set plan. strict_case c" and "py_getitem (v_suite v) ''suite_id'' = (Inr (JStr sid) :: json result)"
    and "py_getitem (v_suite v) ''benchmark_version'' = (Inr (JStr bv) :: json result)"
    and "prefix (path_join (v_root_dir v) []) (v_runs_dir v)"
    and procs: "v_dry_run v \<or> (\<forall>cmd w. fst (os_run os cmd w) = 0)"
  shows "\<exists>s w'. execute_plan os v plan w = (Inr s, w') \<and> x_failed s = 0
    \<and> map cr_run_id (x_cases s) = map c_run_id plan"
proof -
  from assms(2,3) obtain s0 where s0: "new_summary v plan = Inr s0" "x_cases s0 = []"
    by (simp add: new_summary_def)
  have "\<exists>r. new_result v (snd ic) = Inr r" if "ic \<in> set (enumerate 1 plan)" for ic
    using that assms(1) strict_new_result [OF _ assms(2-4)]
    by (metis image_eqI list.set_map map_snd_enumerate)
  with exec_loop_all_ok [of "enumerate 1 plan" v os s0 w] procs s0(2)
  obtain s1 w' where loop: "exec_loop os v (enumerate 1 plan) s0 w = (Inr s1, w')"
    "\<forall>r\<in>set (x_cases s1). cr_status r \<noteq> Failed" "length (x_cases s1) = length plan" by auto
  with s0 have ex: "execute_plan os v plan w = (Inr (count_cases s1), w')"
    by (simp add: execute_plan_def)
  from exec_start_inv [OF s0(1)] exec_inv_steps [OF exec_loop_steps [OF loop(1)], of plan]
  have "exec_inv v plan [] s1" by simp
  with loop(3) have "map cr_run_id (x_cases s1) = map c_run_id plan"
    by (simp add: exec_inv_def Let_def)
  with ex loop(2) show ?thesis by (simp add: count_status_none)
qed

lemma map_res_length: "map_res f xs = Inr ys \<Longrightarrow> length ys = length xs"
  by (auto simp: map_res_Inr list_all2_lengthD)

lemma plan_nonempty:
  assumes "build_run_plan rp env exps = Inr plan" and ex: "ex \<in> set exps" "experiment_runs ex \<noteq> []"
  shows "plan \<noteq> []"
proof
  assume "plan = []"
  with plan_simulates [OF assms(1)] obtain reqs where reqs: "plan_requests rp env exps = Inr reqs"
    "plan_groups (e_dedupe env) reqs = []" by (auto simp: plan_view_def)
  with plan_groups_size [of "e_dedupe env" reqs] have "plan_requests rp env exps = Inr []" by simp
  then obtain rss where rss: "map_res (experiment_requests rp env) exps = Inr rss" "concat rss = []"
    by (auto simp: plan_requests_def res_simps)
  then obtain rs where rs: "experiment_requests rp env ex = Inr rs" "rs \<in> set rss"
    using ex(1) list_all2_set1 [of _ exps rss ex] by (auto simp: map_res_Inr)
  with rss(2) have "rs = []" by auto
  with rs(1) ex(2) show False
    by (cases ex) (auto simp: experiment_requests_def res_simps list_items_def split: json.splits
        dest!: map_res_length)
qed

lemma pick_subset: "pick_experiments exps only = Inr picked \<Longrightarrow> set picked \<subseteq> set exps"
  by (auto simp: pick_experiments_def Let_def res_simps dest!: marked_filter split: if_splits)


definition calm_os :: "string list list os" where
  "calm_os = (sample_os [])\<lparr>os_run := \<lambda>cmd w. (0, w @ [cmd])\<rparr>"


text \<open>
  A runs directory outside of the repository makes every execution fail, dry or not: the
  log path of the first case is not below the repository, which is a \<open>ValueError\<close>. With
  \<open>--clean-suite-dir\<close> the old artifacts have been deleted before that.
\<close>

theorem outside_runs_dir_fails:
  "run_main (\<lambda>_. []) (sample_os ''none'') (sample_args False ''/tmp/runs'') (Inr sample_registry)
      (Some (Inr (sample_suite sample_exps))) [] = (Inl ConvErr, [[''rm'', ''/tmp/runs/demo'']])"
  by code_simp

end
