(* ===== verification/SuiteIndex.thy ===== *)
theory SuiteIndex
  imports SuiteSpec
begin

text \<open>
  \<open>scripts/aggregate_results.py\<close>, first part: what the aggregation knows about the suites.
  \<open>list_suite_specs\<close> reads the suite documents and follows \<open>reuse_from_experiment\<close>,
  \<open>load_execution_summary_index\<close> reads the summaries that the runner wrote.

  A file is a pair of its path, relative to the repository, and what \<open>load_json\<close> returned
  (\<open>None\<close> for a file that cannot be read or parsed); the files of a directory come sorted.
\<close>

type_synonym 'a ires = "(unit exn, 'a) res"
type_synonym json_file = "string \<times> json option"


section \<open>Resolving reused runs\<close>

type_synonym run_memo = "(json \<times> json list) list"

text \<open>\<open>{exp["id"]: exp for exp in exps if "id" in exp}\<close>; a later entry replaces an earlier one.\<close>

definition index_experiment :: "json \<Rightarrow> (json \<times> json) list \<Rightarrow> (json \<times> json) list ires" where
  "index_experiment ex m =
     bind_res (py_contains ''id'' ex) (\<lambda>b.
     if b then bind_res (py_getitem ex ''id'') (\<lambda>eid.
            bind_res (hash_key eid) (\<lambda>h. Inr (AList.update h ex m)))
     else Inr m)"

definition exp_by_id :: "json list \<Rightarrow> (json \<times> json) list ires" where
  "exp_by_id exps = fold_res index_experiment exps []"

text \<open>The experiment of an id, its own runs and its parent.\<close>

definition own_runs :: "(json \<times> json) list \<Rightarrow> json \<Rightarrow> (json list \<times> json) ires" where
  "own_runs exps h =
     (let ex = (case map_of exps h of Some ex \<Rightarrow> ex | None \<Rightarrow> JObj [])
      in bind_res (bind_res (py_get ex ''runs'' (JList [])) py_iter) (\<lambda>runs.
         bind_res (py_get ex ''reuse_from_experiment'' JNull) (\<lambda>parent. Inr (runs, parent))))"

text \<open>
  The recursive closure with its memo. The first argument is the number of nested calls that
  are left: Python raises \<open>RecursionError\<close> when its limit is reached, which is \<open>None\<close> here.
\<close>

fun resolved_runs ::
  "nat \<Rightarrow> (json \<times> json) list \<Rightarrow> json \<Rightarrow> run_memo \<Rightarrow> (json list \<times> run_memo) ires option"
where
  "resolved_runs 0 exps exp_id memo = None"
| "resolved_runs (Suc n) exps exp_id memo =
     (case hash_key exp_id of
        Inl e \<Rightarrow> Some (Inl e)
      | Inr h \<Rightarrow> (case map_of memo h of
            Some runs \<Rightarrow> Some (Inr (runs, memo))
          | None \<Rightarrow> (case own_runs exps h of
                Inl e \<Rightarrow> Some (Inl e)
              | Inr (runs, parent) \<Rightarrow>
                  if truthy parent
                  then (case resolved_runs n exps parent memo of
                      None \<Rightarrow> None
                    | Some (Inl e) \<Rightarrow> Some (Inl e)
                    | Some (Inr (inherited, memo')) \<Rightarrow> Some (Inr (runs @ inherited, (h, runs @ inherited) # memo')))
                  else Some (Inr (runs, (h, runs) # memo)))))"


section \<open>The suite documents\<close>

record run_def =
  rd_workload :: string
  rd_cores :: int
  rd_num_tasks :: int
  rd_stop_time :: pyfloat
  rd_topology :: json
  rd_balancer :: json
  rd_work_stealing :: string

record suite_spec =
  ss_path :: string
  ss_benchmark_version :: json
  ss_experiments :: "(json \<times> run_def list) list"

definition ws_text :: "json \<Rightarrow> string" where
  "ws_text ws = (if ws = JBool True then ''on'' else if ws = JBool False then ''off'' else ''na'')"

definition normalize_run :: "(json \<Rightarrow> string) \<Rightarrow> json \<Rightarrow> json \<Rightarrow> run_def ires" where
  "normalize_run rp spec run =
     bind_res (bind_res (py_get spec ''defaults'' (JObj []))
       (\<lambda>d. py_get d ''topology'' (JStr ''sq''))) (\<lambda>default_topology.
     bind_res (py_get run ''topology'' default_topology) (\<lambda>topology.
     bind_res (if topology = JStr ''mq'' then py_get run ''balancer'' (JStr ''leastloaded'')
               else Inr (JStr ''na'')) (\<lambda>balancer.
     bind_res (if topology = JStr ''mq'' then py_get run ''work_stealing'' (JBool True)
               else Inr (JStr ''na'')) (\<lambda>ws.
     bind_res (py_get run ''workload'' (JStr [])) (\<lambda>w.
     bind_res (bind_res (py_get run ''cores'' (JInt 0)) py_int) (\<lambda>cores.
     bind_res (bind_res (py_get run ''num_tasks'' (JInt 0)) py_int) (\<lambda>num_tasks.
     bind_res (bind_res (py_get run ''stop_time'' (JFloat (Fin 0))) py_float) (\<lambda>stop_time.
     Inr \<lparr>rd_workload = py_lower (py_str rp w), rd_cores = cores, rd_num_tasks = num_tasks,
          rd_stop_time = stop_time, rd_topology = topology, rd_balancer = balancer,
          rd_work_stealing = ws_text ws\<rparr>))))))))"

text \<open>The loop over the experiments of one document; \<open>None\<close> is the recursion limit.\<close>

fun index_suite_runs ::
  "(json \<Rightarrow> string) \<Rightarrow> nat \<Rightarrow> json \<Rightarrow> (json \<times> json) list \<Rightarrow> json list \<Rightarrow> run_memo
     \<Rightarrow> (json \<times> run_def list) list ires option"
where
  "index_suite_runs rp limit spec exps [] memo = Some (Inr [])"
| "index_suite_runs rp limit spec exps (ex # rest) memo =
     (case py_get ex ''id'' JNull of
        Inl e \<Rightarrow> Some (Inl e)
      | Inr eid \<Rightarrow>
          if \<not> truthy eid then index_suite_runs rp limit spec exps rest memo
          else (case resolved_runs limit exps eid memo of
              None \<Rightarrow> None
            | Some (Inl e) \<Rightarrow> Some (Inl e)
            | Some (Inr (runs, memo')) \<Rightarrow> (case map_res (normalize_run rp spec) runs of
                  Inl e \<Rightarrow> Some (Inl e)
                | Inr defs \<Rightarrow> (case index_suite_runs rp limit spec exps rest memo' of
                      None \<Rightarrow> None
                    | Some (Inl e) \<Rightarrow> Some (Inl e)
                    | Some (Inr out) \<Rightarrow> Some (Inr ((eid, defs) # out))))))"

text \<open>One document: \<open>Inr None\<close> if the loop passes over it.\<close>

definition index_suite ::
  "(json \<Rightarrow> string) \<Rightarrow> nat \<Rightarrow> json_file \<Rightarrow> (json \<times> suite_spec) option ires option" where
  "index_suite rp limit file = (case file of
      (path, Some (JObj kvs)) \<Rightarrow>
        (let spec = JObj kvs; suite_id = dget kvs ''suite_id'' JNull in
         if \<not> truthy suite_id then Some (Inr None)
         else (case py_iter (dget kvs ''experiments'' (JList [])) of
             Inl e \<Rightarrow> Some (Inl e)
           | Inr exps \<Rightarrow> (case exp_by_id exps of
                 Inl e \<Rightarrow> Some (Inl e)
               | Inr m \<Rightarrow> (case index_suite_runs rp limit spec m exps [] of
                     None \<Rightarrow> None
                   | Some (Inl e) \<Rightarrow> Some (Inl e)
                   | Some (Inr out) \<Rightarrow> Some (bind_res (hash_key suite_id) (\<lambda>h.
                       Inr (Some (h, \<lparr>ss_path = path,
                         ss_benchmark_version = dget kvs ''benchmark_version'' (JStr []),
                         ss_experiments = out\<rparr>))))))))
    | _ \<Rightarrow> Some (Inr None))"

fun list_suite_specs ::
  "(json \<Rightarrow> string) \<Rightarrow> nat \<Rightarrow> json_file list \<Rightarrow> (json \<times> suite_spec) list
     \<Rightarrow> (json \<times> suite_spec) list ires option"
where
  "list_suite_specs rp limit [] out = Some (Inr out)"
| "list_suite_specs rp limit (f # fs) out = (case index_suite rp limit f of
      None \<Rightarrow> None
    | Some (Inl e) \<Rightarrow> Some (Inl e)
    | Some (Inr None) \<Rightarrow> list_suite_specs rp limit fs out
    | Some (Inr (Some (h, s))) \<Rightarrow> list_suite_specs rp limit fs (AList.update h s out))"


section \<open>The execution summaries\<close>

record exec_meta =
  em_experiments :: "json list"
  em_status :: json
  em_log_path :: json
  em_summary_path :: string

type_synonym exec_index = "((json \<times> json) \<times> exec_meta) list"

definition index_case :: "string \<Rightarrow> json \<Rightarrow> json \<Rightarrow> exec_index \<Rightarrow> exec_index ires" where
  "index_case path suite_id c out =
     bind_res (py_get c ''run_id'' (JStr [])) (\<lambda>run_id.
     if \<not> truthy run_id then Inr out
     else bind_res (bind_res (py_get c ''experiments'' (JList [])) py_iter) (\<lambda>exps.
       bind_res (py_get c ''status'' (JStr [])) (\<lambda>status.
       bind_res (py_get c ''log_path'' (JStr [])) (\<lambda>log.
       bind_res (hash_key suite_id) (\<lambda>hs.
       bind_res (hash_key run_id) (\<lambda>hr.
       Inr (AList.update (hs, hr) \<lparr>em_experiments = exps, em_status = status, em_log_path = log,
            em_summary_path = path\<rparr> out)))))))"

definition index_summary :: "json_file \<Rightarrow> exec_index \<Rightarrow> exec_index ires" where
  "index_summary file out = (case file of
      (path, Some (JObj kvs)) \<Rightarrow>
        (let suite_id = dget kvs ''suite_id'' (JStr []) in
         if \<not> truthy suite_id then Inr out
         else bind_res (py_iter (dget kvs ''cases'' (JList [])))
           (\<lambda>cases. fold_res (index_case path suite_id) cases out))
    | _ \<Rightarrow> Inr out)"

definition load_execution_summary_index :: "json_file list \<Rightarrow> exec_index ires" where
  "load_execution_summary_index files = fold_res index_summary files []"

section \<open>The memo does not change the result\<close>

text \<open>The same recursion without a memo.\<close>

fun plain_runs :: "nat \<Rightarrow> (json \<times> json) list \<Rightarrow> json \<Rightarrow> json list ires option" where
  "plain_runs 0 exps exp_id = None"
| "plain_runs (Suc n) exps exp_id =
     (case hash_key exp_id of
        Inl e \<Rightarrow> Some (Inl e)
      | Inr h \<Rightarrow> (case own_runs exps h of
            Inl e \<Rightarrow> Some (Inl e)
          | Inr (runs, parent) \<Rightarrow>
              if truthy parent
              then (case plain_runs n exps parent of
                  None \<Rightarrow> None
                | Some (Inl e) \<Rightarrow> Some (Inl e)
                | Some (Inr inherited) \<Rightarrow> Some (Inr (runs @ inherited)))
              else Some (Inr runs)))"

lemma hash_key_idem: "hash_key v = (Inr h :: json ires) \<Longrightarrow> hash_key h = (Inr h :: json ires)"
  by (cases v rule: hash_key.cases) auto

definition memo_ok :: "(json \<times> json) list \<Rightarrow> run_memo \<Rightarrow> bool" where
  "memo_ok exps memo \<longleftrightarrow> (\<forall>h runs. map_of memo h = Some runs \<longrightarrow>
     (hash_key h = (Inr h :: json ires)) \<and> (\<exists>n. plain_runs n exps h = Some (Inr runs)))"

lemma plain_runs_hash: "hash_key v = (Inr h :: json ires) \<Longrightarrow> plain_runs n exps v = plain_runs n exps h"
  by (cases n) (simp_all add: hash_key_idem)

lemma resolved_runs_plain:
  assumes "resolved_runs n exps eid memo = Some (Inr (runs, memo'))" and "memo_ok exps memo"
  shows "memo_ok exps memo' \<and> (\<exists>m. plain_runs m exps eid = Some (Inr runs))"
  using assms(1)
proof (induction n arbitrary: eid runs memo')
  case (Suc n)
  from Suc.prems obtain h where h: "hash_key eid = (Inr h :: json ires)"
    by (auto split: sum.splits)
  show ?case
  proof (cases "map_of memo h")
    case (Some rs)
    with Suc.prems h have "rs = runs" "memo' = memo" by auto
    with Some assms(2) plain_runs_hash [OF h] show ?thesis by (auto simp: memo_ok_def)
  next
    case None
    with Suc.prems h obtain own parent where own: "own_runs exps h = Inr (own, parent)"
      by (auto split: sum.splits)
    have step: "memo_ok exps ((h, rs) # m') \<and> (\<exists>m. plain_runs m exps eid = Some (Inr rs))"
      if "memo_ok exps m'" and "plain_runs (Suc k) exps h = Some (Inr rs)" for rs m' k
      using that hash_key_idem [OF h] plain_runs_hash [OF h]
      by (auto simp: memo_ok_def simp del: plain_runs.simps)
    show ?thesis
    proof (cases "truthy parent")
      case False
      with Suc.prems h None own have "runs = own" "memo' = (h, own) # memo" by auto
      with step [OF assms(2), of 0 own] False own hash_key_idem [OF h] show ?thesis by simp
    next
      case True
      with Suc.prems h None own obtain inherited m'
        where inherited: "resolved_runs n exps parent memo = Some (Inr (inherited, m'))"
        and eqs: "runs = own @ inherited" "memo' = (h, own @ inherited) # m'"
        by (auto split: option.splits sum.splits)
      from Suc.IH [OF inherited] obtain k where k: "memo_ok exps m'" "plain_runs k exps parent = Some (Inr inherited)"
        by blast
      have "plain_runs (Suc k) exps h = Some (Inr (own @ inherited))"
        using True own k(2) hash_key_idem [OF h] by simp
      from step [OF k(1) this] eqs show ?thesis by simp
    qed
  qed
qed simp

lemma plain_runs_more: "plain_runs n exps eid = Some r \<Longrightarrow> plain_runs (Suc n) exps eid = Some r"
proof (induction n arbitrary: eid r)
  case (Suc n)
  obtain hr where hr: "(hash_key eid :: json ires) = hr" by blast
  show ?case
  proof (cases hr)
    case (Inr h)
    show ?thesis
    proof (cases "own_runs exps h")
      case own: (Inr rp)
      obtain rs p where rp: "rp = (rs, p)" by force
      show ?thesis
      proof (cases "truthy p")
        case True
        with Suc.prems hr Inr own rp obtain q where q: "plain_runs n exps p = Some q"
          by (auto split: option.splits)
        from Suc.IH [OF q] q Suc.prems hr Inr own rp True show ?thesis by simp
      qed (use Suc.prems hr Inr own rp in simp)
    qed (use Suc.prems hr Inr in simp)
  qed (use Suc.prems hr in simp)
qed simp

lemma plain_runs_mono:
  assumes "plain_runs n exps eid = Some r" and "n \<le> m"
  shows "plain_runs m exps eid = Some r"
  using assms(2,1) by (induction rule: dec_induct) (use plain_runs_more in blast)+


definition sample_chain :: "(json \<times> json) list" where
  "sample_chain = [(JStr ''a'', sample_experiment ''a'' [] [sample_run ''sq'' []]),
     (JStr ''b'', sample_experiment ''b'' [(''reuse_from_experiment'', JStr ''a'')] [sample_run ''mq'' []])]"


section \<open>When the recursion ends\<close>

text \<open>The chain of parents from an experiment ends.\<close>

inductive chain_ends :: "(json \<times> json) list \<Rightarrow> json \<Rightarrow> bool" for exps where
  no_hash: "hash_key v = (Inl e :: json ires) \<Longrightarrow> chain_ends exps v"
| no_runs: "hash_key v = (Inr h :: json ires) \<Longrightarrow> own_runs exps h = Inl e \<Longrightarrow> chain_ends exps v"
| no_parent: "hash_key v = (Inr h :: json ires) \<Longrightarrow> own_runs exps h = Inr (runs, p) \<Longrightarrow> \<not> truthy p
    \<Longrightarrow> chain_ends exps v"
| parent: "hash_key v = (Inr h :: json ires) \<Longrightarrow> own_runs exps h = Inr (runs, p) \<Longrightarrow> chain_ends exps p
    \<Longrightarrow> chain_ends exps v"

lemma chain_ends_returns: "chain_ends exps v \<Longrightarrow> \<exists>n r. resolved_runs n exps v [] = Some r"
proof (induction rule: chain_ends.induct)
  case (no_hash v e)
  then have "resolved_runs 1 exps v [] = Some (Inl e)" by simp
  then show ?case by blast
next
  case (no_runs v h e)
  then have "resolved_runs 1 exps v [] = Some (Inl e)" by simp
  then show ?case by blast
next
  case (no_parent v h runs p)
  then have "resolved_runs 1 exps v [] = Some (Inr (runs, [(h, runs)]))" by simp
  then show ?case by blast
next
  case (parent v h runs p)
  then obtain n r where r: "resolved_runs n exps p [] = Some r" by blast
  have "\<exists>q. resolved_runs (Suc n) exps v [] = Some q"
    using parent r by (auto split: sum.splits)
  then show ?case by blast
qed

lemma returns_chain_ends: "resolved_runs n exps v [] = Some r \<Longrightarrow> chain_ends exps v"
proof (induction n arbitrary: v r)
  case (Suc n)
  show ?case
  proof (cases "hash_key v :: json ires")
    case (Inl e)
    then show ?thesis by (rule no_hash)
  next
    case (Inr h)
    show ?thesis
    proof (cases "own_runs exps h")
      case (Inl e)
      with \<open>hash_key v = Inr h\<close> show ?thesis by (rule no_runs)
    next
      case own: (Inr rp)
      obtain runs p where rp: "rp = (runs, p)" by force
      show ?thesis
      proof (cases "truthy p")
        case True
        with Suc.prems Inr own rp obtain q where "resolved_runs n exps p [] = Some q"
          by (auto split: option.splits)
        from Suc.IH [OF this] Inr own rp show ?thesis by (auto intro: chain_ends.parent)
      next
        case False
        with Inr own rp show ?thesis by (auto intro: no_parent)
      qed
    qed
  qed
qed simp


definition self_reuse :: json where
  "self_reuse = sample_suite [sample_experiment ''exp1'' [(''reuse_from_experiment'', JStr ''exp1'')] []]"

lemma self_reuse_runs:
  "resolved_runs n [(JStr ''exp1'', sample_experiment ''exp1'' [(''reuse_from_experiment'', JStr ''exp1'')] [])]
     (JStr ''exp1'') [] = None"
  by (induction n) (simp_all add: own_runs_def sample_experiment_def dget_def)

text \<open>
  A suite whose experiment reuses its own runs passes both validators and makes the
  aggregation exceed every recursion limit.
\<close>

theorem self_reuse_accepted_and_fatal:
  "spec_accepts (\<lambda>_. []) builtin_registry self_reuse \<and> runner_accepts (\<lambda>_. []) builtin_registry self_reuse
   \<and> list_suite_specs rp limit [(''s.json'', Some self_reuse)] [] = None"
proof -
  have "spec_accepts (\<lambda>_. []) builtin_registry self_reuse"
    "runner_accepts (\<lambda>_. []) builtin_registry self_reuse" by code_simp+
  moreover have "list_suite_specs rp limit [(''s.json'', Some self_reuse)] [] = None"
    using self_reuse_runs [of limit]
    by (simp add: self_reuse_def index_suite_def sample_suite_def dget_def exp_by_id_def
        index_experiment_def sample_experiment_def py_getitem.simps)
  ultimately show ?thesis by blast
qed

end
