(* ===== verification/RunMatching.thy ===== *)
theory RunMatching
  imports SuiteIndex
begin

text \<open>
  \<open>scripts/aggregate_results.py\<close>, second part: cells of CSV files, the summary of the rows of a
  run, and the attribution of a run to experiments when no execution summary names them.

  A row of a CSV file is a dictionary whose values are strings, or \<open>None\<close> where the row is
  shorter than the header.
\<close>

type_synonym cell = "string option"
type_synonym csv_row = "(string \<times> cell) list"


section \<open>Cells\<close>

text \<open>\<open>row.get(k, "")\<close>, \<open>str(v)\<close> and the truth value of a cell.\<close>

definition cell_get :: "csv_row \<Rightarrow> string \<Rightarrow> cell" where
  "cell_get row k = (case map_of row k of None \<Rightarrow> Some [] | Some v \<Rightarrow> v)"

definition cell_str :: "cell \<Rightarrow> string" where
  "cell_str v = (case v of None \<Rightarrow> ''None'' | Some s \<Rightarrow> s)"

definition cell_truthy :: "cell \<Rightarrow> bool" where
  "cell_truthy v = (case v of None \<Rightarrow> False | Some s \<Rightarrow> s \<noteq> [])"

text \<open>\<open>to_float\<close> and \<open>to_int\<close> with default 0: every exception of the conversion gives it.\<close>

definition to_float :: "cell \<Rightarrow> pyfloat" where
  "to_float v = (case v of None \<Rightarrow> Fin 0
     | Some s \<Rightarrow> (case parse_float s of None \<Rightarrow> Fin 0 | Some f \<Rightarrow> f))"

definition to_int :: "cell \<Rightarrow> int" where
  "to_int v = (case v of None \<Rightarrow> 0
     | Some s \<Rightarrow> (case parse_float s of
           Some (Fin r) \<Rightarrow> trunc r | _ \<Rightarrow> 0))"

text \<open>\<open>to_float(row.get(k, 0))\<close> and \<open>to_int(row.get(k, 0))\<close>.\<close>

definition row_float :: "csv_row \<Rightarrow> string \<Rightarrow> pyfloat" where
  "row_float row k = (case map_of row k of None \<Rightarrow> Fin 0 | Some v \<Rightarrow> to_float v)"

definition row_int :: "csv_row \<Rightarrow> string \<Rightarrow> int" where
  "row_int row k = (case map_of row k of None \<Rightarrow> 0 | Some v \<Rightarrow> to_int v)"


section \<open>The summary of a run\<close>

text \<open>The distinct non-empty texts of a column.\<close>

definition column_texts :: "csv_row list \<Rightarrow> string \<Rightarrow> string list" where
  "column_texts rows k =
     sorted_set (map (\<lambda>r. cell_str (cell_get r k)) (filter (\<lambda>r. cell_truthy (cell_get r k)) rows))"

definition summarize_run_rows :: "csv_row list \<Rightarrow> json" where
  "summarize_run_rows rows = JObj [
     (''rows'', JInt (int (length rows))),
     (''replications'', JList (map JInt (sorted_set (map (\<lambda>r. row_int r ''Replication'') rows)))),
     (''num_tasks'', JList (map JInt (sorted_set (map (\<lambda>r. row_int r ''NumTasks'') rows)))),
     (''cores'', JList (map JInt (sorted_set (map (\<lambda>r. row_int r ''Cores'') rows)))),
     (''stop_time'', JList (map JFloat (sorted_set (map (\<lambda>r. row_float r ''StopTime'') rows)))),
     (''topologies'', JList (map JStr (column_texts rows ''Topology''))),
     (''balancers'', JList (map JStr (column_texts rows ''Balancer''))),
     (''work_stealing_values'', JList (map JStr (column_texts rows ''WorkStealing''))),
     (''schedulers'', JList (map JStr (column_texts rows ''Scheduler''))),
     (''workloads'', JList (map JStr (column_texts rows ''Workload'')))]"

text \<open>
  \<open>topology_variant(row)\<close> of an enriched row, which has all four members, so that the defaults
  of the code are never used.
\<close>

definition topology_variant :: "cell \<Rightarrow> int \<Rightarrow> cell \<Rightarrow> cell \<Rightarrow> string" where
  "topology_variant topology_cell cores balancer_cell steal_cell =
     (let topology = py_lower (cell_str topology_cell);
          balancer = py_lower (cell_str balancer_cell);
          steal = py_lower (cell_str steal_cell)
      in if topology = ''sq'' then ''SQ-'' @ dec_int cores @ ''c''
         else if topology = ''mq'' then
           (let lb = (if balancer = ''rr'' then ''RR'' else if balancer = ''leastloaded'' then ''LL''
                      else py_upper balancer);
                ws = (if steal = ''on'' then ''WS-on'' else if steal = ''off'' then ''WS-off'' else ''WS-na'')
            in ''MQ-'' @ lb @ ''-'' @ dec_int cores @ ''c-'' @ ws)
         else py_upper topology @ ''-'' @ dec_int cores @ ''c'')"


section \<open>Experiment flags\<close>

text \<open>\<open>EXP_NUM_RE.match(s)\<close>: the digits after a leading \<open>exp\<close>, at least one.\<close>

definition exp_number :: "string \<Rightarrow> nat option" where
  "exp_number s =
     (if prefix ''exp'' s
      then (let ds = takeWhile is_digit (drop 3 s)
            in if ds = [] then None else parse_digits False 0 ds)
      else None)"

definition exp_flag_name :: "nat \<Rightarrow> string" where
  "exp_flag_name i = ''Exp'' @ dec_nat i"

definition no_flags :: "(string \<times> int) list" where
  "no_flags = map (\<lambda>i. (exp_flag_name i, 0)) [1..<7]"

fun set_flags :: "json list \<Rightarrow> (string \<times> int) list \<Rightarrow> (string \<times> int) list ires" where
  "set_flags [] flags = Inr flags"
| "set_flags (JStr s # ids) flags =
     set_flags ids (case exp_number (py_lower s) of
        None \<Rightarrow> flags
      | Some idx \<Rightarrow> if 1 \<le> idx \<and> idx \<le> 6 then AList.update (exp_flag_name idx) 1 flags else flags)"
| "set_flags _ flags = Inl AttrErr"

definition experiment_flags :: "json list \<Rightarrow> (string \<times> int) list ires" where
  "experiment_flags ids = set_flags ids no_flags"


section \<open>Matching a run with the suite\<close>

definition workload_names :: "(string \<times> string) list" where
  "workload_names = [(''desktop'', ''Desktop''), (''server'', ''Server''),
     (''google'', ''GoogleTraceV3''), (''alibaba'', ''AlibabaTraceV2018'')]"

definition canonical_workload_name :: "string \<Rightarrow> string" where
  "canonical_workload_name key =
     (case map_of workload_names (py_lower key) of None \<Rightarrow> key | Some n \<Rightarrow> n)"

definition normalize_summary_values :: "json \<Rightarrow> string \<Rightarrow> json list ires" where
  "normalize_summary_values s k =
     bind_res (py_get s k (JList [])) (\<lambda>v. Inr (case v of
        JNull \<Rightarrow> [] | JList xs \<Rightarrow> xs | _ \<Rightarrow> [v]))"

text \<open>\<open>abs(float(a) - float(b)) <= 1e-6\<close>\<close>

definition approx_eq :: "pyfloat \<Rightarrow> pyfloat \<Rightarrow> bool" where
  "approx_eq a b = (case float_sub a b of Fin r \<Rightarrow> \<bar>r\<bar> \<le> 1 / 10 ^ 6 | _ \<Rightarrow> False)"

text \<open>The sets of a summary.\<close>

record summary_sets =
  sm_workloads :: "json list"
  sm_cores :: "int list"
  sm_num_tasks :: "int list"
  sm_stop_times :: "pyfloat list"
  sm_topologies :: "string list"
  sm_balancers :: "string list"
  sm_ws :: "string list"

definition summary_sets_of :: "(json \<Rightarrow> string) \<Rightarrow> json \<Rightarrow> summary_sets ires" where
  "summary_sets_of rp s =
     bind_res (bind_res (normalize_summary_values s ''workloads'') (map_res hash_key)) (\<lambda>ws.
     bind_res (bind_res (normalize_summary_values s ''cores'') (map_res py_int)) (\<lambda>cs.
     bind_res (bind_res (normalize_summary_values s ''num_tasks'') (map_res py_int)) (\<lambda>ns.
     bind_res (bind_res (normalize_summary_values s ''stop_time'') (map_res py_float)) (\<lambda>ts.
     bind_res (normalize_summary_values s ''topologies'') (\<lambda>tops.
     bind_res (normalize_summary_values s ''balancers'') (\<lambda>bals.
     bind_res (normalize_summary_values s ''work_stealing_values'') (\<lambda>wss.
     Inr \<lparr>sm_workloads = ws, sm_cores = cs, sm_num_tasks = ns, sm_stop_times = ts,
          sm_topologies = map (\<lambda>v. py_lower (py_str rp v)) tops,
          sm_balancers = map (\<lambda>v. py_lower (py_str rp v)) bals,
          sm_ws = map (\<lambda>v. py_lower (py_str rp v)) wss\<rparr>)))))))"

definition run_def_matches_summary :: "(json \<Rightarrow> string) \<Rightarrow> run_def \<Rightarrow> json \<Rightarrow> bool ires" where
  "run_def_matches_summary rp d s =
     bind_res (summary_sets_of rp s) (\<lambda>m.
     if rd_workload d = ''all'' \<and> card (set (sm_workloads m)) < 2 then Inr False
     else if rd_workload d \<noteq> ''all''
       \<and> JStr (canonical_workload_name (rd_workload d)) \<notin> set (sm_workloads m) then Inr False
     else if rd_cores d \<notin> set (sm_cores m) then Inr False
     else if rd_num_tasks d \<notin> set (sm_num_tasks m) then Inr False
     else if \<not> list_ex (approx_eq (rd_stop_time d)) (sm_stop_times m) then Inr False
     else bind_res (in_str_set (rd_topology d) (sm_topologies m)) (\<lambda>top.
       if \<not> top then Inr False
       else if rd_topology d = JStr ''mq''
       then bind_res (in_str_set (rd_balancer d) (sm_balancers m)) (\<lambda>bal.
         Inr (bal \<and> rd_work_stealing d \<in> set (sm_ws m)))
       else Inr True))"

text \<open>The inner loop: whether some run of an experiment matches.\<close>

fun any_match :: "(json \<Rightarrow> string) \<Rightarrow> json \<Rightarrow> run_def list \<Rightarrow> bool ires" where
  "any_match rp s [] = Inr False"
| "any_match rp s (d # ds) =
     bind_res (run_def_matches_summary rp d s) (\<lambda>b. if b then Inr True else any_match rp s ds)"

fun match_experiments ::
  "(json \<Rightarrow> string) \<Rightarrow> json \<Rightarrow> (json \<times> run_def list) list \<Rightarrow> json list ires"
where
  "match_experiments rp s [] = Inr []"
| "match_experiments rp s ((eid, ds) # es) =
     bind_res (any_match rp s ds) (\<lambda>b.
     bind_res (match_experiments rp s es) (\<lambda>ids. Inr (if b then eid # ids else ids)))"

text \<open>
  \<open>sorted(set(ids))\<close>: strings are sorted, numbers are sorted by their value, and a mixture
  cannot be compared.
\<close>

definition num_value :: "json \<Rightarrow> pyfloat option" where
  "num_value v = (case v of JInt n \<Rightarrow> Some (Fin (of_int n)) | JFloat f \<Rightarrow> Some f | _ \<Rightarrow> None)"

definition str_value :: "json \<Rightarrow> string option" where
  "str_value v = (case v of JStr s \<Rightarrow> Some s | _ \<Rightarrow> None)"

definition sorted_ids :: "json list \<Rightarrow> json list ires" where
  "sorted_ids ids =
     bind_res (map_res hash_key ids) (\<lambda>hs.
     let us = remdups hs in
     if list_all (\<lambda>v. str_value v \<noteq> None) us
     then Inr (map JStr (sorted_set (map (\<lambda>v. the (str_value v)) us)))
     else if list_all (\<lambda>v. num_value v \<noteq> None) us
     then Inr (sort_key (\<lambda>v. the (num_value v)) us)
     else if length us \<le> 1 then Inr us
     else Inl TypeErr)"

definition infer_experiments_from_spec ::
  "(json \<Rightarrow> string) \<Rightarrow> string \<Rightarrow> json \<Rightarrow> (json \<times> suite_spec) list \<Rightarrow> json list ires" where
  "infer_experiments_from_spec rp suite_id s specs =
     (case map_of specs (JStr suite_id) of
        None \<Rightarrow> Inr []
      | Some suite \<Rightarrow> bind_res (match_experiments rp s (ss_experiments suite)) sorted_ids)"

section \<open>The summary of rows, and what matches it\<close>

lemma map_res_maps [simp]:
  "map_res hash_key (map JStr ss) = Inr (map JStr ss)"
  "map_res py_int (map JInt ns) = Inr ns"
  "map_res py_float (map JFloat fs) = Inr fs"
  by (induction ss, simp_all) (induction ns, simp_all, induction fs, simp_all)

lemma summary_values [simp]:
  "normalize_summary_values (summarize_run_rows rows) ''workloads'' = Inr (map JStr (column_texts rows ''Workload''))"
  "normalize_summary_values (summarize_run_rows rows) ''cores''
     = Inr (map JInt (sorted_set (map (\<lambda>r. row_int r ''Cores'') rows)))"
  "normalize_summary_values (summarize_run_rows rows) ''num_tasks''
     = Inr (map JInt (sorted_set (map (\<lambda>r. row_int r ''NumTasks'') rows)))"
  "normalize_summary_values (summarize_run_rows rows) ''stop_time''
     = Inr (map JFloat (sorted_set (map (\<lambda>r. row_float r ''StopTime'') rows)))"
  "normalize_summary_values (summarize_run_rows rows) ''topologies'' = Inr (map JStr (column_texts rows ''Topology''))"
  "normalize_summary_values (summarize_run_rows rows) ''balancers'' = Inr (map JStr (column_texts rows ''Balancer''))"
  "normalize_summary_values (summarize_run_rows rows) ''work_stealing_values''
     = Inr (map JStr (column_texts rows ''WorkStealing''))"
  by (simp_all add: normalize_summary_values_def summarize_run_rows_def dget_def)

lemma summary_sets_summarize:
  "summary_sets_of rp (summarize_run_rows rows) = Inr
     \<lparr>sm_workloads = map JStr (column_texts rows ''Workload''),
      sm_cores = sorted_set (map (\<lambda>r. row_int r ''Cores'') rows),
      sm_num_tasks = sorted_set (map (\<lambda>r. row_int r ''NumTasks'') rows),
      sm_stop_times = sorted_set (map (\<lambda>r. row_float r ''StopTime'') rows),
      sm_topologies = map py_lower (column_texts rows ''Topology''),
      sm_balancers = map py_lower (column_texts rows ''Balancer''),
      sm_ws = map py_lower (column_texts rows ''WorkStealing'')\<rparr>"
  by (simp add: summary_sets_of_def comp_def)

text \<open>A column has a text in some row.\<close>

definition has_text :: "csv_row list \<Rightarrow> string \<Rightarrow> string \<Rightarrow> bool" where
  "has_text rows k t \<longleftrightarrow> (\<exists>r\<in>set rows. cell_get r k = Some t \<and> t \<noteq> [])"

lemma set_column_texts: "t \<in> set (column_texts rows k) \<longleftrightarrow> has_text rows k t"
proof -
  have cell: "cell_truthy c \<and> t = cell_str c \<longleftrightarrow> c = Some t \<and> t \<noteq> []" for c
    by (cases c) (auto simp: cell_truthy_def cell_str_def)
  have "t \<in> set (column_texts rows k)
      \<longleftrightarrow> (\<exists>r\<in>set rows. cell_truthy (cell_get r k) \<and> t = cell_str (cell_get r k))"
    by (auto simp: column_texts_def)
  then show ?thesis by (simp add: cell has_text_def)
qed

text \<open>
  C14. When a run is matched with a suite from its rows: its workload, cores, tasks, stop time
  and topology, and for \<open>mq\<close> the balancer and the work stealing, must each occur in some row.
  The columns are looked at one by one, not row by row.
\<close>

theorem match_rows_iff:
  assumes "rd_topology d = JStr topo" and "rd_balancer d = JStr bal"
  shows "run_def_matches_summary rp d (summarize_run_rows rows) = Inr
    ((if rd_workload d = ''all'' then 2 \<le> card {t. has_text rows ''Workload'' t}
      else has_text rows ''Workload'' (canonical_workload_name (rd_workload d)))
     \<and> (\<exists>r\<in>set rows. row_int r ''Cores'' = rd_cores d)
     \<and> (\<exists>r\<in>set rows. row_int r ''NumTasks'' = rd_num_tasks d)
     \<and> (\<exists>r\<in>set rows. approx_eq (rd_stop_time d) (row_float r ''StopTime''))
     \<and> (\<exists>t. has_text rows ''Topology'' t \<and> py_lower t = topo)
     \<and> (topo = ''mq'' \<longrightarrow> (\<exists>t. has_text rows ''Balancer'' t \<and> py_lower t = bal)
          \<and> (\<exists>t. has_text rows ''WorkStealing'' t \<and> py_lower t = rd_work_stealing d)))"
proof -
  have "set (column_texts rows ''Workload'') = {t. has_text rows ''Workload'' t}"
    by (auto simp: set_column_texts)
  then have card: "card (JStr ` set (column_texts rows ''Workload'')) = card {t. has_text rows ''Workload'' t}"
    by (simp add: card_image inj_on_def)
  have lower: "t \<in> py_lower ` set (column_texts rows k) \<longleftrightarrow> (\<exists>u. has_text rows k u \<and> py_lower u = t)" for t k
    by (auto simp: set_column_texts)
  have mem: "JStr t \<in> JStr ` set (column_texts rows k) \<longleftrightarrow> has_text rows k t" for t k
    by (auto simp: set_column_texts)
  have num: "n \<in> f ` set rows \<longleftrightarrow> (\<exists>r\<in>set rows. f r = n)" for n :: int and f
    by auto
  show ?thesis
    unfolding run_def_matches_summary_def summary_sets_summarize
    by (simp add: assms card lower mem num list_ex_iff)
qed

definition sample_rows :: "csv_row list" where
  "sample_rows = [[(''Workload'', Some ''Desktop''), (''Cores'', Some ''4''), (''NumTasks'', Some ''100''),
     (''StopTime'', Some ''500.0''), (''Topology'', Some ''SQ'')],
    [(''Workload'', Some ''Server''), (''Cores'', Some ''8''), (''NumTasks'', Some ''100''),
     (''StopTime'', Some ''500.0''), (''Topology'', Some ''SQ'')]]"

definition sample_def :: "string \<Rightarrow> int \<Rightarrow> run_def" where
  "sample_def w c = \<lparr>rd_workload = w, rd_cores = c, rd_num_tasks = 100, rd_stop_time = Fin 500,
     rd_topology = JStr ''sq'', rd_balancer = JStr ''na'', rd_work_stealing = ''na''\<rparr>"

text \<open>The witness also shows the mixture: no row has the workload Desktop on 8 cores.\<close>

theorem match_rows_iff_witness:
  "run_def_matches_summary (\<lambda>_. []) (sample_def ''desktop'' 8) (summarize_run_rows sample_rows) = Inr True"
proof -
  have ty: "rd_topology (sample_def ''desktop'' 8) = JStr ''sq''" "rd_balancer (sample_def ''desktop'' 8) = JStr ''na''"
    by (simp_all add: sample_def_def)
  have w: "canonical_workload_name ''desktop'' = ''Desktop''" by code_simp
  have t: "has_text sample_rows ''Workload'' ''Desktop''" "has_text sample_rows ''Topology'' ''SQ''"
    by (simp_all add: has_text_def sample_rows_def cell_get_def)
  have low: "py_lower ''SQ'' = ''sq''" by code_simp
  have cells: "list_ex (\<lambda>r. row_int r ''Cores'' = 8) sample_rows"
    "list_ex (\<lambda>r. row_int r ''NumTasks'' = 100) sample_rows"
    "list_ex (\<lambda>r. approx_eq (Fin 500) (row_float r ''StopTime'')) sample_rows" by code_simp+
  from t(2) low have "\<exists>u. has_text sample_rows ''Topology'' u \<and> py_lower u = ''sq''" by blast
  with w t(1) cells match_rows_iff [OF ty, of "\<lambda>_. []" sample_rows] show ?thesis
    by (simp add: sample_def_def list_ex_iff)
qed

section \<open>The names of the built-in workloads\<close>

text \<open>
  The aggregation and the plugins agree on the workloads: the display name of every
  built-in workload that is no meta selector is the name that the aggregation expects in the
  results for its key.
\<close>

theorem workload_names_agree:
  "list_all (\<lambda>p. p_is_meta p \<or> canonical_workload_name (p_key p) = p_display_name p) builtin_workloads"
  by code_simp

section \<open>Experiment flags\<close>

lemma exp_flag_name_inject [simp]: "exp_flag_name i = exp_flag_name j \<longleftrightarrow> i = j"
  by (simp add: exp_flag_name_def)

lemma update_flags:
  "i \<in> set is \<Longrightarrow> distinct is \<Longrightarrow> AList.update (exp_flag_name i) v (map (\<lambda>j. (exp_flag_name j, f j)) is)
     = map (\<lambda>j. (exp_flag_name j, if j = i then v else f j)) is"
  by (induction "is") auto

text \<open>
  The flags are always the six columns \<open>Exp1\<close> to \<open>Exp6\<close>, and a column is 1 exactly if
  some experiment id starts, in any case, with \<open>exp\<close> and that number.
\<close>

theorem experiment_flags_exact:
  "experiment_flags (map JStr ss) = Inr (map (\<lambda>i. (exp_flag_name i,
     if \<exists>s\<in>set ss. exp_number (py_lower s) = Some i then 1 else 0)) [1..<7])"
proof -
  have "set_flags (map JStr ss) (map (\<lambda>i. (exp_flag_name i, f i)) [1..<7])
      = Inr (map (\<lambda>i. (exp_flag_name i,
          if \<exists>s\<in>set ss. exp_number (py_lower s) = Some i then 1 else f i)) [1..<7])" for f
  proof (induction ss arbitrary: f)
    case (Cons s ss)
    show ?case
    proof (cases "exp_number (py_lower s)")
      case None
      with Cons show ?thesis by simp
    next
      case (Some idx)
      show ?thesis
      proof (cases "1 \<le> idx \<and> idx \<le> 6")
        case True
        then have "idx \<in> set [1..<7]" by simp
        with True Some Cons [of "\<lambda>j. if j = idx then 1 else f j"] show ?thesis
          by (auto simp: update_flags simp del: upt_Suc upt_rec_numeral)
      next
        case False
        with Some Cons [of f] show ?thesis by (auto simp del: upt_rec_numeral)
      qed
    qed
  qed simp
  then show ?thesis by (simp add: experiment_flags_def no_flags_def)
qed

section \<open>Attribution to experiments\<close>

lemma any_match_iff:
  "any_match rp s ds = Inr b \<Longrightarrow> b \<longleftrightarrow> (\<exists>d\<in>set ds. run_def_matches_summary rp d s = Inr True)"
proof (induction ds)
  case (Cons d ds)
  then show ?case by (auto simp: bind_res_Inr split: if_splits)
qed simp

lemma match_experiments_set:
  "match_experiments rp s es = Inr ids \<Longrightarrow> set ids
     = {e. \<exists>ds. (e, ds) \<in> set es \<and> (\<exists>d\<in>set ds. run_def_matches_summary rp d s = Inr True)}"
proof (induction es arbitrary: ids)
  case (Cons e es)
  obtain eid ds where e: "e = (eid, ds)" by force
  with Cons.prems obtain b rest where b: "any_match rp s ds = Inr b"
    "match_experiments rp s es = Inr rest" "ids = (if b then eid # rest else rest)"
    by (auto simp: bind_res_Inr)
  from any_match_iff [OF b(1)] b(3) Cons.IH [OF b(2)] e show ?case by auto
qed simp

lemma sorted_ids_strings: "sorted_ids (map JStr ss) = Inr (map JStr (sorted_set ss))"
proof -
  have r: "remdups (map JStr ss) = map JStr (remdups ss)" by (induction ss) auto
  have m: "map (\<lambda>v. the (str_value v)) (map JStr xs) = xs" for xs
    by (simp add: str_value_def comp_def)
  have l: "list_all (\<lambda>v. str_value v \<noteq> None) (map JStr xs)" for xs
    by (simp add: list_all_iff str_value_def)
  have "sorted_set (remdups ss) = sorted_set ss" by (rule sorted_set_cong) simp
  then show ?thesis by (simp only: sorted_ids_def map_res_maps bind_res_simps Let_def r m l if_True)
qed

text \<open>
  C15. Attribution: when the experiment ids of a suite are strings, a run without an execution
  summary is attributed to exactly the experiments of its suite that have a matching run,
  each once and in sorted order.
\<close>

theorem infer_experiments_exact:
  assumes "infer_experiments_from_spec rp sid s specs = Inr ids"
    and "map_of specs (JStr sid) = Some suite"
    and "\<forall>e\<in>set (ss_experiments suite). \<exists>n. fst e = JStr n"
  shows "\<exists>names. ids = map JStr names \<and> sorted names \<and> distinct names
    \<and> (\<forall>n. n \<in> set names \<longleftrightarrow> (\<exists>ds. (JStr n, ds) \<in> set (ss_experiments suite)
          \<and> (\<exists>d\<in>set ds. run_def_matches_summary rp d s = Inr True)))"
proof -
  from assms(1,2) obtain ms where ms: "match_experiments rp s (ss_experiments suite) = Inr ms"
    and sort: "sorted_ids ms = Inr ids"
    by (auto simp: infer_experiments_from_spec_def bind_res_Inr)
  note set = match_experiments_set [OF ms]
  with assms(3) have "\<exists>ss. ms = map JStr ss"
    by (intro ex_map_conv [THEN iffD2]) fastforce
  then obtain ss where ss: "ms = map JStr ss" by blast
  with sort sorted_ids_strings have "ids = map JStr (sorted_set ss)" by simp
  moreover have "n \<in> set ss \<longleftrightarrow> JStr n \<in> set ms" for n using ss by auto
  ultimately show ?thesis using set by (intro exI [of _ "sorted_set ss"]) auto
qed

definition sample_specs :: "(json \<times> suite_spec) list" where
  "sample_specs = [(JStr ''demo'', \<lparr>ss_path = ''s.json'', ss_benchmark_version = JStr ''v1'',
     ss_experiments = [(JStr ''e2'', [sample_def ''server'' 4]), (JStr ''e1'', [sample_def ''all'' 8]),
       (JStr ''e3'', [sample_def ''google'' 4])]\<rparr>)]"

theorem infer_experiments_exact_witness:
  "\<exists>names. [JStr ''e1'', JStr ''e2''] = map JStr names \<and> sorted names"
proof -
  have i: "infer_experiments_from_spec (\<lambda>_. []) ''demo'' (summarize_run_rows sample_rows) sample_specs
      = Inr [JStr ''e1'', JStr ''e2'']" by code_simp
  have s: "map_of sample_specs (JStr ''demo'') = Some (snd (hd sample_specs))"
    by (simp add: sample_specs_def)
  have "\<forall>e\<in>set (ss_experiments (snd (hd sample_specs))). \<exists>n. fst e = JStr n"
    by (simp add: sample_specs_def)
  from infer_experiments_exact [OF i s this] show ?thesis by (elim ex_forward) simp
qed

end
