(* ===== verification/Aggregate.thy ===== *)
theory Aggregate
  imports RunMatching
begin

text \<open>
  \<open>scripts/aggregate_results.py\<close>, third part: the loop over the metrics files, which indexes the
  runs, enriches their rows and checks their quality, and the search for duplicate
  configurations.

  A metrics file comes with what the loop reads besides its rows: the names of its directory and
  of the directory above, the paths relative to the repository, and the manifest beside it
  (\<open>None\<close> if it is missing or cannot be read).
\<close>

section \<open>Data\<close>

record metrics_file =
  mf_metrics_path :: string
  mf_tasks_path :: string
  mf_tasks_exists :: bool
  mf_manifest_path :: string
  mf_manifest_exists :: bool
  mf_manifest :: "json option"
  mf_suite_dir :: string
  mf_run_dir :: string
  mf_rows :: "csv_row list"

record run_meta =
  rm_suite_id :: string
  rm_run_id :: string
  rm_benchmark_version :: string
  rm_schema_version :: string
  rm_summary :: json
  rm_exec :: exec_meta
  rm_experiment_ids :: "string list"
  rm_experiments :: string
  rm_flags :: "(string \<times> int) list"

record run_index_row =
  ri_benchmark_version :: string
  ri_suite_id :: string
  ri_run_id :: string
  ri_schema_version :: string
  ri_metrics_path :: string
  ri_tasks_path :: string
  ri_manifest_path :: string
  ri_summary_path :: string
  ri_status :: json
  ri_log_path :: json
  ri_experiments :: string
  ri_rows :: int
  ri_replications :: string
  ri_num_tasks :: string
  ri_cores :: string
  ri_stop_time :: string
  ri_topologies :: string
  ri_balancers :: string
  ri_work_stealing :: string
  ri_schedulers :: string
  ri_workloads :: string
  ri_git_commit :: json
  ri_generated_at :: json

datatype severity = ERROR | WARN | INFO

record quality_issue =
  q_check_type :: string
  q_severity :: severity
  q_suite_id :: string
  q_run_id :: string
  q_source_file :: string
  q_scheduler :: cell
  q_workload :: cell
  q_metric :: string
  q_value :: json
  q_threshold :: string
  q_message :: string

record metrics_row =
  m_benchmark_version :: string
  m_schema_version :: string
  m_suite_id :: string
  m_run_id :: string
  m_seed :: int
  m_source_file :: string
  m_replication :: int
  m_num_tasks :: int
  m_cores :: int
  m_topology :: cell
  m_balancer :: cell
  m_work_stealing :: cell
  m_stop_time :: pyfloat
  m_scheduler :: cell
  m_scheduler_class :: string
  m_workload :: cell
  m_workload_type :: string
  m_topology_variant :: string
  m_experiment_ids :: string
  m_flags :: "(string \<times> int) list"
  m_completed :: int
  m_completion_ratio :: pyfloat
  m_mean_rt :: pyfloat
  m_p95_rt :: pyfloat
  m_p99_rt :: pyfloat
  m_mean_tat :: pyfloat
  m_mean_wt :: pyfloat
  m_throughput :: pyfloat
  m_throughput_per_core :: pyfloat
  m_utilization :: pyfloat
  m_jains_fairness :: pyfloat
  m_context_switches :: int
  m_preemptions :: int
  m_context_switches_per_task :: pyfloat
  m_preemptions_per_task :: pyfloat


section \<open>The identity of a run\<close>

text \<open>\<open>first.get(k)\<close> as a truth value: the text of the cell, empty if there is none.\<close>

definition first_text :: "csv_row \<Rightarrow> string \<Rightarrow> string" where
  "first_text row k = (case map_of row k of Some (Some s) \<Rightarrow> s | _ \<Rightarrow> [])"

text \<open>\<open>(manifest or {})\<close> and \<open>(manifest or {}).get("benchmark_metadata", {}).get(k)\<close>\<close>

definition manifest_dict :: "json option \<Rightarrow> json" where
  "manifest_dict m = (case m of Some v \<Rightarrow> (if truthy v then v else JObj []) | None \<Rightarrow> JObj [])"

definition manifest_meta :: "json option \<Rightarrow> string \<Rightarrow> json ires" where
  "manifest_meta m k =
     bind_res (py_get (manifest_dict m) ''benchmark_metadata'' (JObj [])) (\<lambda>d. py_get d k JNull)"

definition meta_text ::
  "(json \<Rightarrow> string) \<Rightarrow> csv_row \<Rightarrow> json option \<Rightarrow> string \<Rightarrow> string \<Rightarrow> string \<Rightarrow> string ires" where
  "meta_text rp row m column k fallback =
     (if first_text row column \<noteq> [] then Inr (first_text row column)
      else bind_res (manifest_meta m k) (\<lambda>v. Inr (if truthy v then py_str rp v else fallback)))"

definition no_exec_meta :: exec_meta where
  "no_exec_meta = \<lparr>em_experiments = [], em_status = JStr [], em_log_path = JStr [], em_summary_path = []\<rparr>"

text \<open>\<open>";".join(ids)\<close> needs strings.\<close>

fun id_strings :: "json list \<Rightarrow> string list ires" where
  "id_strings [] = Inr []"
| "id_strings (JStr s # vs) = bind_res (id_strings vs) (\<lambda>ss. Inr (s # ss))"
| "id_strings _ = Inl TypeErr"

lemma id_strings_Inr: "id_strings ids = Inr names \<Longrightarrow> ids = map JStr names"
  by (induction ids arbitrary: names rule: id_strings.induct) (auto simp: bind_res_Inr)

definition run_meta_of ::
  "(json \<Rightarrow> string) \<Rightarrow> exec_index \<Rightarrow> (json \<times> suite_spec) list \<Rightarrow> metrics_file \<Rightarrow> csv_row \<Rightarrow> run_meta ires"
where
  "run_meta_of rp idx specs mf first =
     bind_res (meta_text rp first (mf_manifest mf) ''SuiteId'' ''suite_id'' (mf_suite_dir mf)) (\<lambda>suite_id.
     bind_res (meta_text rp first (mf_manifest mf) ''RunId'' ''run_id'' (mf_run_dir mf)) (\<lambda>run_id.
     bind_res (meta_text rp first (mf_manifest mf) ''BenchmarkVersion'' ''benchmark_version'' ''unknown'') (\<lambda>bv.
     bind_res (py_get (manifest_dict (mf_manifest mf)) ''run_summary'' JNull) (\<lambda>rs.
     bind_res (Inr (if truthy rs then rs else summarize_run_rows (mf_rows mf))) (\<lambda>summary.
     bind_res (Inr (case map_of idx (JStr suite_id, JStr run_id) of Some e \<Rightarrow> e | None \<Rightarrow> no_exec_meta)) (\<lambda>exec.
     bind_res (if em_experiments exec \<noteq> [] then Inr (em_experiments exec)
               else infer_experiments_from_spec rp suite_id summary specs) (\<lambda>ids.
     bind_res (sorted_ids ids) (\<lambda>ids.
     bind_res (id_strings ids) (\<lambda>names.
     bind_res (experiment_flags ids) (\<lambda>flags.
     Inr \<lparr>rm_suite_id = suite_id, rm_run_id = run_id, rm_benchmark_version = bv,
          rm_schema_version = (if first_text first ''SchemaVersion'' \<noteq> []
            then first_text first ''SchemaVersion'' else ''metrics.v2''),
          rm_summary = summary, rm_exec = exec, rm_experiment_ids = names,
          rm_experiments = (if names \<noteq> [] then join '';'' names else ''none''),
          rm_flags = flags\<rparr>))))))))))"

text \<open>\<open>list_join(run_summary.get(k, []))\<close>\<close>

definition list_join :: "(json \<Rightarrow> string) \<Rightarrow> json \<Rightarrow> string \<Rightarrow> string ires" where
  "list_join rp s k =
     bind_res (bind_res (py_get s k (JList [])) py_iter) (\<lambda>vs. Inr (join '';'' (map (py_str rp) vs)))"

definition run_index_row_of :: "(json \<Rightarrow> string) \<Rightarrow> metrics_file \<Rightarrow> run_meta \<Rightarrow> run_index_row ires" where
  "run_index_row_of rp mf r =
     bind_res (bind_res (py_get (rm_summary r) ''rows'' (JInt (int (length (mf_rows mf))))) py_int) (\<lambda>n.
     bind_res (list_join rp (rm_summary r) ''replications'') (\<lambda>reps.
     bind_res (list_join rp (rm_summary r) ''num_tasks'') (\<lambda>tasks.
     bind_res (list_join rp (rm_summary r) ''cores'') (\<lambda>cores.
     bind_res (list_join rp (rm_summary r) ''stop_time'') (\<lambda>stop.
     bind_res (list_join rp (rm_summary r) ''topologies'') (\<lambda>tops.
     bind_res (list_join rp (rm_summary r) ''balancers'') (\<lambda>bals.
     bind_res (list_join rp (rm_summary r) ''work_stealing_values'') (\<lambda>ws.
     bind_res (list_join rp (rm_summary r) ''schedulers'') (\<lambda>scheds.
     bind_res (list_join rp (rm_summary r) ''workloads'') (\<lambda>works.
     bind_res (py_get (manifest_dict (mf_manifest mf)) ''git_commit'' (JStr [])) (\<lambda>commit.
     bind_res (py_get (manifest_dict (mf_manifest mf)) ''generated_at_utc'' (JStr [])) (\<lambda>gen.
     Inr \<lparr>ri_benchmark_version = rm_benchmark_version r, ri_suite_id = rm_suite_id r,
          ri_run_id = rm_run_id r, ri_schema_version = rm_schema_version r,
          ri_metrics_path = mf_metrics_path mf,
          ri_tasks_path = (if mf_tasks_exists mf then mf_tasks_path mf else []),
          ri_manifest_path = (if mf_manifest_exists mf then mf_manifest_path mf else []),
          ri_summary_path = em_summary_path (rm_exec r), ri_status = em_status (rm_exec r),
          ri_log_path = em_log_path (rm_exec r), ri_experiments = rm_experiments r,
          ri_rows = n, ri_replications = reps, ri_num_tasks = tasks, ri_cores = cores,
          ri_stop_time = stop, ri_topologies = tops, ri_balancers = bals, ri_work_stealing = ws,
          ri_schedulers = scheds, ri_workloads = works, ri_git_commit = commit,
          ri_generated_at = gen\<rparr>))))))))))))"


section \<open>The rows\<close>

definition required_text :: "string list" where
  "required_text = [''BenchmarkVersion'', ''SchemaVersion'', ''SuiteId'', ''RunId'', ''Scheduler'',
     ''Workload'', ''Topology'']"

definition required_numeric :: "string list" where
  "required_numeric = [''Completed'', ''CompletionRatio'', ''MeanRT'', ''P99RT'', ''Throughput'',
     ''JainsFairness'', ''ContextSwitches'', ''Preemptions'']"

text \<open>An issue of the row: what all issues of a row share, and what they say.\<close>

definition row_issue ::
  "metrics_file \<Rightarrow> run_meta \<Rightarrow> csv_row \<Rightarrow> string \<Rightarrow> severity \<Rightarrow> string \<Rightarrow> json \<Rightarrow> string \<Rightarrow> string \<Rightarrow> quality_issue"
where
  "row_issue mf r raw check sev metric v threshold message =
     \<lparr>q_check_type = check, q_severity = sev, q_suite_id = rm_suite_id r, q_run_id = rm_run_id r,
      q_source_file = mf_metrics_path mf, q_scheduler = cell_get raw ''Scheduler'',
      q_workload = cell_get raw ''Workload'', q_metric = metric, q_value = v,
      q_threshold = threshold, q_message = message\<rparr>"

definition text_issues :: "metrics_file \<Rightarrow> run_meta \<Rightarrow> csv_row \<Rightarrow> quality_issue list" where
  "text_issues mf r raw = concat (map (\<lambda>col.
     if py_strip (cell_str (cell_get raw col)) = []
     then [row_issue mf r raw ''missing_cell'' ERROR col (JStr []) ''required_non_empty''
       (''Missing required text field: '' @ col)]
     else []) required_text)"

definition numeric_issues :: "metrics_file \<Rightarrow> run_meta \<Rightarrow> csv_row \<Rightarrow> quality_issue list" where
  "numeric_issues mf r raw = concat (map (\<lambda>col.
     let raw_val = py_strip (cell_str (cell_get raw col)) in
     if raw_val = []
     then [row_issue mf r raw ''missing_cell'' ERROR col (JStr []) ''required_numeric''
       (''Missing required numeric field: '' @ col)]
     else if parse_float raw_val = None
     then [row_issue mf r raw ''missing_cell'' ERROR col (JStr raw_val) ''required_numeric''
       (''Invalid numeric value in '' @ col)]
     else []) required_numeric)"

text \<open>\<open>safe_div\<close> of two integers.\<close>

definition int_div :: "int \<Rightarrow> int \<Rightarrow> pyfloat" where
  "int_div a b = (if b = 0 then Fin 0 else float_of_rat (of_int a / of_int b))"

definition enrich_row :: "metrics_file \<Rightarrow> run_meta \<Rightarrow> csv_row \<Rightarrow> metrics_row" where
  "enrich_row mf r raw = \<lparr>
     m_benchmark_version = rm_benchmark_version r,
     m_schema_version = rm_schema_version r,
     m_suite_id = rm_suite_id r,
     m_run_id = rm_run_id r,
     m_seed = row_int raw ''Seed'',
     m_source_file = mf_metrics_path mf,
     m_replication = row_int raw ''Replication'',
     m_num_tasks = row_int raw ''NumTasks'',
     m_cores = row_int raw ''Cores'',
     m_topology = cell_get raw ''Topology'',
     m_balancer = cell_get raw ''Balancer'',
     m_work_stealing = cell_get raw ''WorkStealing'',
     m_stop_time = row_float raw ''StopTime'',
     m_scheduler = cell_get raw ''Scheduler'',
     m_scheduler_class = (if cell_get raw ''Scheduler'' \<in> Some ` {''CFS'', ''EEVDF'', ''Stride''}
       then ''fairness_oriented'' else ''alternative''),
     m_workload = cell_get raw ''Workload'',
     m_workload_type = (if cell_get raw ''Workload'' \<in> Some ` {''Server'', ''Desktop''}
       then ''synthetic'' else ''real_trace''),
     m_topology_variant = topology_variant (cell_get raw ''Topology'') (row_int raw ''Cores'')
       (cell_get raw ''Balancer'') (cell_get raw ''WorkStealing''),
     m_experiment_ids = rm_experiments r,
     m_flags = rm_flags r,
     m_completed = row_int raw ''Completed'',
     m_completion_ratio = row_float raw ''CompletionRatio'',
     m_mean_rt = row_float raw ''MeanRT'',
     m_p95_rt = row_float raw ''P95RT'',
     m_p99_rt = row_float raw ''P99RT'',
     m_mean_tat = row_float raw ''MeanTAT'',
     m_mean_wt = row_float raw ''MeanWT'',
     m_throughput = row_float raw ''Throughput'',
     m_throughput_per_core = row_float raw ''ThroughputPerCore'',
     m_utilization = row_float raw ''Utilization'',
     m_jains_fairness = row_float raw ''JainsFairness'',
     m_context_switches = row_int raw ''ContextSwitches'',
     m_preemptions = row_int raw ''Preemptions'',
     m_context_switches_per_task = int_div (row_int raw ''ContextSwitches'') (row_int raw ''Completed''),
     m_preemptions_per_task = int_div (row_int raw ''Preemptions'') (row_int raw ''Completed'')\<rparr>"

definition completion_issues :: "metrics_file \<Rightarrow> run_meta \<Rightarrow> csv_row \<Rightarrow> metrics_row \<Rightarrow> quality_issue list" where
  "completion_issues mf r raw row =
     (let c = m_completion_ratio row in
      if float_less c (1 / 100)
      then [row_issue mf r raw ''low_completion_ratio'' WARN ''CompletionRatio'' (JFloat c) ''<0.01''
        ''Extremely low completion ratio; latency/overhead can be unstable.'']
      else if float_less c (1 / 10)
      then [row_issue mf r raw ''low_completion_ratio'' INFO ''CompletionRatio'' (JFloat c) ''<0.10''
        ''Low completion ratio; interpret aggregate metrics with caution.'']
      else [])"

definition log_scale_issues :: "metrics_file \<Rightarrow> run_meta \<Rightarrow> csv_row \<Rightarrow> metrics_row \<Rightarrow> quality_issue list" where
  "log_scale_issues mf r raw row = concat (map (\<lambda>(name, value).
     if is_finite value \<and> \<not> float_le_zero value then []
     else [row_issue mf r raw ''invalid_log_scale_candidate'' WARN name (JFloat value) ''>0''
       ''Value is non-positive or invalid for log-scale plotting.''])
     [(''MeanRT'', m_mean_rt row), (''P99RT'', m_p99_rt row),
      (''ContextSwitchesPerTask'', m_context_switches_per_task row)])"

definition row_issues :: "metrics_file \<Rightarrow> run_meta \<Rightarrow> csv_row \<Rightarrow> quality_issue list" where
  "row_issues mf r raw =
     (let row = enrich_row mf r raw
      in text_issues mf r raw @ numeric_issues mf r raw @ completion_issues mf r raw row
         @ log_scale_issues mf r raw row)"


section \<open>The loop over the files\<close>

record aggregate =
  g_metrics :: "metrics_row list"
  g_index :: "run_index_row list"
  g_quality :: "quality_issue list"
  g_experiments :: "((string \<times> string) \<times> string) list"

definition aggregate_start :: aggregate where
  "aggregate_start = \<lparr>g_metrics = [], g_index = [], g_quality = [], g_experiments = []\<rparr>"

definition aggregate_file ::
  "(json \<Rightarrow> string) \<Rightarrow> exec_index \<Rightarrow> (json \<times> suite_spec) list \<Rightarrow> metrics_file \<Rightarrow> aggregate \<Rightarrow> aggregate ires"
where
  "aggregate_file rp idx specs mf g = (case mf_rows mf of
      [] \<Rightarrow> Inr g
    | first # _ \<Rightarrow>
        bind_res (run_meta_of rp idx specs mf first) (\<lambda>r.
        bind_res (run_index_row_of rp mf r) (\<lambda>ri.
        Inr \<lparr>g_metrics = g_metrics g @ map (enrich_row mf r) (mf_rows mf),
             g_index = g_index g @ [ri],
             g_quality = g_quality g @ concat (map (row_issues mf r) (mf_rows mf)),
             g_experiments = AList.update (rm_suite_id r, rm_run_id r) (rm_experiments r) (g_experiments g)\<rparr>)))"


section \<open>Duplicate configurations\<close>

type_synonym config_key =
  "string \<times> string \<times> int \<times> int \<times> cell \<times> cell \<times> cell \<times> cell \<times> cell \<times> int \<times> int \<times> pyfloat"

definition config_key :: "metrics_row \<Rightarrow> config_key" where
  "config_key row = (m_suite_id row, m_run_id row, m_seed row, m_replication row, m_scheduler row,
     m_workload row, m_topology row, m_balancer row, m_work_stealing row, m_cores row,
     m_num_tasks row, m_stop_time row)"

text \<open>A NaN stop time makes a key different from every other.\<close>

definition nan_config :: "config_key \<Rightarrow> bool" where
  "nan_config k = (case k of (_, _, _, _, _, _, _, _, _, _, _, t) \<Rightarrow> t = NaN)"

definition duplicate_issue :: "metrics_row list \<Rightarrow> quality_issue" where
  "duplicate_issue rows = (let sample = hd rows in
     \<lparr>q_check_type = ''duplicate_config'', q_severity = WARN, q_suite_id = m_suite_id sample,
      q_run_id = m_run_id sample, q_source_file = m_source_file sample,
      q_scheduler = m_scheduler sample, q_workload = m_workload sample,
      q_metric = ''config_key'', q_value = JInt (int (length rows)), q_threshold = ''count=1'',
      q_message = ''Duplicate configuration rows detected within aggregated metrics.''\<rparr>)"

definition duplicate_issues :: "metrics_row list \<Rightarrow> quality_issue list" where
  "duplicate_issues rows =
     map (\<lambda>g. duplicate_issue (snd g))
       (filter (\<lambda>g. 1 < length (snd g)) (group_by nan_config config_key rows))"

text \<open>The first half of the program: the loop and the duplicates.\<close>

definition aggregate_metrics ::
  "(json \<Rightarrow> string) \<Rightarrow> exec_index \<Rightarrow> (json \<times> suite_spec) list \<Rightarrow> metrics_file list \<Rightarrow> aggregate ires"
where
  "aggregate_metrics rp idx specs files =
     bind_res (fold_res (aggregate_file rp idx specs) files aggregate_start) (\<lambda>g.
     Inr (g\<lparr>g_quality := g_quality g @ duplicate_issues (g_metrics g)\<rparr>))"

section \<open>The quality of a row\<close>

lemma row_issue_check [simp]: "q_check_type (row_issue mf r raw c s m v t x) = c"
  and row_issue_metric [simp]: "q_metric (row_issue mf r raw c s m v t x) = m"
  by (simp_all add: row_issue_def)

lemma parse_float_blank [simp]: "parse_float [] = None"
  by code_simp

lemma text_issues_Nil:
  "text_issues mf r raw = [] \<longleftrightarrow> (\<forall>col\<in>set required_text. py_strip (cell_str (cell_get raw col)) \<noteq> [])"
  by (auto simp: text_issues_def)

lemma concat_map_Nil: "concat (map f xs) = [] \<longleftrightarrow> (\<forall>x\<in>set xs. f x = [])"
  by (induction xs) auto

lemma numeric_issues_Nil:
  "numeric_issues mf r raw = []
     \<longleftrightarrow> (\<forall>col\<in>set required_numeric. parse_float (py_strip (cell_str (cell_get raw col))) \<noteq> None)"
proof -
  have "(let raw_val = v in if raw_val = [] then [f raw_val] else if parse_float raw_val = None then [g raw_val] else [])
      = [] \<longleftrightarrow> parse_float v \<noteq> None" for v and f g :: "string \<Rightarrow> quality_issue"
    by (cases "v = []") (simp_all add: Let_def parse_float_blank)
  then show ?thesis unfolding numeric_issues_def concat_map_Nil by (rule ball_cong [OF refl])
qed

lemma missing_only:
  "q \<in> set (text_issues mf r raw @ numeric_issues mf r raw) \<Longrightarrow> q_check_type q = ''missing_cell''"
  "q \<in> set (completion_issues mf r raw row @ log_scale_issues mf r raw row) \<Longrightarrow> q_check_type q \<noteq> ''missing_cell''"
  by (auto simp: text_issues_def numeric_issues_def completion_issues_def log_scale_issues_def Let_def
      split: if_splits)

text \<open>
  A row is reported with a missing cell exactly if one of the required texts is blank or
  one of the required numbers is no number.
\<close>

theorem missing_cell_exact:
  "(\<exists>q\<in>set (row_issues mf r raw). q_check_type q = ''missing_cell'')
   \<longleftrightarrow> (\<exists>col\<in>set required_text. py_strip (cell_str (cell_get raw col)) = [])
     \<or> (\<exists>col\<in>set required_numeric. parse_float (py_strip (cell_str (cell_get raw col))) = None)"
proof -
  let ?cells = "text_issues mf r raw @ numeric_issues mf r raw"
  have "(\<exists>q\<in>set (row_issues mf r raw). q_check_type q = ''missing_cell'') \<longleftrightarrow> ?cells \<noteq> []"
  proof
    assume "\<exists>q\<in>set (row_issues mf r raw). q_check_type q = ''missing_cell''"
    then obtain q where q: "q \<in> set (row_issues mf r raw)" "q_check_type q = ''missing_cell''" by blast
    with missing_only(2) [of q mf r raw "enrich_row mf r raw"] have "q \<in> set ?cells"
      by (auto simp: row_issues_def Let_def)
    then show "?cells \<noteq> []" by force
  next
    assume "?cells \<noteq> []"
    then have "hd ?cells \<in> set ?cells" by (rule hd_in_set)
    with missing_only(1) [OF this] show "\<exists>q\<in>set (row_issues mf r raw). q_check_type q = ''missing_cell''"
      unfolding row_issues_def Let_def by (metis Un_iff set_append)
  qed
  also have "\<dots> \<longleftrightarrow> (\<exists>col\<in>set required_text. py_strip (cell_str (cell_get raw col)) = [])
     \<or> (\<exists>col\<in>set required_numeric. parse_float (py_strip (cell_str (cell_get raw col))) = None)"
    using text_issues_Nil [of mf r raw] numeric_issues_Nil [of mf r raw] by auto
  finally show ?thesis .
qed

text \<open>
  A row that is shorter than the header has \<open>None\<close> in the columns that are missing; their
  text is \<open>None\<close>, so a row in which every required text is missing raises no issue about a
  text, while a row with empty texts raises one for each.
\<close>

theorem short_row_unnoticed:
  "text_issues mf r (map (\<lambda>c. (c, None)) required_text) = []
   \<and> length (text_issues mf r (map (\<lambda>c. (c, Some [])) required_text)) = 7"
proof
  have none: "py_strip (cell_str None) = ''None''" by code_simp
  have blank: "py_strip (cell_str (Some [])) = []" by code_simp
  have get: "cell_get (map (\<lambda>c. (c, v)) cs) col = v" if "col \<in> set cs" for cs col and v :: cell
    using that by (induction cs) (auto simp: cell_get_def)
  show "text_issues mf r (map (\<lambda>c. (c, None)) required_text) = []"
    unfolding text_issues_Nil by (simp add: get none)
  have "text_issues mf r (map (\<lambda>c. (c, Some [])) required_text)
      = concat (map (\<lambda>col. [row_issue mf r (map (\<lambda>c. (c, Some [])) required_text) ''missing_cell'' ERROR col
          (JStr []) ''required_non_empty'' (''Missing required text field: '' @ col)]) required_text)"
    unfolding text_issues_def by (rule arg_cong [of _ _ concat], rule map_cong [OF refl]) (simp add: get blank)
  then show "length (text_issues mf r (map (\<lambda>c. (c, Some [])) required_text)) = 7"
    by (simp add: required_text_def)
qed

section \<open>Duplicates\<close>

text \<open>
  C37. Duplicate detection: among rows with proper stop times there is one issue for every
  configuration that occurs more than once, in particular none for any other, and its value is
  the number of rows of that configuration.
\<close>

theorem duplicate_issues_exact:
  assumes "\<forall>row\<in>set rows. m_stop_time row \<noteq> NaN"
  shows "\<exists>keys. distinct keys
    \<and> set keys = {k \<in> config_key ` set rows. 2 \<le> length (filter (\<lambda>row. config_key row = k) rows)}
    \<and> duplicate_issues rows = map (\<lambda>k. duplicate_issue (filter (\<lambda>row. config_key row = k) rows)) keys
    \<and> map q_value (duplicate_issues rows)
        = map (\<lambda>k. JInt (int (length (filter (\<lambda>row. config_key row = k) rows)))) keys"
proof -
  have "\<not> nan_config (config_key row)" if "row \<in> set rows" for row
    using assms that by (simp add: nan_config_def config_key_def)
  note g = group_by_plain [of rows nan_config config_key, OF this]
  let ?gs = "filter (\<lambda>g. 1 < length (snd g)) (group_by nan_config config_key rows)"
  let ?keys = "map fst ?gs"
  have mem: "snd g = filter (\<lambda>row. config_key row = fst g) rows" if "g \<in> set ?gs" for g
    using that g(2) [of "fst g" "snd g"] by simp
  have "distinct ?keys" using g(1) by (rule distinct_map_filter)
  moreover have "k \<in> set ?keys \<longleftrightarrow> k \<in> config_key ` set rows \<and> 2 \<le> length (filter (\<lambda>row. config_key row = k) rows)" for k
  proof
    assume "k \<in> set ?keys"
    then obtain vs where "(k, vs) \<in> set (group_by nan_config config_key rows)" "1 < length vs" by force
    with g(2) show "k \<in> config_key ` set rows \<and> 2 \<le> length (filter (\<lambda>row. config_key row = k) rows)" by auto
  next
    assume k: "k \<in> config_key ` set rows \<and> 2 \<le> length (filter (\<lambda>row. config_key row = k) rows)"
    with g(2) have "(k, filter (\<lambda>row. config_key row = k) rows) \<in> set ?gs" by simp
    then show "k \<in> set ?keys" by force
  qed
  moreover have "duplicate_issues rows = map (\<lambda>k. duplicate_issue (filter (\<lambda>row. config_key row = k) rows)) ?keys"
    using mem by (simp add: duplicate_issues_def comp_def)
  moreover have "q_value (duplicate_issue vs) = JInt (int (length vs))" for vs
    by (simp add: duplicate_issue_def Let_def)
  ultimately show ?thesis by (intro exI [of _ ?keys] conjI) (blast, blast, blast, simp add: comp_def)
qed

definition sample_metrics_file :: metrics_file where
  "sample_metrics_file = \<lparr>mf_metrics_path = ''runs/s/r/metrics.csv'', mf_tasks_path = ''runs/s/r/tasks.csv'',
     mf_tasks_exists = True, mf_manifest_path = [], mf_manifest_exists = False, mf_manifest = None,
     mf_suite_dir = ''s'', mf_run_dir = ''r'',
     mf_rows = [[(''Scheduler'', Some ''CFS''), (''Cores'', Some ''4'')]]\<rparr>"

definition sample_run_meta :: run_meta where
  "sample_run_meta = \<lparr>rm_suite_id = ''s'', rm_run_id = ''r'', rm_benchmark_version = ''v1'',
     rm_schema_version = ''metrics.v2'', rm_summary = JObj [], rm_exec = no_exec_meta,
     rm_experiment_ids = [], rm_experiments = ''none'', rm_flags = no_flags\<rparr>"

text \<open>Two rows with the stop times \<open>1\<close> and \<open>1.0\<close>, and one with another.\<close>

definition sample_stop_rows :: "metrics_row list" where
  "sample_stop_rows = map (\<lambda>t. enrich_row sample_metrics_file sample_run_meta [(''StopTime'', Some t)])
     [''1'', ''2'', ''1.0'']"

theorem duplicate_issues_exact_witness:
  "\<exists>keys. distinct keys \<and> set keys = {config_key (hd sample_stop_rows)}
     \<and> map q_value (duplicate_issues sample_stop_rows) = map (\<lambda>_. JInt 2) keys"
proof -
  have times: "map m_stop_time sample_stop_rows = [Fin 1, Fin 2, Fin 1]" by code_simp
  then obtain a b c where rows: "sample_stop_rows = [a, b, c]"
    "m_stop_time a = Fin 1" "m_stop_time b = Fin 2" "m_stop_time c = Fin 1"
    by (auto simp: map_eq_Cons_conv)
  have "config_key (sample_stop_rows ! 0) = config_key (sample_stop_rows ! 2)" by code_simp
  then have keys: "config_key a = config_key c" "config_key b \<noteq> config_key a"
    unfolding rows(1) by simp (use rows in \<open>simp add: config_key_def\<close>)
  have "\<forall>row\<in>set sample_stop_rows. m_stop_time row \<noteq> NaN"
    unfolding rows(1) by (simp add: rows(2-4))
  from duplicate_issues_exact [OF this] obtain ks where ks: "distinct ks"
    "set ks = {k \<in> config_key ` set sample_stop_rows. 2 \<le> length (filter (\<lambda>row. config_key row = k) sample_stop_rows)}"
    "map q_value (duplicate_issues sample_stop_rows)
      = map (\<lambda>k. JInt (int (length (filter (\<lambda>row. config_key row = k) sample_stop_rows)))) ks" by blast
  have "set ks = {config_key a}" unfolding ks(2) rows(1) using keys by auto
  moreover from this have "\<forall>k\<in>set ks. length (filter (\<lambda>row. config_key row = k) sample_stop_rows) = 2"
    using keys unfolding rows(1) by auto
  moreover have "hd sample_stop_rows = a" unfolding rows(1) by simp
  ultimately show ?thesis using ks(1,3) by (intro exI [of _ ks]) simp
qed

section \<open>The rows and the index\<close>

text \<open>What every state of the loop satisfies, and what a file adds.\<close>

definition indexed :: "aggregate \<Rightarrow> bool" where
  "indexed g \<longleftrightarrow> (\<forall>row\<in>set (g_metrics g).
     (\<exists>ri\<in>set (g_index g). ri_suite_id ri = m_suite_id row \<and> ri_run_id ri = m_run_id row
        \<and> ri_metrics_path ri = m_source_file row \<and> ri_experiments ri = m_experiment_ids row)
     \<and> map_of (g_experiments g) (m_suite_id row, m_run_id row) \<noteq> None)"

lemma run_index_row_of_fields:
  "run_index_row_of rp mf r = Inr ri \<Longrightarrow> ri_suite_id ri = rm_suite_id r \<and> ri_run_id ri = rm_run_id r
     \<and> ri_metrics_path ri = mf_metrics_path mf \<and> ri_experiments ri = rm_experiments r"
  by (auto simp: run_index_row_of_def bind_res_Inr)

lemma aggregate_file_Inr:
  assumes "aggregate_file rp idx specs mf g = Inr g'" and "mf_rows mf \<noteq> []"
  obtains r ri where
    "run_meta_of rp idx specs mf (hd (mf_rows mf)) = Inr r" "run_index_row_of rp mf r = Inr ri"
    "g_metrics g' = g_metrics g @ map (enrich_row mf r) (mf_rows mf)" "g_index g' = g_index g @ [ri]"
    "g_quality g' = g_quality g @ concat (map (row_issues mf r) (mf_rows mf))"
    "g_experiments g' = AList.update (rm_suite_id r, rm_run_id r) (rm_experiments r) (g_experiments g)"
  using assms by (cases "mf_rows mf") (auto simp: aggregate_file_def bind_res_Inr)

lemma aggregate_file_indexed:
  assumes "aggregate_file rp idx specs mf g = Inr g'" and "indexed g"
  shows "indexed g'"
proof (cases "mf_rows mf = []")
  case True
  with assms show ?thesis by (simp add: aggregate_file_def)
next
  case False
  show ?thesis
  proof (rule aggregate_file_Inr [OF assms(1) False])
    fix r ri
    assume *: "run_index_row_of rp mf r = Inr ri" "g_index g' = g_index g @ [ri]"
      "g_metrics g' = g_metrics g @ map (enrich_row mf r) (mf_rows mf)"
      "g_experiments g' = AList.update (rm_suite_id r, rm_run_id r) (rm_experiments r) (g_experiments g)"
    with run_index_row_of_fields [OF *(1)] assms(2) show "indexed g'"
      by (fastforce simp: indexed_def update_conv' enrich_row_def)
  qed
qed

lemma aggregate_file_counts:
  assumes "aggregate_file rp idx specs mf g = Inr g'"
  shows "length (g_metrics g') = length (g_metrics g) + length (mf_rows mf)"
    and "length (g_index g') = length (g_index g) + (if mf_rows mf = [] then 0 else 1)"
  using assms by (cases "mf_rows mf"; auto simp: aggregate_file_def bind_res_Inr)+

lemma aggregate_files_counts:
  "fold_res (aggregate_file rp idx specs) files g = Inr g' \<Longrightarrow>
     length (g_metrics g') = length (g_metrics g) + sum_list (map (length \<circ> mf_rows) files)
     \<and> length (g_index g') = length (g_index g) + length (filter (\<lambda>mf. mf_rows mf \<noteq> []) files)"
proof (induction files arbitrary: g)
  case (Cons mf files)
  then obtain g1 where "aggregate_file rp idx specs mf g = Inr g1"
    "fold_res (aggregate_file rp idx specs) files g1 = Inr g'" by (auto simp: bind_res_Inr)
  with Cons.IH [of g1] aggregate_file_counts [of rp idx specs mf g g1] show ?case by simp
qed simp



end
