(* ===== verification/AnalysisFiles.thy ===== *)
theory AnalysisFiles
  imports Aggregate
begin

text \<open>
  \<open>scripts/aggregate_results.py\<close>: the CSV files of the first half of the program, that is,
  the rows as the dictionaries of the code, the headers, and \<open>csv.DictWriter\<close>, which raises
  \<open>ValueError\<close> for a row with a key that is not in the header and leaves a missing one blank.
\<close>

section \<open>The rows as dictionaries\<close>

type_synonym dict_row = "(string \<times> json) list"

definition cell_value :: "cell \<Rightarrow> json" where
  "cell_value c = (case c of None \<Rightarrow> JNull | Some s \<Rightarrow> JStr s)"

definition metrics_dict :: "metrics_row \<Rightarrow> dict_row" where
  "metrics_dict r = [
     (''BenchmarkVersion'', JStr (m_benchmark_version r)), (''SchemaVersion'', JStr (m_schema_version r)),
     (''SuiteId'', JStr (m_suite_id r)), (''RunId'', JStr (m_run_id r)), (''Seed'', JInt (m_seed r)),
     (''SourceFile'', JStr (m_source_file r)), (''Replication'', JInt (m_replication r)),
     (''NumTasks'', JInt (m_num_tasks r)), (''Cores'', JInt (m_cores r)),
     (''Topology'', cell_value (m_topology r)), (''Balancer'', cell_value (m_balancer r)),
     (''WorkStealing'', cell_value (m_work_stealing r)), (''StopTime'', JFloat (m_stop_time r)),
     (''Scheduler'', cell_value (m_scheduler r)), (''SchedulerClass'', JStr (m_scheduler_class r)),
     (''Workload'', cell_value (m_workload r)), (''WorkloadType'', JStr (m_workload_type r)),
     (''TopologyVariant'', JStr (m_topology_variant r)), (''ExperimentIds'', JStr (m_experiment_ids r))]
   @ map (\<lambda>(k, v). (k, JInt v)) (m_flags r) @ [
     (''Completed'', JInt (m_completed r)), (''CompletionRatio'', JFloat (m_completion_ratio r)),
     (''MeanRT'', JFloat (m_mean_rt r)), (''P95RT'', JFloat (m_p95_rt r)), (''P99RT'', JFloat (m_p99_rt r)),
     (''MeanTAT'', JFloat (m_mean_tat r)), (''MeanWT'', JFloat (m_mean_wt r)),
     (''Throughput'', JFloat (m_throughput r)), (''ThroughputPerCore'', JFloat (m_throughput_per_core r)),
     (''Utilization'', JFloat (m_utilization r)), (''JainsFairness'', JFloat (m_jains_fairness r)),
     (''ContextSwitches'', JInt (m_context_switches r)), (''Preemptions'', JInt (m_preemptions r)),
     (''ContextSwitchesPerTask'', JFloat (m_context_switches_per_task r)),
     (''PreemptionsPerTask'', JFloat (m_preemptions_per_task r))]"

definition run_index_dict :: "run_index_row \<Rightarrow> dict_row" where
  "run_index_dict r = [
     (''BenchmarkVersion'', JStr (ri_benchmark_version r)), (''SuiteId'', JStr (ri_suite_id r)),
     (''RunId'', JStr (ri_run_id r)), (''MetricsSchemaVersion'', JStr (ri_schema_version r)),
     (''MetricsPath'', JStr (ri_metrics_path r)), (''TasksPath'', JStr (ri_tasks_path r)),
     (''ManifestPath'', JStr (ri_manifest_path r)), (''ExecutionSummaryPath'', JStr (ri_summary_path r)),
     (''ExecutionStatus'', ri_status r), (''ExecutionLogPath'', ri_log_path r),
     (''Experiments'', JStr (ri_experiments r)), (''Rows'', JInt (ri_rows r)),
     (''Replications'', JStr (ri_replications r)), (''NumTasks'', JStr (ri_num_tasks r)),
     (''Cores'', JStr (ri_cores r)), (''StopTime'', JStr (ri_stop_time r)),
     (''Topologies'', JStr (ri_topologies r)), (''Balancers'', JStr (ri_balancers r)),
     (''WorkStealingValues'', JStr (ri_work_stealing r)), (''Schedulers'', JStr (ri_schedulers r)),
     (''Workloads'', JStr (ri_workloads r)), (''ManifestGitCommit'', ri_git_commit r),
     (''ManifestGeneratedAtUtc'', ri_generated_at r)]"

definition severity_text :: "severity \<Rightarrow> string" where
  "severity_text s = (case s of ERROR \<Rightarrow> ''ERROR'' | WARN \<Rightarrow> ''WARN'' | INFO \<Rightarrow> ''INFO'')"

definition quality_dict :: "quality_issue \<Rightarrow> dict_row" where
  "quality_dict q = [
     (''CheckType'', JStr (q_check_type q)), (''Severity'', JStr (severity_text (q_severity q))),
     (''SuiteId'', JStr (q_suite_id q)), (''RunId'', JStr (q_run_id q)),
     (''SourceFile'', JStr (q_source_file q)), (''Scheduler'', cell_value (q_scheduler q)),
     (''Workload'', cell_value (q_workload q)), (''Metric'', JStr (q_metric q)), (''Value'', q_value q),
     (''Threshold'', JStr (q_threshold q)), (''Message'', JStr (q_message q))]"


section \<open>The headers\<close>

definition metrics_out_fields :: "string list" where
  "metrics_out_fields = [''BenchmarkVersion'', ''SchemaVersion'', ''SuiteId'', ''RunId'', ''Seed'',
     ''SourceFile'', ''Replication'', ''NumTasks'', ''Cores'', ''Topology'', ''Balancer'',
     ''WorkStealing'', ''StopTime'', ''Scheduler'', ''SchedulerClass'', ''Workload'', ''WorkloadType'',
     ''TopologyVariant'', ''ExperimentIds'', ''Exp1'', ''Exp2'', ''Exp3'', ''Exp4'', ''Exp5'', ''Exp6'',
     ''Completed'', ''CompletionRatio'', ''MeanRT'', ''P95RT'', ''P99RT'', ''MeanTAT'', ''MeanWT'',
     ''Throughput'', ''ThroughputPerCore'', ''Utilization'', ''JainsFairness'', ''ContextSwitches'',
     ''Preemptions'', ''ContextSwitchesPerTask'', ''PreemptionsPerTask'']"

definition run_index_fields :: "string list" where
  "run_index_fields = [''BenchmarkVersion'', ''SuiteId'', ''RunId'', ''MetricsSchemaVersion'',
     ''MetricsPath'', ''TasksPath'', ''ManifestPath'', ''ExecutionSummaryPath'', ''ExecutionStatus'',
     ''ExecutionLogPath'', ''Experiments'', ''Rows'', ''Replications'', ''NumTasks'', ''Cores'',
     ''StopTime'', ''Topologies'', ''Balancers'', ''WorkStealingValues'', ''Schedulers'', ''Workloads'',
     ''ManifestGitCommit'', ''ManifestGeneratedAtUtc'']"

definition quality_fields :: "string list" where
  "quality_fields = [''CheckType'', ''Severity'', ''SuiteId'', ''RunId'', ''SourceFile'', ''Scheduler'',
     ''Workload'', ''Metric'', ''Value'', ''Threshold'', ''Message'']"

text \<open>
  \<open>write_csv\<close>: the values of each row in the order of the header; \<open>str\<close> makes a cell of a
  string.
\<close>

definition dict_line :: "'v \<Rightarrow> string list \<Rightarrow> (string \<times> 'v) list \<Rightarrow> 'v list ires" where
  "dict_line blank header row =
     (if list_all (\<lambda>(k, _). k \<in> set header) row
      then Inr (map (\<lambda>k. case map_of row k of None \<Rightarrow> blank | Some v \<Rightarrow> v) header)
      else Inl ConvErr)"

definition write_dicts :: "(string \<Rightarrow> 'v) \<Rightarrow> string list \<Rightarrow> (string \<times> 'v) list list \<Rightarrow> 'v list list ires" where
  "write_dicts str header rows =
     bind_res (map_res (dict_line (str []) header) rows) (\<lambda>ls. Inr (map str header # ls))"

record analysis_files =
  af_metrics :: "json list list"
  af_index :: "json list list"
  af_quality :: "json list list"

definition write_analysis :: "aggregate \<Rightarrow> analysis_files ires" where
  "write_analysis g =
     bind_res (write_dicts JStr metrics_out_fields (map metrics_dict (g_metrics g))) (\<lambda>ms.
     bind_res (write_dicts JStr run_index_fields (map run_index_dict (g_index g))) (\<lambda>ri.
     bind_res (write_dicts JStr quality_fields (map quality_dict (g_quality g))) (\<lambda>q.
     Inr \<lparr>af_metrics = ms, af_index = ri, af_quality = q\<rparr>)))"


section \<open>Every row fits its header\<close>

lemma set_flags_keys:
  "set_flags ids flags = Inr flags' \<Longrightarrow> set (map fst flags) = exp_flag_name ` {1..<7} \<Longrightarrow> distinct (map fst flags)
     \<Longrightarrow> map fst flags' = map fst flags"
proof (induction ids flags rule: set_flags.induct)
  case (2 s ids flags)
  let ?flags = "case exp_number (py_lower s) of None \<Rightarrow> flags
      | Some idx \<Rightarrow> if 1 \<le> idx \<and> idx \<le> 6 then AList.update (exp_flag_name idx) 1 flags else flags"
  have "map fst ?flags = map fst flags"
    using 2(3) by (auto simp: update_keys split: option.splits)
  with 2 show ?case by simp
qed auto

lemma experiment_flags_keys:
  "experiment_flags ids = Inr flags \<Longrightarrow> map fst flags = [''Exp1'', ''Exp2'', ''Exp3'', ''Exp4'', ''Exp5'', ''Exp6'']"
proof -
  assume "experiment_flags ids = Inr flags"
  moreover have no: "map fst no_flags = map exp_flag_name [1..<7]" by (simp add: no_flags_def)
  moreover have names: "map exp_flag_name [1..<7] = [''Exp1'', ''Exp2'', ''Exp3'', ''Exp4'', ''Exp5'', ''Exp6'']"
    by code_simp
  moreover have "distinct (map exp_flag_name [1..<7])" unfolding names by simp
  moreover have "set (map fst no_flags) = exp_flag_name ` {1..<7}" unfolding no by simp
  ultimately show ?thesis using set_flags_keys [of ids no_flags flags] by (simp only: experiment_flags_def)
qed

lemma dict_line_fits:
  "map fst row = header \<Longrightarrow> distinct header \<Longrightarrow> dict_line blank header row = Inr (map snd row)"
proof -
  assume row: "map fst row = header" "distinct header"
  then have "distinct (map fst row)" by simp
  then have "map_of row k = Some v" if "(k, v) \<in> set row" for k v using that by simp
  then have "map (\<lambda>k. case map_of row k of None \<Rightarrow> blank | Some v \<Rightarrow> v) (map fst row) = map snd row"
    by auto
  moreover have "list_all (\<lambda>(k, _). k \<in> set header) row"
    unfolding row(1) [symmetric] by (force simp: list_all_iff)
  ultimately show ?thesis using row(1) by (simp add: dict_line_def)
qed

lemma write_dicts_fits:
  assumes "\<forall>row\<in>set rows. map fst row = header" and "distinct header"
  shows "write_dicts str header rows = Inr (map str header # map (map snd) rows)"
proof -
  have "map_res (dict_line (str []) header) rows = Inr (map (map snd) rows)"
    by (rule map_res_total) (simp add: assms dict_line_fits)
  then show ?thesis by (simp add: write_dicts_def)
qed

definition flags_complete :: "aggregate \<Rightarrow> bool" where
  "flags_complete g \<longleftrightarrow> (\<forall>row\<in>set (g_metrics g).
     map fst (m_flags row) = [''Exp1'', ''Exp2'', ''Exp3'', ''Exp4'', ''Exp5'', ''Exp6''])"

lemma run_meta_flags:
  "run_meta_of rp idx specs mf first = Inr r
     \<Longrightarrow> map fst (rm_flags r) = [''Exp1'', ''Exp2'', ''Exp3'', ''Exp4'', ''Exp5'', ''Exp6'']"
  by (auto simp: run_meta_of_def bind_res_Inr dest: experiment_flags_keys)

lemma aggregate_file_flags:
  assumes "aggregate_file rp idx specs mf g = Inr g'" and "flags_complete g"
  shows "flags_complete g'"
proof (cases "mf_rows mf = []")
  case True
  with assms show ?thesis by (simp add: aggregate_file_def)
next
  case False
  show ?thesis
  proof (rule aggregate_file_Inr [OF assms(1) False])
    fix r assume "run_meta_of rp idx specs mf (hd (mf_rows mf)) = Inr r"
      "g_metrics g' = g_metrics g @ map (enrich_row mf r) (mf_rows mf)"
    with run_meta_flags assms(2) show ?thesis by (auto simp: flags_complete_def enrich_row_def)
  qed
qed

lemma aggregate_flags_complete: "aggregate_metrics rp idx specs files = Inr g \<Longrightarrow> flags_complete g"
proof -
  assume "aggregate_metrics rp idx specs files = Inr g"
  then obtain g1 where g1: "fold_res (aggregate_file rp idx specs) files aggregate_start = Inr g1"
    "g_metrics g = g_metrics g1"
    by (auto simp: aggregate_metrics_def bind_res_Inr)
  have "flags_complete g1" using g1(1)
    by (rule fold_res_invariant) (simp add: flags_complete_def aggregate_start_def, rule aggregate_file_flags)
  with g1(2) show ?thesis by (simp add: flags_complete_def)
qed

lemma dict_fields:
  "map fst (run_index_dict ri) = run_index_fields" "map fst (quality_dict q) = quality_fields"
  "flags_complete g \<Longrightarrow> row \<in> set (g_metrics g) \<Longrightarrow> map fst (metrics_dict row) = metrics_out_fields"
  by (simp_all add: run_index_dict_def run_index_fields_def quality_dict_def quality_fields_def
      flags_complete_def metrics_dict_def metrics_out_fields_def comp_def case_prod_unfold)

lemma headers_distinct: "distinct metrics_out_fields" "distinct run_index_fields" "distinct quality_fields"
  by code_simp+

lemma analysis_written:
  "flags_complete g \<Longrightarrow> write_analysis g = Inr \<lparr>
     af_metrics = map JStr metrics_out_fields # map (map snd \<circ> metrics_dict) (g_metrics g),
     af_index = map JStr run_index_fields # map (map snd \<circ> run_index_dict) (g_index g),
     af_quality = map JStr quality_fields # map (map snd \<circ> quality_dict) (g_quality g)\<rparr>"
  by (simp add: write_analysis_def write_dicts_fits dict_fields headers_distinct)

text \<open>
  C17. What the aggregation computed can always be written: every dictionary has exactly the
  members that its header names, in the same order, each once, so that no row is refused and no
  cell is left blank; the files have one line per row below the header.
\<close>

theorem analysis_rows_fit:
  assumes "aggregate_metrics rp idx specs files = Inr g"
  shows "(\<forall>row\<in>set (g_metrics g). map fst (metrics_dict row) = metrics_out_fields)
    \<and> (\<forall>row\<in>set (g_index g). map fst (run_index_dict row) = run_index_fields)
    \<and> (\<forall>q\<in>set (g_quality g). map fst (quality_dict q) = quality_fields)
    \<and> distinct metrics_out_fields \<and> distinct run_index_fields \<and> distinct quality_fields
    \<and> write_analysis g = Inr \<lparr>
        af_metrics = map JStr metrics_out_fields # map (map snd \<circ> metrics_dict) (g_metrics g),
        af_index = map JStr run_index_fields # map (map snd \<circ> run_index_dict) (g_index g),
        af_quality = map JStr quality_fields # map (map snd \<circ> quality_dict) (g_quality g)\<rparr>"
  using aggregate_flags_complete [OF assms] by (simp add: dict_fields headers_distinct analysis_written)

theorem analysis_rows_fit_witness:
  "\<exists>g f. aggregate_metrics (\<lambda>_. []) [] [] [sample_metrics_file] = Inr g \<and> write_analysis g = Inr f"
proof -
  have "(case aggregate_metrics (\<lambda>_. []) [] [] [sample_metrics_file] of Inr g \<Rightarrow> True | Inl _ \<Rightarrow> False)" by code_simp
  then obtain g where *: "aggregate_metrics (\<lambda>_. []) [] [] [sample_metrics_file] = Inr g"
    by (auto split: sum.splits)
  from analysis_rows_fit [OF *] * show ?thesis by blast
qed

end
