(* ===== verification/Stats.thy ===== *)
theory Stats
  imports Aggregate
begin

text \<open>
  The statistics of \<open>scripts/aggregate_results.py\<close> (\<open>mean\<close>, \<open>stddev\<close>, \<open>cv\<close>, \<open>safe_div\<close>,
  \<open>corr\<close>), and dictionaries that accumulate a value per key, as the analysis of the tasks and
  the summary table use them.

  Finite floats are exact rationals here as elsewhere; square roots are real numbers.
\<close>

section \<open>Accumulating dictionaries\<close>

text \<open>
  \<open>for x in xs: d[key(x)] = step(x, d[key(x)])\<close> on a \<open>defaultdict\<close> whose new entries are
  \<open>init\<close>; the entries are in the order of their first key.
\<close>

definition accumulate :: "('v \<Rightarrow> 'k) \<Rightarrow> ('v \<Rightarrow> 'a \<Rightarrow> 'a) \<Rightarrow> 'a \<Rightarrow> 'v list \<Rightarrow> ('k \<times> 'a) list" where
  "accumulate key step init xs =
     fold (\<lambda>x d. AList.update (key x)
        (step x (case map_of d (key x) of None \<Rightarrow> init | Some a \<Rightarrow> a)) d) xs []"

lemma accumulate_Nil [simp]: "accumulate key step init [] = []"
  by (simp add: accumulate_def)

lemma accumulate_snoc:
  "accumulate key step init (xs @ [x]) =
     (let d = accumulate key step init xs
      in AList.update (key x) (step x (case map_of d (key x) of None \<Rightarrow> init | Some a \<Rightarrow> a)) d)"
  by (simp add: accumulate_def Let_def)

lemma accumulate_distinct: "distinct (map fst (accumulate key step init xs))"
  by (induction xs rule: rev_induct) (simp_all add: accumulate_snoc Let_def distinct_update)

lemma accumulate_map_of:
  "map_of (accumulate key step init xs) k =
     (if k \<in> key ` set xs then Some (fold step (filter (\<lambda>x. key x = k) xs) init) else None)"
proof (induction xs arbitrary: k rule: rev_induct)
  case (snoc x xs)
  have "filter (\<lambda>y. key y = k) xs = []" if "k \<notin> key ` set xs" for k
    using that by (auto simp: filter_empty_conv)
  with snoc show ?case by (auto simp: accumulate_snoc Let_def update_conv')
qed simp

lemma accumulate_keys: "fst ` set (accumulate key step init xs) = key ` set xs"
proof (rule set_eqI)
  fix k
  have "k \<in> fst ` set (accumulate key step init xs) \<longleftrightarrow> map_of (accumulate key step init xs) k \<noteq> None"
    unfolding map_of_eq_None_iff by simp
  then show "k \<in> fst ` set (accumulate key step init xs) \<longleftrightarrow> k \<in> key ` set xs"
    unfolding accumulate_map_of by simp
qed

lemma accumulate_entry:
  "(k, a) \<in> set (accumulate key step init xs)
     \<longleftrightarrow> k \<in> key ` set xs \<and> a = fold step (filter (\<lambda>x. key x = k) xs) init"
  using map_of_eq_Some_iff [OF accumulate_distinct, of key step init xs k a]
  by (auto simp: accumulate_map_of split: if_splits)

text \<open>\<open>sorted(d.items())\<close> of such a dictionary: its entries by increasing key.\<close>

definition sorted_items :: "('k::linorder \<times> 'a) list \<Rightarrow> ('k \<times> 'a) list" where
  "sorted_items d = sort_key fst d"

lemma set_sorted_items [simp]: "set (sorted_items d) = set d"
  by (simp add: sorted_items_def)

lemma sorted_items_accumulate:
  "sorted_wrt (<) (map fst (sorted_items (accumulate key step init xs)))"
proof -
  have "distinct (map fst (sorted_items (accumulate key step init xs)))"
    using accumulate_distinct [of key step init xs]
    by (simp add: sorted_items_def distinct_map inj_on_def)
  then show ?thesis by (simp add: strict_sorted_iff sorted_items_def)
qed

text \<open>Sums over the entries are sums over all elements.\<close>

lemma sum_list_by_key:
  fixes f :: "'v \<Rightarrow> 'a::comm_monoid_add"
  assumes "distinct ks" and "key ` set xs \<subseteq> set ks"
  shows "sum_list (map (\<lambda>k. sum_list (map f (filter (\<lambda>x. key x = k) xs))) ks) = sum_list (map f xs)"
  using assms(2)
proof (induction xs)
  case (Cons x xs)
  have "sum_list (map (\<lambda>k. sum_list (map f (filter (\<lambda>y. key y = k) (x # xs)))) ks)
      = sum_list (map (\<lambda>k. (if key x = k then f x else 0)
          + sum_list (map f (filter (\<lambda>y. key y = k) xs))) ks)"
    by (rule arg_cong [of _ _ sum_list]) simp
  also have "\<dots> = sum_list (map (\<lambda>k. if key x = k then f x else 0) ks) + sum_list (map f xs)"
    using Cons by (simp add: sum_list_addf)
  also have "sum_list (map (\<lambda>k. if key x = k then f x else 0) ks) = f x"
    using assms(1) Cons.prems by (simp add: sum_list_distinct_conv_sum_set)
  finally show ?case by simp
qed simp


text \<open>
  What the tables of the reports rely on when an accumulated value counts its elements: every
  count is the number of the elements with its key, and all counts add up.
\<close>

locale tally =
  fixes key :: "'v \<Rightarrow> 'k::linorder"
    and step :: "'v \<Rightarrow> 'a \<Rightarrow> 'a"
    and init :: 'a
    and count :: "'a \<Rightarrow> int"
  assumes count_init: "count init = 0"
    and count_step: "count (step x a) = count a + 1"
begin

definition table :: "'v list \<Rightarrow> ('k \<times> 'a) list" where
  "table xs = sorted_items (accumulate key step init xs)"

lemma count_fold: "count (fold step xs a) = count a + int (length xs)"
  by (induction xs arbitrary: a) (simp_all add: count_step)

lemma table_entry:
  "(k, a) \<in> set (table xs) \<longleftrightarrow> k \<in> key ` set xs \<and> a = fold step (filter (\<lambda>x. key x = k) xs) init"
  by (simp add: table_def accumulate_entry)

lemma table_keys: "sorted_wrt (<) (map fst (table xs))" "set (map fst (table xs)) = key ` set xs"
  by (simp_all add: table_def sorted_items_accumulate accumulate_keys)

lemma table_keys_distinct: "distinct (map fst (table xs))" "key ` set xs \<subseteq> set (map fst (table xs))"
  using table_keys [of xs] by (simp_all add: strict_sorted_iff)

lemma table_count:
  assumes "(k, a) \<in> set (table xs)"
  shows "count a = int (length (filter (\<lambda>x. key x = k) xs))" and "1 \<le> count a"
proof -
  from assms have k: "k \<in> key ` set xs" "a = fold step (filter (\<lambda>x. key x = k) xs) init"
    by (simp_all add: table_entry)
  then show c: "count a = int (length (filter (\<lambda>x. key x = k) xs))"
    by (simp add: count_fold count_init)
  from k(1) obtain x where "k = key x" "x \<in> set xs" by (rule imageE)
  then have "x \<in> set (filter (\<lambda>x. key x = k) xs)" by simp
  then have "0 < length (filter (\<lambda>x. key x = k) xs)" by (rule length_pos_if_in_set)
  with c show "1 \<le> count a" by linarith
qed

lemma table_eq:
  "table xs = map (\<lambda>k. (k, fold step (filter (\<lambda>x. key x = k) xs) init)) (map fst (table xs))"
proof -
  have "snd e = fold step (filter (\<lambda>x. key x = fst e) xs) init" if "e \<in> set (table xs)" for e
    using that table_entry [of "fst e" "snd e" xs] by simp
  then show ?thesis unfolding map_map by (intro map_idI [symmetric]) (simp add: prod_eq_iff)
qed

lemma table_total: "sum_list (map (\<lambda>e. count (snd e)) (table xs)) = int (length xs)"
proof -
  have "sum_list (map (\<lambda>e. count (snd e)) (table xs))
      = sum_list (map (\<lambda>k. sum_list (map (\<lambda>_. 1) (filter (\<lambda>x. key x = k) xs))) (map fst (table xs)))"
    by (subst table_eq) (simp add: comp_def count_fold count_init sum_list_triv)
  then show ?thesis
    by (simp only: sum_list_by_key [OF table_keys_distinct]) (simp add: sum_list_triv)
qed

end


section \<open>The statistics\<close>

definition mean :: "rat list \<Rightarrow> rat" where
  "mean xs = (if xs = [] then 0 else sum_list xs / of_nat (length xs))"

text \<open>\<open>statistics.pstdev\<close> is the square root of the population variance.\<close>

definition pvariance :: "rat list \<Rightarrow> rat" where
  "pvariance xs = mean (map (\<lambda>x. (x - mean xs)\<^sup>2) xs)"

definition stddev :: "rat list \<Rightarrow> real" where
  "stddev xs = (if 1 < length xs then sqrt (of_rat (pvariance xs)) else 0)"

definition cv :: "rat list \<Rightarrow> real" where
  "cv xs = (let m = mean xs in if 0 < m then stddev xs / of_rat m else 0)"

definition safe_div :: "rat \<Rightarrow> rat \<Rightarrow> rat" where
  "safe_div a b = (if b = 0 then 0 else a / b)"

definition corr :: "rat list \<Rightarrow> rat list \<Rightarrow> real" where
  "corr xs ys =
     (if length xs < 2 \<or> length ys < 2 \<or> length xs \<noteq> length ys then 0
      else let mx = mean xs; my = mean ys;
               num = sum_list (map2 (\<lambda>x y. (x - mx) * (y - my)) xs ys);
               den_x = sqrt (of_rat (sum_list (map (\<lambda>x. (x - mx)\<^sup>2) xs)));
               den_y = sqrt (of_rat (sum_list (map (\<lambda>y. (y - my)\<^sup>2) ys)));
               den = den_x * den_y
           in if den = 0 then 0 else of_rat num / den)"


section \<open>Inequalities\<close>

lemma sum_list_mult_right: "sum_list (map (\<lambda>x. f x * c) xs) = sum_list (map f xs) * (c::'a::semiring_0)"
  by (induction xs) (simp_all add: algebra_simps)

lemma sum_list_divide: "sum_list (map (\<lambda>x. f x / c) xs) = sum_list (map f xs) / (c::'a::field)"
  by (induction xs) (simp_all add: add_divide_distrib)

lemma sum_list_sq_nonneg: "0 \<le> sum_list (map (\<lambda>x. (f x)\<^sup>2) xs)" for f :: "'b \<Rightarrow> 'a::linordered_idom"
  by (rule sum_list_nonneg) auto

lemma sum_list_sq_zero:
  "sum_list (map (\<lambda>x. (f x)\<^sup>2) xs) = 0 \<longleftrightarrow> (\<forall>x\<in>set xs. f x = 0)" for f :: "'b \<Rightarrow> 'a::linordered_idom"
proof -
  have "sum_list (map (\<lambda>x. (f x)\<^sup>2) xs) = 0 \<longleftrightarrow> (\<forall>v\<in>set (map (\<lambda>x. (f x)\<^sup>2) xs). v = 0)"
    by (rule sum_list_nonneg_eq_0_iff) auto
  then show ?thesis by auto
qed

text \<open>The inequality of Cauchy and Schwarz for lists.\<close>

lemma sum_square_expand:
  "sum_list (map (\<lambda>z. (c * f z - b * g z)\<^sup>2) zs)
     = c\<^sup>2 * sum_list (map (\<lambda>z. (f z)\<^sup>2) zs) - 2 * c * b * sum_list (map (\<lambda>z. f z * g z) zs)
       + b\<^sup>2 * sum_list (map (\<lambda>z. (g z)\<^sup>2) zs)" for c :: "'a::linordered_idom"
  by (induction zs) (simp_all add: power2_eq_square algebra_simps)

lemma cauchy_schwarz:
  fixes f g :: "'b \<Rightarrow> 'a::linordered_idom"
  shows "(sum_list (map (\<lambda>z. f z * g z) zs))\<^sup>2
     \<le> sum_list (map (\<lambda>z. (f z)\<^sup>2) zs) * sum_list (map (\<lambda>z. (g z)\<^sup>2) zs)" (is "?B\<^sup>2 \<le> ?A * ?C")
proof (cases "?C = 0")
  case True
  then have "map (\<lambda>z. f z * g z) zs = map (\<lambda>z. 0) zs" by (simp add: sum_list_sq_zero)
  then have "?B = 0" by (simp del: map_eq_conv)
  with True show ?thesis by simp
next
  case False
  then have "0 < ?C" using sum_list_sq_nonneg [of g zs] by simp
  have "0 \<le> sum_list (map (\<lambda>z. (?C * f z - ?B * g z)\<^sup>2) zs)" by (rule sum_list_sq_nonneg)
  also have "\<dots> = ?C * (?A * ?C - ?B\<^sup>2)"
    by (subst sum_square_expand) (simp add: power2_eq_square algebra_simps)
  finally show ?thesis using \<open>0 < ?C\<close> by (simp add: zero_le_mult_iff)
qed

lemma sum_squared_le: "(sum_list xs)\<^sup>2 \<le> of_nat (length xs) * sum_list (map (\<lambda>x. x\<^sup>2) xs)"
  for xs :: "'a::linordered_idom list"
  using cauchy_schwarz [of "\<lambda>_. 1" "\<lambda>x. x" xs] by (simp add: sum_list_triv)

lemma sum_sq_le_squared:
  "\<forall>x\<in>set xs. 0 \<le> x \<Longrightarrow> sum_list (map (\<lambda>x. x\<^sup>2) xs) \<le> (sum_list xs)\<^sup>2" for xs :: "'a::linordered_idom list"
proof (induction xs)
  case (Cons x xs)
  moreover from Cons.prems have "0 \<le> x * sum_list xs" by (simp add: sum_list_nonneg)
  ultimately show ?case by (simp add: power2_sum)
qed simp

lemma mean_nonneg: "\<forall>x\<in>set xs. 0 \<le> x \<Longrightarrow> 0 \<le> mean xs"
  by (simp add: mean_def sum_list_nonneg)

lemma sum_list_bounds:
  fixes a b :: "'a::linordered_idom"
  shows "\<forall>x\<in>set xs. a \<le> x \<and> x \<le> b \<Longrightarrow> of_nat (length xs) * a \<le> sum_list xs \<and> sum_list xs \<le> of_nat (length xs) * b"
  by (induction xs) (auto simp: algebra_simps add_mono)

lemma mean_between:
  assumes "xs \<noteq> []" and "\<forall>x\<in>set xs. a \<le> x \<and> x \<le> b"
  shows "a \<le> mean xs \<and> mean xs \<le> b"
  using sum_list_bounds [OF assms(2)] assms(1)
  by (simp add: mean_def field_simps)

lemma pvariance_nonneg: "0 \<le> pvariance xs"
  unfolding pvariance_def by (rule mean_nonneg) auto

lemma stddev_nonneg: "0 \<le> stddev xs"
  by (simp add: stddev_def pvariance_nonneg)

lemma cv_nonneg: "0 \<le> cv xs"
  by (simp add: cv_def Let_def stddev_nonneg)

lemma stddev_zero: "stddev xs = 0 \<longleftrightarrow> (\<forall>x\<in>set xs. x = mean xs)"
proof (cases "1 < length xs")
  case True
  then have "stddev xs = 0 \<longleftrightarrow> sum_list (map (\<lambda>x. (x - mean xs)\<^sup>2) xs) = 0"
    by (auto simp: stddev_def pvariance_def mean_def [of "map f xs" for f])
  then show ?thesis by (simp add: sum_list_sq_zero)
next
  case False
  then consider "xs = []" | x where "xs = [x]" by (cases xs; cases "tl xs") auto
  then show ?thesis by cases (simp_all add: stddev_def mean_def)
qed

lemma stddev_zero_iff:
  "xs \<noteq> [] \<Longrightarrow> stddev (map of_int xs) = 0 \<longleftrightarrow> card (set xs) = 1"
proof -
  assume "xs \<noteq> []"
  let ?ys = "map of_int xs :: rat list"
  show "stddev ?ys = 0 \<longleftrightarrow> card (set xs) = 1"
  proof
    assume "stddev ?ys = 0"
    then have "\<forall>x\<in>set xs. rat_of_int x = mean ?ys" by (simp add: stddev_zero)
    then have "\<forall>x\<in>set xs. x = hd xs" using \<open>xs \<noteq> []\<close> by (metis hd_in_set of_int_eq_iff)
    then have "set xs = {hd xs}" using \<open>xs \<noteq> []\<close> by auto
    then show "card (set xs) = 1" by simp
  next
    assume "card (set xs) = 1"
    then obtain c where c: "set xs = {c}" by (auto simp: card_1_singleton_iff)
    then have "\<forall>x\<in>set ?ys. of_int c \<le> x \<and> x \<le> of_int c" by simp
    from mean_between [OF _ this] \<open>xs \<noteq> []\<close> have "mean ?ys = of_int c" by simp
    with c show "stddev ?ys = 0" by (simp add: stddev_zero)
  qed
qed

lemma rat_le_sqrt: "b\<^sup>2 \<le> a * c \<Longrightarrow> \<bar>real_of_rat b\<bar> \<le> sqrt (of_rat a) * sqrt (of_rat c)"
proof -
  assume "b\<^sup>2 \<le> a * c"
  then have "(real_of_rat b)\<^sup>2 \<le> of_rat a * of_rat c"
    by (simp add: of_rat_less_eq flip: of_rat_power of_rat_mult)
  then have "sqrt ((real_of_rat b)\<^sup>2) \<le> sqrt (of_rat a * of_rat c)" by (rule real_sqrt_le_mono)
  then show ?thesis by (simp add: real_sqrt_mult)
qed

lemma quotient_le_1: "\<bar>b\<bar> \<le> d \<Longrightarrow> \<bar>b / d\<bar> \<le> (1::real)"
  by (cases "d = 0") (auto simp: abs_divide divide_le_eq_1)

text \<open>
  A correlation is a number between -1 and 1, whatever the lists.
\<close>

theorem corr_bounded: "\<bar>corr xs ys\<bar> \<le> 1"
proof (cases "length xs < 2 \<or> length ys < 2 \<or> length xs \<noteq> length ys")
  case False
  let ?f = "\<lambda>z. fst z - mean xs" and ?g = "\<lambda>z. snd z - mean ys" and ?z = "zip xs ys"
  have num: "sum_list (map2 (\<lambda>x y. (x - mean xs) * (y - mean ys)) xs ys) = sum_list (map (\<lambda>z. ?f z * ?g z) ?z)"
    by (simp add: case_prod_unfold)
  have dx: "sum_list (map (\<lambda>x. (x - mean xs)\<^sup>2) xs) = sum_list (map (\<lambda>z. (?f z)\<^sup>2) ?z)"
    using False map_fst_zip [of xs ys] by (metis (no_types, lifting) map_map map_eq_conv comp_apply)
  have dy: "sum_list (map (\<lambda>y. (y - mean ys)\<^sup>2) ys) = sum_list (map (\<lambda>z. (?g z)\<^sup>2) ?z)"
    using False map_snd_zip [of xs ys] by (metis (no_types, lifting) map_map map_eq_conv comp_apply)
  let ?A = "sum_list (map (\<lambda>z. (?f z)\<^sup>2) ?z)" and ?C = "sum_list (map (\<lambda>z. (?g z)\<^sup>2) ?z)"
    and ?B = "sum_list (map (\<lambda>z. ?f z * ?g z) ?z)"
  let ?D = "sqrt (of_rat ?A) * sqrt (of_rat ?C)"
  have "\<bar>of_rat ?B :: real\<bar> \<le> ?D" by (rule rat_le_sqrt [OF cauchy_schwarz])
  then have "\<bar>of_rat ?B / ?D\<bar> \<le> 1" by (rule quotient_le_1)
  moreover have "corr xs ys = (if ?D = 0 then 0 else of_rat ?B / ?D)"
    unfolding corr_def num dx dy Let_def using False by (simp only: if_False)
  ultimately show ?thesis by (simp only: abs_zero zero_le_one simp_thms if_True if_False split: if_splits)
qed (auto simp: corr_def)

end
