(* ===== verification/TaskStats.thy ===== *)
theory TaskStats
  imports Stats
begin

text \<open>
  \<open>scripts/aggregate_results.py\<close>, fourth part: the analysis of the tasks. The task rows are
  grouped by run; each run gives a row on the allocation of CPU time, one row per nice value and
  a row on the characteristics of its workload. The fair schedulers are then compared with the
  MLFQ run of the same configuration.

  The statistics of a run are described for runs whose numbers are finite; \<open>None\<close> means that
  one is not. Sums and quotients are exact.
\<close>

section \<open>The tasks\<close>

record task_file =
  tf_source :: string
  tf_suite_dir :: string
  tf_run_dir :: string
  tf_rows :: "csv_row list"

record task =
  t_source_file :: string
  t_benchmark_version :: string
  t_schema_version :: string
  t_suite_id :: string
  t_run_id :: string
  t_seed :: int
  t_replication :: int
  t_num_tasks :: int
  t_cores :: int
  t_topology :: cell
  t_balancer :: cell
  t_work_stealing :: cell
  t_stop_time :: pyfloat
  t_scheduler :: cell
  t_workload :: cell
  t_task_id :: int
  t_nice :: int
  t_weight :: pyfloat
  t_arrival :: pyfloat
  t_execution :: pyfloat
  t_allocated :: pyfloat
  t_remaining :: pyfloat
  t_started :: int
  t_completed :: int
  t_start_time :: pyfloat
  t_completion_time :: pyfloat
  t_response :: pyfloat
  t_turnaround :: pyfloat
  t_wait :: pyfloat
  t_preemptions :: int

text \<open>\<open>str(raw.get(k, fallback))\<close>\<close>

definition cell_text :: "csv_row \<Rightarrow> string \<Rightarrow> string \<Rightarrow> string" where
  "cell_text raw k fallback = (case map_of raw k of None \<Rightarrow> fallback | Some v \<Rightarrow> cell_str v)"

definition read_task :: "task_file \<Rightarrow> csv_row \<Rightarrow> task" where
  "read_task f raw = \<lparr>
     t_source_file = tf_source f,
     t_benchmark_version = cell_text raw ''BenchmarkVersion'' ''unknown'',
     t_schema_version = cell_text raw ''SchemaVersion'' ''tasks.v2'',
     t_suite_id = (if first_text raw ''SuiteId'' \<noteq> [] then first_text raw ''SuiteId'' else tf_suite_dir f),
     t_run_id = (if first_text raw ''RunId'' \<noteq> [] then first_text raw ''RunId'' else tf_run_dir f),
     t_seed = row_int raw ''Seed'',
     t_replication = row_int raw ''Replication'',
     t_num_tasks = row_int raw ''NumTasks'',
     t_cores = row_int raw ''Cores'',
     t_topology = cell_get raw ''Topology'',
     t_balancer = cell_get raw ''Balancer'',
     t_work_stealing = cell_get raw ''WorkStealing'',
     t_stop_time = row_float raw ''StopTime'',
     t_scheduler = cell_get raw ''Scheduler'',
     t_workload = cell_get raw ''Workload'',
     t_task_id = row_int raw ''TaskID'',
     t_nice = row_int raw ''Nice'',
     t_weight = row_float raw ''Weight'',
     t_arrival = row_float raw ''Arrival'',
     t_execution = row_float raw ''Execution'',
     t_allocated = row_float raw ''AllocatedCPU'',
     t_remaining = row_float raw ''Remaining'',
     t_started = row_int raw ''Started'',
     t_completed = row_int raw ''Completed'',
     t_start_time = row_float raw ''StartTime'',
     t_completion_time = row_float raw ''CompletionTime'',
     t_response = row_float raw ''ResponseTime'',
     t_turnaround = row_float raw ''TurnaroundTime'',
     t_wait = row_float raw ''WaitTime'',
     t_preemptions = row_int raw ''PreemptionCount''\<rparr>"

definition read_tasks :: "task_file list \<Rightarrow> task list" where
  "read_tasks files = concat (map (\<lambda>f. map (read_task f) (tf_rows f)) files)"

type_synonym task_run_key =
  "string \<times> string \<times> int \<times> int \<times> int \<times> int \<times> cell \<times> cell \<times> cell \<times> pyfloat \<times> cell \<times> cell"

definition task_key :: "task \<Rightarrow> task_run_key" where
  "task_key t = (t_suite_id t, t_run_id t, t_seed t, t_replication t, t_num_tasks t, t_cores t,
     t_topology t, t_balancer t, t_work_stealing t, t_stop_time t, t_scheduler t, t_workload t)"

text \<open>The parts of a key the analysis reads; a key with a NaN is equal to no other.\<close>

definition key_run :: "task_run_key \<Rightarrow> string \<times> string" where
  "key_run k = (fst k, fst (snd k))"

definition nan_run :: "task_run_key \<Rightarrow> bool" where
  "nan_run k = (case k of (_, _, _, _, _, _, _, _, _, t, _, _) \<Rightarrow> t = NaN)"

definition tasks_by_run :: "task list \<Rightarrow> (task_run_key \<times> task list) list" where
  "tasks_by_run tasks = group_by nan_run task_key tasks"

fun num :: "pyfloat \<Rightarrow> rat" where
  "num (Fin r) = r"
| "num _ = 0"

definition finite_task :: "task \<Rightarrow> bool" where
  "finite_task t \<longleftrightarrow> is_finite (t_weight t) \<and> is_finite (t_arrival t) \<and> is_finite (t_execution t)
     \<and> is_finite (t_allocated t) \<and> is_finite (t_response t) \<and> is_finite (t_turnaround t)
     \<and> is_finite (t_wait t)"


section \<open>The allocation of CPU time\<close>

definition total_alloc :: "task list \<Rightarrow> rat" where
  "total_alloc tasks = sum_list (map (\<lambda>t. num (t_allocated t)) tasks)"

definition total_weight :: "task list \<Rightarrow> rat" where
  "total_weight tasks = sum_list (map (\<lambda>t. num (t_weight t)) tasks)"

definition obs_share :: "task list \<Rightarrow> task \<Rightarrow> rat" where
  "obs_share tasks t = safe_div (num (t_allocated t)) (total_alloc tasks)"

definition exp_share :: "task list \<Rightarrow> task \<Rightarrow> rat" where
  "exp_share tasks t = safe_div (num (t_weight t)) (total_weight tasks)"

definition share_abs_err :: "task list \<Rightarrow> rat list" where
  "share_abs_err tasks = map (\<lambda>t. \<bar>obs_share tasks t - exp_share tasks t\<bar>) tasks"

definition ratio_vals :: "task list \<Rightarrow> rat list" where
  "ratio_vals tasks = map (\<lambda>t. if 0 < exp_share tasks t
     then safe_div (obs_share tasks t) (exp_share tasks t) else 0) tasks"

definition proportional_jain :: "rat list \<Rightarrow> rat" where
  "proportional_jain vs =
     (let sq = sum_list (map (\<lambda>v. v * v) vs)
      in if sq \<noteq> 0 then safe_div ((sum_list vs)\<^sup>2) (of_nat (length vs) * sq) else 0)"

definition slowdowns :: "task list \<Rightarrow> rat list" where
  "slowdowns tasks = map (\<lambda>t. safe_div (num (t_turnaround t)) (num (t_execution t)))
     (filter (\<lambda>t. 0 < num (t_execution t)) tasks)"

definition weights :: "task list \<Rightarrow> rat list" where
  "weights tasks = map (\<lambda>t. num (t_weight t)) tasks"

record run_label =
  l_key :: task_run_key
  l_experiments :: string
  l_flags :: "(string \<times> int) list"

text \<open>The experiments of the run, and their flags; joined texts never fail.\<close>

definition experiments_of :: "((string \<times> string) \<times> string) list \<Rightarrow> task_run_key \<Rightarrow> string" where
  "experiments_of exps key = (case map_of exps (key_run key) of None \<Rightarrow> ''none'' | Some e \<Rightarrow> e)"

definition flags_of :: "string \<Rightarrow> (string \<times> int) list" where
  "flags_of e = (case experiment_flags (if e = ''none'' then [] else map JStr (split_on (CHR '';'') e)) of
     Inr flags \<Rightarrow> flags | Inl _ \<Rightarrow> [])"

definition run_label_of :: "((string \<times> string) \<times> string) list \<Rightarrow> task_run_key \<Rightarrow> run_label" where
  "run_label_of exps key = \<lparr>l_key = key, l_experiments = experiments_of exps key,
     l_flags = flags_of (experiments_of exps key)\<rparr>"

record alloc_row =
  a_label :: run_label
  a_completed_ratio :: rat
  a_total_alloc :: rat
  a_total_weight :: rat
  a_share_mae :: rat
  a_share_tv :: rat
  a_jain :: rat
  a_slowdown_corr :: real
  a_response_corr :: real

definition allocation_row :: "run_label \<Rightarrow> task list \<Rightarrow> alloc_row" where
  "allocation_row label tasks = \<lparr>
     a_label = label,
     a_completed_ratio = safe_div (of_int (sum_list (map t_completed tasks))) (of_nat (length tasks)),
     a_total_alloc = total_alloc tasks,
     a_total_weight = total_weight tasks,
     a_share_mae = mean (share_abs_err tasks),
     a_share_tv = 1 / 2 * sum_list (share_abs_err tasks),
     a_jain = proportional_jain (ratio_vals tasks),
     a_slowdown_corr = (if length (weights tasks) = length (slowdowns tasks)
       then corr (weights tasks) (slowdowns tasks) else 0),
     a_response_corr = corr (weights tasks) (map (\<lambda>t. num (t_response t)) tasks)\<rparr>"


section \<open>Nice values\<close>

record bucket =
  b_alloc :: rat
  b_weight :: rat
  b_count :: int
  b_resp :: rat
  b_wait :: rat
  b_tat :: rat
  b_slow :: rat

definition empty_bucket :: bucket where
  "empty_bucket = \<lparr>b_alloc = 0, b_weight = 0, b_count = 0, b_resp = 0, b_wait = 0, b_tat = 0, b_slow = 0\<rparr>"

definition add_to_bucket :: "task \<Rightarrow> bucket \<Rightarrow> bucket" where
  "add_to_bucket t b = \<lparr>
     b_alloc = b_alloc b + num (t_allocated t),
     b_weight = b_weight b + num (t_weight t),
     b_count = b_count b + 1,
     b_resp = b_resp b + num (t_response t),
     b_wait = b_wait b + num (t_wait t),
     b_tat = b_tat b + num (t_turnaround t),
     b_slow = b_slow b + safe_div (num (t_turnaround t)) (num (t_execution t))\<rparr>"

definition nice_buckets :: "task list \<Rightarrow> (int \<times> bucket) list" where
  "nice_buckets tasks = accumulate t_nice add_to_bucket empty_bucket tasks"

record nice_row =
  n_label :: run_label
  n_nice :: int
  n_count :: int
  n_obs_share :: rat
  n_exp_share :: rat
  n_share_delta :: rat
  n_avg_response :: rat
  n_avg_wait :: rat
  n_avg_turnaround :: rat
  n_avg_slowdown :: rat

definition nice_row_of :: "run_label \<Rightarrow> task list \<Rightarrow> int \<Rightarrow> bucket \<Rightarrow> nice_row" where
  "nice_row_of label tasks nice b =
     (let obs = safe_div (b_alloc b) (total_alloc tasks);
          ex = safe_div (b_weight b) (total_weight tasks);
          n = of_int (b_count b)
      in \<lparr>n_label = label, n_nice = nice, n_count = b_count b,
          n_obs_share = obs, n_exp_share = ex, n_share_delta = obs - ex,
          n_avg_response = safe_div (b_resp b) n, n_avg_wait = safe_div (b_wait b) n,
          n_avg_turnaround = safe_div (b_tat b) n, n_avg_slowdown = safe_div (b_slow b) n\<rparr>)"

definition nice_rows :: "run_label \<Rightarrow> task list \<Rightarrow> nice_row list" where
  "nice_rows label tasks =
     map (\<lambda>(nice, b). nice_row_of label tasks nice b) (sorted_items (nice_buckets tasks))"


section \<open>The workload\<close>

definition arrivals :: "task list \<Rightarrow> rat list" where
  "arrivals tasks = sort (map (\<lambda>t. num (t_arrival t)) tasks)"

definition inter_arrivals :: "rat list \<Rightarrow> rat list" where
  "inter_arrivals xs = map (\<lambda>i. xs ! i - xs ! (i - 1)) [1..<length xs]"

record char_row =
  c_label :: run_label
  c_arrival_span :: rat
  c_inter_arrival_mean :: rat
  c_inter_arrival_cv :: real
  c_execution_mean :: rat
  c_execution_cv :: real
  c_weight_mean :: rat
  c_weight_cv :: real
  c_nice_stddev :: real
  c_unique_nice :: int

definition workload_row :: "run_label \<Rightarrow> task list \<Rightarrow> char_row" where
  "workload_row label tasks =
     (let xs = arrivals tasks; gaps = inter_arrivals xs; execs = map (\<lambda>t. num (t_execution t)) tasks;
          nices = map t_nice tasks
      in \<lparr>c_label = label,
          c_arrival_span = (if xs \<noteq> [] then last xs - hd xs else 0),
          c_inter_arrival_mean = mean gaps, c_inter_arrival_cv = cv gaps,
          c_execution_mean = mean execs, c_execution_cv = cv execs,
          c_weight_mean = mean (weights tasks), c_weight_cv = cv (weights tasks),
          c_nice_stddev = stddev (map of_int nices),
          c_unique_nice = int (length (remdups nices))\<rparr>)"


section \<open>All runs\<close>

record analysis =
  an_alloc :: "alloc_row list"
  an_nice :: "nice_row list"
  an_chars :: "char_row list"

definition analyse_run ::
  "((string \<times> string) \<times> string) list \<Rightarrow> task_run_key \<times> task list \<Rightarrow> analysis \<Rightarrow> analysis option"
where
  "analyse_run exps run an =
     (let label = run_label_of exps (fst run); tasks = snd run
      in if list_all finite_task tasks
         then Some \<lparr>an_alloc = an_alloc an @ [allocation_row label tasks],
                    an_nice = an_nice an @ nice_rows label tasks,
                    an_chars = an_chars an @ [workload_row label tasks]\<rparr>
         else None)"

fun analyse_runs ::
  "((string \<times> string) \<times> string) list \<Rightarrow> (task_run_key \<times> task list) list \<Rightarrow> analysis \<Rightarrow> analysis option"
where
  "analyse_runs exps [] an = Some an"
| "analyse_runs exps (run # runs) an = Option.bind (analyse_run exps run an) (analyse_runs exps runs)"

definition analyse_tasks ::
  "((string \<times> string) \<times> string) list \<Rightarrow> task_file list \<Rightarrow> analysis option"
where
  "analyse_tasks exps files =
     analyse_runs exps (tasks_by_run (read_tasks files)) \<lparr>an_alloc = [], an_nice = [], an_chars = []\<rparr>"


section \<open>The comparison with MLFQ\<close>

type_synonym baseline_key =
  "string \<times> string \<times> int \<times> int \<times> int \<times> int \<times> cell \<times> cell \<times> cell \<times> pyfloat \<times> cell"

definition baseline_key :: "metrics_row \<Rightarrow> baseline_key" where
  "baseline_key row = (m_suite_id row, m_run_id row, m_seed row, m_replication row, m_num_tasks row,
     m_cores row, m_topology row, m_balancer row, m_work_stealing row, m_stop_time row, m_workload row)"

definition char_key :: "metrics_row \<Rightarrow> task_run_key" where
  "char_key row = (m_suite_id row, m_run_id row, m_seed row, m_replication row, m_num_tasks row,
     m_cores row, m_topology row, m_balancer row, m_work_stealing row, m_stop_time row,
     m_scheduler row, m_workload row)"

definition baseline_map :: "metrics_row list \<Rightarrow> (baseline_key \<times> metrics_row) list" where
  "baseline_map rows = fold (\<lambda>row m. if m_scheduler row = Some ''MLFQ''
     then AList.update (baseline_key row) row m else m) rows []"

definition chars_by_key :: "char_row list \<Rightarrow> (task_run_key \<times> char_row) list" where
  "chars_by_key rows = fold (\<lambda>row m. AList.update (l_key (c_label row)) row m) rows []"

record fairness_row =
  f_row :: metrics_row
  f_throughput_delta :: pyfloat
  f_mean_rt_delta :: pyfloat
  f_execution_cv :: real
  f_inter_arrival_cv :: real
  f_weight_cv :: real
  f_unique_nice :: int

text \<open>A key with a NaN stop time finds nothing.\<close>

definition fairness_row_of ::
  "(baseline_key \<times> metrics_row) list \<Rightarrow> (task_run_key \<times> char_row) list \<Rightarrow> metrics_row \<Rightarrow> fairness_row"
where
  "fairness_row_of bases chars row =
     (let baseline = (if m_stop_time row = NaN then None else map_of bases (baseline_key row));
          ch = (if m_stop_time row = NaN then None else map_of chars (char_key row))
      in \<lparr>f_row = row,
          f_throughput_delta = (case baseline of Some b \<Rightarrow> float_sub (m_throughput row) (m_throughput b) | None \<Rightarrow> Fin 0),
          f_mean_rt_delta = (case baseline of Some b \<Rightarrow> float_sub (m_mean_rt row) (m_mean_rt b) | None \<Rightarrow> Fin 0),
          f_execution_cv = (case ch of Some c \<Rightarrow> c_execution_cv c | None \<Rightarrow> 0),
          f_inter_arrival_cv = (case ch of Some c \<Rightarrow> c_inter_arrival_cv c | None \<Rightarrow> 0),
          f_weight_cv = (case ch of Some c \<Rightarrow> c_weight_cv c | None \<Rightarrow> 0),
          f_unique_nice = (case ch of Some c \<Rightarrow> c_unique_nice c | None \<Rightarrow> 0)\<rparr>)"

definition fairness_vs_chars :: "metrics_row list \<Rightarrow> char_row list \<Rightarrow> fairness_row list" where
  "fairness_vs_chars rows chars =
     map (fairness_row_of (baseline_map rows) (chars_by_key chars))
       (filter (\<lambda>row. m_scheduler row \<in> Some ` {''CFS'', ''EEVDF'', ''Stride''}) rows)"

section \<open>Shares\<close>

lemma sum_safe_div:
  "sum_list (map (\<lambda>x. safe_div (f x) c) xs) = safe_div (sum_list (map f xs)) c"
  by (simp add: safe_div_def sum_list_divide)

lemma safe_div_self: "safe_div a a = (if a = 0 then 0 else 1)"
  by (simp add: safe_div_def)

lemma safe_div_nonneg: "0 \<le> a \<Longrightarrow> 0 \<le> b \<Longrightarrow> 0 \<le> safe_div a b"
  by (simp add: safe_div_def)

lemma sum_obs_share: "sum_list (map (obs_share tasks) tasks) = (if total_alloc tasks = 0 then 0 else 1)"
  by (simp add: obs_share_def [abs_def] sum_safe_div safe_div_self flip: total_alloc_def)

lemma sum_exp_share: "sum_list (map (exp_share tasks) tasks) = (if total_weight tasks = 0 then 0 else 1)"
  by (simp add: exp_share_def [abs_def] sum_safe_div safe_div_self flip: total_weight_def)

lemma sum_list_abs_diff:
  fixes f g :: "'b \<Rightarrow> 'a::linordered_idom"
  shows "\<forall>x\<in>set xs. 0 \<le> f x \<and> 0 \<le> g x
    \<Longrightarrow> sum_list (map (\<lambda>x. \<bar>f x - g x\<bar>) xs) \<le> sum_list (map f xs) + sum_list (map g xs)"
  by (induction xs) auto

lemma sum_list_abs_zero:
  fixes f :: "'b \<Rightarrow> 'a::linordered_idom"
  shows "sum_list (map (\<lambda>x. \<bar>f x\<bar>) xs) = 0 \<longleftrightarrow> (\<forall>x\<in>set xs. f x = 0)"
proof -
  have "sum_list (map (\<lambda>x. \<bar>f x\<bar>) xs) = 0 \<longleftrightarrow> (\<forall>v\<in>set (map (\<lambda>x. \<bar>f x\<bar>) xs). v = 0)"
    by (rule sum_list_nonneg_eq_0_iff) auto
  then show ?thesis by auto
qed


lemma jain_equal:
  "of_nat (length vs) * sum_list (map (\<lambda>v. v\<^sup>2) vs) = (sum_list vs)\<^sup>2
     \<longleftrightarrow> (\<forall>v\<in>set vs. of_nat (length vs) * v = sum_list vs)" for vs :: "rat list"
proof (cases "vs = []")
  case False
  let ?n = "of_nat (length vs) :: rat" and ?Q = "sum_list (map (\<lambda>v. v\<^sup>2) vs)" and ?S = "sum_list vs"
  have "sum_list (map (\<lambda>v. (?n * v - ?S * 1)\<^sup>2) vs) = ?n * (?n * ?Q - ?S\<^sup>2)"
    by (subst sum_square_expand) (simp add: sum_list_triv power2_eq_square algebra_simps)
  moreover have "sum_list (map (\<lambda>v. (?n * v - ?S * 1)\<^sup>2) vs) = 0 \<longleftrightarrow> (\<forall>v\<in>set vs. ?n * v - ?S * 1 = 0)"
    by (rule sum_list_sq_zero)
  ultimately show ?thesis using False by auto
qed simp

lemma proportional_jain_eq:
  "proportional_jain vs =
     (if \<forall>v\<in>set vs. v = 0 then 0
      else (sum_list vs)\<^sup>2 / (of_nat (length vs) * sum_list (map (\<lambda>v. v\<^sup>2) vs)))"
  using sum_list_sq_zero [of "\<lambda>v. v" vs]
  by (auto simp: proportional_jain_def Let_def safe_div_def simp flip: power2_eq_square)

lemma jain_bounds:
  "0 \<le> proportional_jain vs \<and> proportional_jain vs \<le> 1"
  "(\<exists>v\<in>set vs. v \<noteq> 0) \<Longrightarrow> \<forall>v\<in>set vs. 0 \<le> v \<Longrightarrow> 1 / of_nat (length vs) \<le> proportional_jain vs"
  "proportional_jain vs = 1 \<longleftrightarrow> (\<exists>c. c \<noteq> 0 \<and> vs \<noteq> [] \<and> (\<forall>v\<in>set vs. v = c))"
proof -
  let ?n = "of_nat (length vs) :: rat" and ?Q = "sum_list (map (\<lambda>v. v\<^sup>2) vs)" and ?S = "sum_list vs"
  have pos: "0 < ?n" "0 < ?Q" if "\<exists>v\<in>set vs. v \<noteq> 0"
    using that sum_list_sq_nonneg [of "\<lambda>v. v" vs] sum_list_sq_zero [of "\<lambda>v. v" vs]
    by (auto simp: less_le length_pos_if_in_set)
  show "0 \<le> proportional_jain vs \<and> proportional_jain vs \<le> 1"
  proof (cases "\<exists>v\<in>set vs. v \<noteq> 0")
    case True
    from pos [OF True] have "0 < ?n * ?Q" by simp
    with True sum_squared_le [of vs] show ?thesis by (simp add: proportional_jain_eq divide_le_eq_1)
  qed (simp add: proportional_jain_eq)
  show "1 / ?n \<le> proportional_jain vs" if "\<exists>v\<in>set vs. v \<noteq> 0" "\<forall>v\<in>set vs. 0 \<le> v"
    using sum_sq_le_squared [OF that(2)] pos [OF that(1)] that(1)
    by (simp add: proportional_jain_eq field_simps)
  show "proportional_jain vs = 1 \<longleftrightarrow> (\<exists>c. c \<noteq> 0 \<and> vs \<noteq> [] \<and> (\<forall>v\<in>set vs. v = c))"
  proof (cases "\<exists>v\<in>set vs. v \<noteq> 0")
    case True
    note p = pos [OF True]
    have "proportional_jain vs = 1 \<longleftrightarrow> ?S\<^sup>2 = ?n * ?Q"
      using p True by (auto simp: proportional_jain_eq)
    also have "\<dots> \<longleftrightarrow> (\<forall>v\<in>set vs. ?n * v = ?S)" using jain_equal [of vs] by metis
    also have "\<dots> \<longleftrightarrow> (\<exists>c. c \<noteq> 0 \<and> vs \<noteq> [] \<and> (\<forall>v\<in>set vs. v = c))"
    proof
      assume eq: "\<forall>v\<in>set vs. ?n * v = ?S"
      from True obtain c where "c \<in> set vs" "c \<noteq> 0" by blast
      with eq p show "\<exists>c. c \<noteq> 0 \<and> vs \<noteq> [] \<and> (\<forall>v\<in>set vs. v = c)"
        by (metis empty_iff less_irrefl list.set(1) mult_left_cancel)
    next
      assume "\<exists>c. c \<noteq> 0 \<and> vs \<noteq> [] \<and> (\<forall>v\<in>set vs. v = c)"
      then obtain c where "\<forall>v\<in>set vs. v = c" by blast
      then have "vs = replicate (length vs) c" by (simp add: replicate_eqI)
      then have "?S = ?n * c" by (metis sum_list_replicate)
      with \<open>\<forall>v\<in>set vs. v = c\<close> show "\<forall>v\<in>set vs. ?n * v = ?S" by simp
    qed
    finally show ?thesis .
  next
    case False
    then show ?thesis by (cases vs) (auto simp: proportional_jain_eq)
  qed
qed

definition sample_tasks :: "task list" where
  "sample_tasks = read_tasks [\<lparr>tf_source = [], tf_suite_dir = ''s'', tf_run_dir = ''r'', tf_rows =
     [[(''Nice'', Some ''0''), (''Weight'', Some ''2''), (''AllocatedCPU'', Some ''3'')],
      [(''Nice'', Some ''5''), (''Weight'', Some ''1''), (''AllocatedCPU'', Some ''1'')]]\<rparr>]"

definition sample_label :: run_label where
  "sample_label = run_label_of [] (task_key (hd sample_tasks))"




section \<open>Nice values\<close>

lemma fold_add_to_bucket:
  "fold add_to_bucket ts b = \<lparr>
     b_alloc = b_alloc b + sum_list (map (\<lambda>t. num (t_allocated t)) ts),
     b_weight = b_weight b + sum_list (map (\<lambda>t. num (t_weight t)) ts),
     b_count = b_count b + int (length ts),
     b_resp = b_resp b + sum_list (map (\<lambda>t. num (t_response t)) ts),
     b_wait = b_wait b + sum_list (map (\<lambda>t. num (t_wait t)) ts),
     b_tat = b_tat b + sum_list (map (\<lambda>t. num (t_turnaround t)) ts),
     b_slow = b_slow b + sum_list (map (\<lambda>t. safe_div (num (t_turnaround t)) (num (t_execution t))) ts)\<rparr>"
  by (induction ts arbitrary: b) (simp_all add: add_to_bucket_def)

abbreviation with_nice :: "int \<Rightarrow> task list \<Rightarrow> task list" where
  "with_nice n tasks \<equiv> filter (\<lambda>t. t_nice t = n) tasks"

interpretation nice_tally: tally t_nice add_to_bucket empty_bucket b_count
  by unfold_locales (simp_all add: empty_bucket_def add_to_bucket_def)

lemma nice_table: "sorted_items (nice_buckets tasks) = nice_tally.table tasks"
  by (simp add: nice_buckets_def nice_tally.table_def)

lemma nice_rows_table: "nice_rows label tasks = map (\<lambda>(nice, b). nice_row_of label tasks nice b) (nice_tally.table tasks)"
  by (simp add: nice_rows_def nice_table)

lemma nice_rows_eq:
  "nice_rows label tasks = map (\<lambda>n. nice_row_of label tasks n (fold add_to_bucket (with_nice n tasks) empty_bucket))
     (map fst (nice_tally.table tasks))"
  by (subst nice_rows_table, subst nice_tally.table_eq) (simp add: comp_def)

lemma nice_rows_count: "sum_list (map n_count (nice_rows label tasks)) = int (length tasks)"
  using nice_tally.table_total [of tasks]
  by (simp add: nice_rows_table nice_row_of_def Let_def comp_def case_prod_unfold)



section \<open>Arrivals\<close>

lemma sorted_ends:
  assumes "sorted xs" and "xs \<noteq> []"
  shows "last xs = Max (set xs)" and "hd xs = Min (set xs)"
proof -
  have "x \<le> last xs \<and> hd xs \<le> x" if "x \<in> set xs" for x
  proof -
    from that obtain i where "i < length xs" "x = xs ! i" by (auto simp: in_set_conv_nth)
    with assms show ?thesis
      by (auto simp: last_conv_nth hd_conv_nth intro!: sorted_nth_mono)
  qed
  with assms(2) show "last xs = Max (set xs)" "hd xs = Min (set xs)"
    by (auto intro!: Max_eqI [symmetric] Min_eqI [symmetric])
qed

lemma sum_steps: "sum_list (map (\<lambda>i. f i - f (i - 1)) [1..<Suc n]) = f n - (f 0 :: 'a::ab_group_add)"
  by (induction n) simp_all

lemma sum_inter_arrivals: "xs \<noteq> [] \<Longrightarrow> sum_list (inter_arrivals xs) = last xs - hd xs"
  using sum_steps [of "\<lambda>i. xs ! i" "length xs - 1"]
  by (simp add: inter_arrivals_def last_conv_nth hd_conv_nth)

lemma inter_arrivals_nonneg: "sorted xs \<Longrightarrow> \<forall>x\<in>set (inter_arrivals xs). 0 \<le> x"
  by (auto simp: inter_arrivals_def intro!: sorted_nth_mono)

text \<open>
  The workload row of a run with tasks: the gaps between arrivals are not negative and add
  up to the span, which is the latest minus the earliest arrival; so the mean gap is the span
  over one less than the number of tasks. The variation coefficients are not negative, and the
  nice values have no deviation exactly if there is one value only.
\<close>

theorem workload_row_correct:
  assumes "tasks \<noteq> []"
  shows "c_arrival_span (workload_row label tasks)
      = Max ((\<lambda>t. num (t_arrival t)) ` set tasks) - Min ((\<lambda>t. num (t_arrival t)) ` set tasks)
    \<and> c_arrival_span (workload_row label tasks) = sum_list (inter_arrivals (arrivals tasks))
    \<and> (\<forall>gap\<in>set (inter_arrivals (arrivals tasks)). 0 \<le> gap)
    \<and> of_nat (length tasks - 1) * c_inter_arrival_mean (workload_row label tasks)
        = c_arrival_span (workload_row label tasks)
    \<and> 0 \<le> c_inter_arrival_cv (workload_row label tasks)
    \<and> 0 \<le> c_execution_cv (workload_row label tasks) \<and> 0 \<le> c_weight_cv (workload_row label tasks)
    \<and> c_unique_nice (workload_row label tasks) = int (card (t_nice ` set tasks))
    \<and> (c_nice_stddev (workload_row label tasks) = 0 \<longleftrightarrow> c_unique_nice (workload_row label tasks) = 1)"
proof -
  let ?xs = "arrivals tasks"
  have len: "length ?xs = length tasks" by (simp add: arrivals_def)
  with assms have "?xs \<noteq> []" by (metis length_0_conv)
  moreover have "sorted ?xs" "set ?xs = (\<lambda>t. num (t_arrival t)) ` set tasks" by (simp_all add: arrivals_def)
  moreover note len
  ultimately have xs: "?xs \<noteq> []" "sorted ?xs" "set ?xs = (\<lambda>t. num (t_arrival t)) ` set tasks"
    "length ?xs = length tasks" .
  then have ends: "last ?xs = Max (set ?xs)" "hd ?xs = Min (set ?xs)"
    by (simp_all add: sorted_ends)
  have span: "c_arrival_span (workload_row label tasks) = last ?xs - hd ?xs"
    using xs by (simp add: workload_row_def Let_def)
  have gaps: "length (inter_arrivals ?xs) = length tasks - 1"
    using xs by (simp add: inter_arrivals_def)
  have mean: "of_nat (length tasks - 1) * c_inter_arrival_mean (workload_row label tasks) = last ?xs - hd ?xs"
    using sum_inter_arrivals [OF xs(1)] gaps by (auto simp: workload_row_def Let_def mean_def)
  have unique: "c_unique_nice (workload_row label tasks) = int (card (t_nice ` set tasks))"
    by (simp add: workload_row_def Let_def length_remdups_card_conv)
  have "c_nice_stddev (workload_row label tasks) = 0 \<longleftrightarrow> card (t_nice ` set tasks) = 1"
    using assms stddev_zero_iff [of "map t_nice tasks"] by (simp add: workload_row_def Let_def)
  with unique mean span ends xs gaps sum_inter_arrivals [OF xs(1)] inter_arrivals_nonneg [OF xs(2)]
  show ?thesis by (simp add: workload_row_def Let_def cv_nonneg)
qed

theorem workload_row_correct_witness:
  "c_unique_nice (workload_row sample_label sample_tasks) = 2
   \<and> c_unique_nice (workload_row sample_label sample_tasks) = int (card (t_nice ` set sample_tasks))"
proof -
  have "length sample_tasks = 2" by code_simp
  then have "sample_tasks \<noteq> []" by auto
  moreover have "map t_nice sample_tasks = [0, 5]" by code_simp
  then have "t_nice ` set sample_tasks = {0, 5}" by (metis list.set_map list.simps(15) list.set(1))
  ultimately show ?thesis using workload_row_correct [of sample_tasks sample_label] by (simp only:) simp
qed


section \<open>All runs\<close>

lemma analyse_runs_labels:
  "analyse_runs exps runs an = Some an' \<Longrightarrow>
     map (l_key \<circ> a_label) (an_alloc an') = map (l_key \<circ> a_label) (an_alloc an) @ map fst runs
     \<and> map (l_key \<circ> c_label) (an_chars an') = map (l_key \<circ> c_label) (an_chars an) @ map fst runs
     \<and> sum_list (map n_count (an_nice an')) = sum_list (map n_count (an_nice an)) + int (sum_list (map (length \<circ> snd) runs))"
proof (induction runs arbitrary: an)
  case (Cons run runs)
  then obtain an1 where an1: "analyse_run exps run an = Some an1" "analyse_runs exps runs an1 = Some an'"
    by (auto simp: bind_eq_Some_conv)
  from an1(1) have "map (l_key \<circ> a_label) (an_alloc an1) = map (l_key \<circ> a_label) (an_alloc an) @ [fst run]"
    "map (l_key \<circ> c_label) (an_chars an1) = map (l_key \<circ> c_label) (an_chars an) @ [fst run]"
    "sum_list (map n_count (an_nice an1)) = sum_list (map n_count (an_nice an)) + int (length (snd run))"
    by (auto simp: nice_rows_count analyse_run_def Let_def allocation_row_def workload_row_def run_label_of_def split: if_splits)
  with Cons.IH [OF an1(2)] show ?case by (simp add: comp_def)
qed simp

text \<open>
  C29. When the tasks are analysed and no stop time is NaN, there is exactly one allocation row
  and one workload row for every run key of the tasks, in the same order, and the task counts of
  all nice rows add up to the number of tasks.
\<close>

theorem analyse_tasks_complete:
  assumes "analyse_tasks exps files = Some an"
    and "\<forall>t\<in>set (read_tasks files). t_stop_time t \<noteq> NaN"
  shows "distinct (map (l_key \<circ> a_label) (an_alloc an))
    \<and> set (map (l_key \<circ> a_label) (an_alloc an)) = task_key ` set (read_tasks files)
    \<and> map (l_key \<circ> c_label) (an_chars an) = map (l_key \<circ> a_label) (an_alloc an)
    \<and> sum_list (map n_count (an_nice an)) = int (length (read_tasks files))"
proof -
  have "\<not> nan_run (task_key t)" if "t \<in> set (read_tasks files)" for t
    using assms(2) that by (simp add: nan_run_def task_key_def)
  note g = group_by_plain [of "read_tasks files" nan_run task_key, OF this]
  have "set (map fst (tasks_by_run (read_tasks files))) = task_key ` set (read_tasks files)"
  proof (rule set_eqI)
    fix k
    have "k \<in> set (map fst (tasks_by_run (read_tasks files))) \<longleftrightarrow> (\<exists>ts. (k, ts) \<in> set (tasks_by_run (read_tasks files)))"
      by force
    with g(2) show "k \<in> set (map fst (tasks_by_run (read_tasks files))) \<longleftrightarrow> k \<in> task_key ` set (read_tasks files)"
      by (simp add: tasks_by_run_def)
  qed
  moreover have "sum_list (map (length \<circ> snd) (tasks_by_run (read_tasks files))) = length (read_tasks files)"
    unfolding tasks_by_run_def comp_def by (rule group_by_size)
  moreover have "distinct (map fst (tasks_by_run (read_tasks files)))"
    using g(1) by (simp add: tasks_by_run_def)
  moreover note analyse_runs_labels [OF assms(1) [unfolded analyse_tasks_def]]
  ultimately show ?thesis by (simp only: analysis.simps list.map append_Nil sum_list.Nil add_0 simp_thms)
qed

definition sample_task_file :: task_file where
  "sample_task_file = \<lparr>tf_source = [], tf_suite_dir = ''s'', tf_run_dir = ''r'', tf_rows =
     [[(''Scheduler'', Some ''CFS''), (''Nice'', Some ''0''), (''Weight'', Some ''2'')],
      [(''Scheduler'', Some ''MLFQ''), (''Nice'', Some ''5''), (''Weight'', Some ''1'')]]\<rparr>"

theorem analyse_tasks_complete_witness:
  "\<exists>an. analyse_tasks [] [sample_task_file] = Some an \<and> sum_list (map n_count (an_nice an)) = 2"
proof -
  have "list_all finite_task (read_tasks [sample_task_file])"
    "list_all (\<lambda>t. t_stop_time t \<noteq> NaN) (read_tasks [sample_task_file])" by code_simp+
  moreover have "length (tasks_by_run (read_tasks [sample_task_file])) = 2
      \<and> list_all (\<lambda>g. list_all finite_task (snd g)) (tasks_by_run (read_tasks [sample_task_file]))" by code_simp
  then obtain g1 g2 where g: "tasks_by_run (read_tasks [sample_task_file]) = [g1, g2]"
    "list_all finite_task (snd g1)" "list_all finite_task (snd g2)"
    by (auto simp: numeral_2_eq_2 length_Suc_conv)
  then obtain an where an: "analyse_tasks [] [sample_task_file] = Some an"
    by (simp add: analyse_tasks_def analyse_run_def Let_def)
  moreover have "length (read_tasks [sample_task_file]) = 2" by code_simp
  ultimately show ?thesis
    using analyse_tasks_complete [OF an] by (simp add: list_all_iff)
qed


section \<open>The comparison with MLFQ\<close>

lemma baseline_map_find:
  "map_of (baseline_map rows) k =
     (let rs = filter (\<lambda>r. m_scheduler r = Some ''MLFQ'' \<and> baseline_key r = k) rows
      in if rs = [] then None else Some (last rs))"
  by (induction rows rule: rev_induct) (auto simp: baseline_map_def Let_def update_conv')

lemma chars_by_key_find:
  "map_of (chars_by_key rows) k =
     (let rs = filter (\<lambda>r. l_key (c_label r) = k) rows in if rs = [] then None else Some (last rs))"
  by (induction rows rule: rev_induct) (auto simp: chars_by_key_def Let_def update_conv')

text \<open>
  C30. The comparison has one row for each row of a fair scheduler, in order. Its differences are
  taken from the last MLFQ row of the same configuration, and are 0 if there is none or the stop
  time is NaN.
\<close>

theorem fairness_vs_chars_correct:
  "map f_row (fairness_vs_chars rows chars)
     = filter (\<lambda>row. m_scheduler row \<in> Some ` {''CFS'', ''EEVDF'', ''Stride''}) rows
   \<and> (\<forall>f\<in>set (fairness_vs_chars rows chars).
        let bases = filter (\<lambda>b. m_scheduler b = Some ''MLFQ'' \<and> baseline_key b = baseline_key (f_row f)) rows
        in if bases = [] \<or> m_stop_time (f_row f) = NaN
           then f_throughput_delta f = Fin 0 \<and> f_mean_rt_delta f = Fin 0
           else f_throughput_delta f = float_sub (m_throughput (f_row f)) (m_throughput (last bases))
             \<and> f_mean_rt_delta f = float_sub (m_mean_rt (f_row f)) (m_mean_rt (last bases)))"
proof
  show "map f_row (fairness_vs_chars rows chars)
     = filter (\<lambda>row. m_scheduler row \<in> Some ` {''CFS'', ''EEVDF'', ''Stride''}) rows"
    by (simp add: fairness_vs_chars_def fairness_row_of_def Let_def comp_def)
next
  have "let bases = filter (\<lambda>b. m_scheduler b = Some ''MLFQ'' \<and> baseline_key b = baseline_key row) rows
        in if bases = [] \<or> m_stop_time row = NaN
           then f_throughput_delta f = Fin 0 \<and> f_mean_rt_delta f = Fin 0
           else f_throughput_delta f = float_sub (m_throughput row) (m_throughput (last bases))
             \<and> f_mean_rt_delta f = float_sub (m_mean_rt row) (m_mean_rt (last bases))"
    if "f = fairness_row_of (baseline_map rows) (chars_by_key chars) row" for f row
    unfolding that fairness_row_of_def baseline_map_find Let_def by simp
  moreover have "f_row (fairness_row_of b c row) = row" for b c row
    by (simp add: fairness_row_of_def Let_def)
  ultimately show "\<forall>f\<in>set (fairness_vs_chars rows chars).
        let bases = filter (\<lambda>b. m_scheduler b = Some ''MLFQ'' \<and> baseline_key b = baseline_key (f_row f)) rows
        in if bases = [] \<or> m_stop_time (f_row f) = NaN
           then f_throughput_delta f = Fin 0 \<and> f_mean_rt_delta f = Fin 0
           else f_throughput_delta f = float_sub (m_throughput (f_row f)) (m_throughput (last bases))
             \<and> f_mean_rt_delta f = float_sub (m_mean_rt (f_row f)) (m_mean_rt (last bases))"
    unfolding fairness_vs_chars_def set_map by (intro ballI) (elim imageE, simp only:)
qed

definition sample_metrics_row :: "string \<Rightarrow> rat \<Rightarrow> metrics_row" where
  "sample_metrics_row scheduler throughput = \<lparr>
      m_benchmark_version = [], m_schema_version = [], m_suite_id = [], m_run_id = [], m_seed = 0,
      m_source_file = [], m_replication = 0, m_num_tasks = 0, m_cores = 0, m_topology = Some [],
      m_balancer = Some [], m_work_stealing = Some [], m_stop_time = Fin 0,
      m_scheduler = Some scheduler, m_scheduler_class = [], m_workload = Some [],
      m_workload_type = [], m_topology_variant = [], m_experiment_ids = [], m_flags = [],
      m_completed = 0, m_completion_ratio = Fin 0, m_mean_rt = Fin 1, m_p95_rt = Fin 0,
      m_p99_rt = Fin 0, m_mean_tat = Fin 0, m_mean_wt = Fin 0, m_throughput = Fin throughput,
      m_throughput_per_core = Fin 0, m_utilization = Fin 0, m_jains_fairness = Fin 0,
      m_context_switches = 0, m_preemptions = 0, m_context_switches_per_task = Fin 0,
      m_preemptions_per_task = Fin 0\<rparr>"

definition sample_metrics :: "metrics_row list" where
  "sample_metrics = [sample_metrics_row ''MLFQ'' 5, sample_metrics_row ''CFS'' 7, sample_metrics_row ''MLFQ'' 4]"

theorem fairness_vs_chars_correct_witness:
  "map f_throughput_delta (fairness_vs_chars sample_metrics []) = [Fin 3]"
proof -
  have "map f_row (fairness_vs_chars sample_metrics []) = [sample_metrics_row ''CFS'' 7]"
    using fairness_vs_chars_correct [of sample_metrics "[]"]
    by (simp add: sample_metrics_def sample_metrics_row_def)
  then obtain f where f: "fairness_vs_chars sample_metrics [] = [f]" "f_row f = sample_metrics_row ''CFS'' 7"
    by (auto simp: map_eq_Cons_conv)
  then have "f_throughput_delta f = float_sub (Fin 7) (Fin 4)"
    using fairness_vs_chars_correct [of sample_metrics "[]"]
    by (simp add: sample_metrics_def sample_metrics_row_def baseline_key_def Let_def)
  moreover have "float_sub (Fin 7) (Fin 4) = Fin 3" by code_simp
  ultimately show ?thesis using f by simp
qed


section \<open>Joined experiments\<close>

text \<open>
  The experiments of a run are written as one text and split again for the analysis of its
  tasks: the flags there are the flags of the metrics rows, provided that no experiment id
  contains a semicolon.
\<close>

theorem flags_of_joined:
  assumes "run_meta_of rp idx specs mf row = Inr r"
    and "\<forall>n\<in>set (rm_experiment_ids r). CHR '';'' \<notin> set n"
  shows "flags_of (rm_experiments r) = rm_flags r"
proof -
  from assms(1) obtain ids where r: "id_strings ids = Inr (rm_experiment_ids r)" "experiment_flags ids = Inr (rm_flags r)"
    "rm_experiments r = (if rm_experiment_ids r \<noteq> [] then join '';'' (rm_experiment_ids r) else ''none'')"
    by (auto simp: run_meta_of_def bind_res_Inr)
  have flags: "experiment_flags (map JStr (rm_experiment_ids r)) = Inr (rm_flags r)"
    using r(2) unfolding id_strings_Inr [OF r(1)] .
  show ?thesis
  proof (cases "rm_experiment_ids r = []")
    case True
    with r flags show ?thesis by (simp add: flags_of_def)
  next
    case False
    with assms(2) have split: "split_on (CHR '';'') (rm_experiments r) = rm_experiment_ids r"
      by (simp add: r(3) split_on_join)
    show ?thesis
    proof (cases "rm_experiments r = ''none''")
      case True
      then have "rm_experiment_ids r = [''none'']" using split by simp
      moreover have "experiment_flags [JStr ''none''] = Inr no_flags" "experiment_flags [] = Inr no_flags" by code_simp+
      ultimately show ?thesis using flags True by (simp add: flags_of_def)
    next
      case False
      with split flags show ?thesis by (simp add: flags_of_def)
    qed
  qed
qed

theorem flags_of_joined_witness:
  "\<exists>r. run_meta_of (\<lambda>_. []) [((JStr ''s'', JStr ''r''),
      \<lparr>em_experiments = [JStr ''exp3-x'', JStr ''exp1''], em_status = JStr [], em_log_path = JStr [], em_summary_path = []\<rparr>)]
      [] sample_metrics_file (hd (mf_rows sample_metrics_file)) = Inr r
    \<and> flags_of (rm_experiments r) = rm_flags r"
  (is "\<exists>r. ?m = Inr r \<and> _ r")
proof -
  have "(case ?m of Inr r \<Rightarrow> list_all (\<lambda>n. \<not> List.member n (CHR '';'')) (rm_experiment_ids r) | Inl _ \<Rightarrow> False)"
    by code_simp
  then obtain r where "?m = Inr r" "\<forall>n\<in>set (rm_experiment_ids r). CHR '';'' \<notin> set n"
    by (auto simp: list_all_iff split: sum.splits)
  with flags_of_joined [OF this] show ?thesis by blast
qed

end
