(* ===== verification/Artifacts.thy ===== *)
theory Artifacts
  imports Aggregate
begin

text \<open>
  The artifacts of a run: how \<open>scripts/aggregate_results.py\<close> and
  \<open>scripts/generate_run_manifests.py\<close> find them below the runs directory, and the manifests
  that the latter writes beside the metrics and the former reads.

  A path is the list of its parts, from the root of the file system. Hashes, the git commit, the
  time and the paths relative to the repository (\<open>None\<close> outside of it) are inputs.
\<close>

section \<open>Finding artifacts\<close>

type_synonym path = "string list"

definition ignored :: "path \<Rightarrow> bool" where
  "ignored p \<longleftrightarrow> ''logs'' \<in> set p \<or> ''manifests'' \<in> set p"

text \<open>
  \<open>discover_paths\<close>: the paths are what \<open>rglob("*.csv")\<close> finds, in any order, each with at
  least a name.
\<close>

fun split_paths :: "path list \<Rightarrow> path list \<times> path list" where
  "split_paths [] = ([], [])"
| "split_paths (p # ps) =
     (case split_paths ps of (metrics, tasks) \<Rightarrow>
        if ignored p then (metrics, tasks)
        else if last p = ''metrics.csv'' then (p # metrics, tasks)
        else if last p = ''tasks.csv'' then (metrics, p # tasks)
        else (metrics, tasks))"

definition discover_paths :: "path list \<Rightarrow> path list \<times> path list" where
  "discover_paths ps = (case split_paths ps of (metrics, tasks) \<Rightarrow> (sort metrics, sort tasks))"

text \<open>The same search in \<open>main\<close> of \<open>generate_run_manifests.py\<close>, for metrics only.\<close>

definition discover_metrics :: "path list \<Rightarrow> path list" where
  "discover_metrics ps = sort (filter (\<lambda>p. \<not> ignored p \<and> last p = ''metrics.csv'') ps)"


section \<open>Manifests\<close>

text \<open>\<open>numeric_set\<close>: blank cells and cells that are no numbers are left out.\<close>

definition numeric_cells :: "csv_row list \<Rightarrow> string \<Rightarrow> pyfloat list" where
  "numeric_cells rows k = concat (map (\<lambda>row. case map_of row k of
       Some (Some s) \<Rightarrow> (if s = [] then [] else case parse_float s of None \<Rightarrow> [] | Some f \<Rightarrow> [f])
     | _ \<Rightarrow> []) rows)"

definition numeric_set :: "csv_row list \<Rightarrow> string \<Rightarrow> pyfloat list" where
  "numeric_set rows k = sorted_set (numeric_cells rows k)"

record manifest_input =
  mi_metrics_path :: "string option"
  mi_metrics_stem :: string
  mi_metrics_sha :: string
  mi_rows :: "csv_row list"
  mi_tasks :: "(string option \<times> string) option"

definition cell_json :: "cell \<Rightarrow> json" where
  "cell_json c = (case c of None \<Rightarrow> JNull | Some s \<Rightarrow> JStr s)"

text \<open>\<open>first.get(k, fallback)\<close>\<close>

definition first_get :: "csv_row \<Rightarrow> string \<Rightarrow> string \<Rightarrow> json" where
  "first_get row k fallback = (case map_of row k of None \<Rightarrow> JStr fallback | Some c \<Rightarrow> cell_json c)"

text \<open>\<open>str(path.relative_to(root))\<close> raises \<open>ValueError\<close> outside of the root.\<close>

definition relative_path :: "string option \<Rightarrow> json ires" where
  "relative_path p = (case p of None \<Rightarrow> Inl ConvErr | Some s \<Rightarrow> Inr (JStr s))"

definition manifest_summary :: "csv_row list \<Rightarrow> json" where
  "manifest_summary rows = JObj [
     (''rows'', JInt (int (length rows))),
     (''replications'', JList (map JFloat (numeric_set rows ''Replication''))),
     (''num_tasks'', JList (map JFloat (numeric_set rows ''NumTasks''))),
     (''cores'', JList (map JFloat (numeric_set rows ''Cores''))),
     (''stop_time'', JList (map JFloat (numeric_set rows ''StopTime''))),
     (''topologies'', JList (map JStr (column_texts rows ''Topology''))),
     (''balancers'', JList (map JStr (column_texts rows ''Balancer''))),
     (''work_stealing_values'', JList (map JStr (column_texts rows ''WorkStealing''))),
     (''schedulers'', JList (map JStr (column_texts rows ''Scheduler''))),
     (''workloads'', JList (map JStr (column_texts rows ''Workload'')))]"

definition build_manifest :: "string \<Rightarrow> string \<Rightarrow> manifest_input \<Rightarrow> json ires" where
  "build_manifest now commit mi = (case mi_rows mi of
      [] \<Rightarrow> Inl (Fail ())
    | first # _ \<Rightarrow>
        bind_res (relative_path (mi_metrics_path mi)) (\<lambda>metrics_csv.
        bind_res (case mi_tasks mi of None \<Rightarrow> Inr JNull | Some (p, _) \<Rightarrow> relative_path p) (\<lambda>tasks_csv.
        Inr (JObj [
          (''manifest_schema_version'', JStr ''manifest.v1''),
          (''generated_at_utc'', JStr now),
          (''git_commit'', JStr commit),
          (''benchmark_metadata'', JObj [
             (''benchmark_version'', first_get first ''BenchmarkVersion'' ''unknown''),
             (''schema_version'', first_get first ''SchemaVersion'' ''metrics.v2''),
             (''suite_id'', first_get first ''SuiteId'' ''unknown-suite''),
             (''run_id'', first_get first ''RunId'' (mi_metrics_stem mi))]),
          (''source_files'', JObj [
             (''metrics_csv'', metrics_csv),
             (''metrics_sha256'', JStr (mi_metrics_sha mi)),
             (''tasks_csv'', tasks_csv),
             (''tasks_sha256'', case mi_tasks mi of None \<Rightarrow> JNull | Some (_, sha) \<Rightarrow> JStr sha)]),
          (''run_summary'', manifest_summary (mi_rows mi))]))))"

text \<open>
  \<open>main\<close>: the manifests are written one after the other, so those before a failure stay.
  The result is what was written, by metrics path, and how the program ended; with no metrics
  file it ends at once.
\<close>

fun write_manifests ::
  "string \<Rightarrow> string \<Rightarrow> (path \<Rightarrow> manifest_input) \<Rightarrow> path list \<Rightarrow> (path \<times> json) list \<times> unit ires"
where
  "write_manifests now commit read [] = ([], Inr ())"
| "write_manifests now commit read (p # ps) =
     (case build_manifest now commit (read p) of
        Inl e \<Rightarrow> ([], Inl e)
      | Inr m \<Rightarrow> (case write_manifests now commit read ps of (out, r) \<Rightarrow> ((p, m) # out, r)))"

definition manifests_main ::
  "string \<Rightarrow> string \<Rightarrow> (path \<Rightarrow> manifest_input) \<Rightarrow> path list \<Rightarrow> (path \<times> json) list \<times> unit ires"
where
  "manifests_main now commit read ps =
     (if discover_metrics ps = [] then ([], Inl (Fail ()))
      else write_manifests now commit read (discover_metrics ps))"


section \<open>Properties of the search\<close>

lemma split_paths_eq:
  "split_paths ps =
     (filter (\<lambda>p. \<not> ignored p \<and> last p = ''metrics.csv'') ps,
      filter (\<lambda>p. \<not> ignored p \<and> last p = ''tasks.csv'') ps)"
  by (induction ps) auto

text \<open>
  Both programs find the same metrics files, sorted; but a directory named \<open>logs\<close> or
  \<open>manifests\<close> anywhere above the runs directory hides all of them.
\<close>

theorem discover_agree:
  "fst (discover_paths ps) = discover_metrics ps
   \<and> sorted (fst (discover_paths ps)) \<and> sorted (snd (discover_paths ps))
   \<and> (\<forall>p. p \<in> set (discover_metrics ps) \<longleftrightarrow> p \<in> set ps \<and> \<not> ignored p \<and> last p = ''metrics.csv'')
   \<and> discover_paths (map (\<lambda>p. ''home'' # ''logs'' # p) ps) = ([], [])"
proof -
  have "filter (\<lambda>p. \<not> ignored p \<and> Q p) (map (\<lambda>p. ''home'' # ''logs'' # p) ps) = []" for Q
    by (auto simp: filter_empty_conv ignored_def)
  then show ?thesis by (auto simp: discover_paths_def split_paths_eq discover_metrics_def)
qed


section \<open>The summary in a manifest\<close>

text \<open>A column whose cells are all finite numbers.\<close>

definition numeric_column :: "csv_row list \<Rightarrow> string \<Rightarrow> bool" where
  "numeric_column rows k \<longleftrightarrow> list_all (\<lambda>row. case map_of row k of
     Some (Some s) \<Rightarrow> (case parse_float s of Some (Fin _) \<Rightarrow> True | _ \<Rightarrow> False) | _ \<Rightarrow> False) rows"

lemma numeric_columnD:
  assumes "numeric_column rows k" and "row \<in> set rows"
  shows "\<exists>s x. map_of row k = Some (Some s) \<and> s \<noteq> [] \<and> parse_float s = Some (Fin x)
    \<and> row_float row k = Fin x \<and> row_int row k = trunc x"
proof -
  from assms have "case map_of row k of Some (Some s) \<Rightarrow> (case parse_float s of Some (Fin _) \<Rightarrow> True | _ \<Rightarrow> False) | _ \<Rightarrow> False"
    by (simp add: numeric_column_def list_all_iff)
  then obtain s x where s: "map_of row k = Some (Some s)" "parse_float s = Some (Fin x)"
    by (cases "map_of row k"; cases "the (map_of row k)"; cases "parse_float (the (the (map_of row k)))";
        cases "the (parse_float (the (the (map_of row k))))") auto
  then have "s \<noteq> []" by auto
  with s show ?thesis by (simp add: row_float_def row_int_def to_float_def to_int_def)
qed

lemma numeric_cells_column:
  "numeric_column rows k \<Longrightarrow> numeric_cells rows k = map (\<lambda>r. row_float r k) rows"
proof (induction rows)
  case (Cons row rows)
  then have "numeric_column rows k" by (simp add: numeric_column_def)
  with Cons.IH numeric_columnD [OF Cons.prems, of row] show ?case by (auto simp: numeric_cells_def)
qed (simp add: numeric_cells_def)

lemma manifest_values [simp]:
  "normalize_summary_values (manifest_summary rows) ''workloads'' = Inr (map JStr (column_texts rows ''Workload''))"
  "normalize_summary_values (manifest_summary rows) ''cores'' = Inr (map JFloat (numeric_set rows ''Cores''))"
  "normalize_summary_values (manifest_summary rows) ''num_tasks'' = Inr (map JFloat (numeric_set rows ''NumTasks''))"
  "normalize_summary_values (manifest_summary rows) ''stop_time'' = Inr (map JFloat (numeric_set rows ''StopTime''))"
  "normalize_summary_values (manifest_summary rows) ''topologies'' = Inr (map JStr (column_texts rows ''Topology''))"
  "normalize_summary_values (manifest_summary rows) ''balancers'' = Inr (map JStr (column_texts rows ''Balancer''))"
  "normalize_summary_values (manifest_summary rows) ''work_stealing_values'' = Inr (map JStr (column_texts rows ''WorkStealing''))"
  by (simp_all add: normalize_summary_values_def manifest_summary_def dget_def)

lemma map_res_py_int_floats:
  "\<forall>f\<in>set fs. \<exists>x. f = Fin x \<Longrightarrow> map_res py_int (map JFloat fs)
     = (Inr (map (\<lambda>f. case f of Fin x \<Rightarrow> trunc x | _ \<Rightarrow> 0) fs) :: int list ires)"
  by (induction fs) auto

lemma manifest_ints:
  assumes "numeric_column rows k"
  shows "\<exists>ns. map_res py_int (map JFloat (numeric_set rows k)) = (Inr ns :: int list ires)
    \<and> set ns = set (sorted_set (map (\<lambda>r. row_int r k) rows))"
proof -
  let ?f = "\<lambda>f. case f of Fin x \<Rightarrow> trunc x | _ \<Rightarrow> 0"
  have fin: "\<forall>f\<in>set (numeric_set rows k). \<exists>x. f = Fin x"
    using numeric_columnD [OF assms] by (fastforce simp: numeric_set_def sorted_set_def numeric_cells_column [OF assms])
  have "?f ` set (numeric_set rows k) = (\<lambda>r. row_int r k) ` set rows"
    unfolding numeric_set_def sorted_set_def numeric_cells_column [OF assms]
    using numeric_columnD [OF assms] by (force simp: image_iff)
  then show ?thesis
    by (intro exI [of _ "map ?f (numeric_set rows k)"] conjI map_res_py_int_floats [OF fin])
      (simp add: sorted_set_def)
qed

lemma summary_sets_manifest:
  assumes "numeric_column rows ''Cores''" "numeric_column rows ''NumTasks''" "numeric_column rows ''StopTime''"
  shows "\<exists>cs ns. summary_sets_of rp (manifest_summary rows) = Inr
     \<lparr>sm_workloads = map JStr (column_texts rows ''Workload''), sm_cores = cs, sm_num_tasks = ns,
      sm_stop_times = sorted_set (map (\<lambda>r. row_float r ''StopTime'') rows),
      sm_topologies = map py_lower (column_texts rows ''Topology''),
      sm_balancers = map py_lower (column_texts rows ''Balancer''),
      sm_ws = map py_lower (column_texts rows ''WorkStealing'')\<rparr>
    \<and> set cs = set (sorted_set (map (\<lambda>r. row_int r ''Cores'') rows))
    \<and> set ns = set (sorted_set (map (\<lambda>r. row_int r ''NumTasks'') rows))"
proof -
  from manifest_ints [OF assms(1)] obtain cs where cs: "map_res py_int (map JFloat (numeric_set rows ''Cores'')) = (Inr cs :: int list ires)"
    "set cs = set (sorted_set (map (\<lambda>r. row_int r ''Cores'') rows))" by blast
  from manifest_ints [OF assms(2)] obtain ns where ns: "map_res py_int (map JFloat (numeric_set rows ''NumTasks'')) = (Inr ns :: int list ires)"
    "set ns = set (sorted_set (map (\<lambda>r. row_int r ''NumTasks'') rows))" by blast
  have "numeric_set rows ''StopTime'' = sorted_set (map (\<lambda>r. row_float r ''StopTime'') rows)"
    by (simp add: numeric_set_def numeric_cells_column [OF assms(3)])
  with cs ns show ?thesis by - (rule exI [of _ cs], rule exI [of _ ns], simp add: summary_sets_of_def comp_def)
qed

lemma manifest_match:
  assumes "numeric_column rows ''Cores''" "numeric_column rows ''NumTasks''" "numeric_column rows ''StopTime''"
  shows "run_def_matches_summary rp d (manifest_summary rows) = run_def_matches_summary rp d (summarize_run_rows rows)"
proof -
  from summary_sets_manifest [OF assms, of rp] obtain cs ns where s: "summary_sets_of rp (manifest_summary rows) = Inr
     \<lparr>sm_workloads = map JStr (column_texts rows ''Workload''), sm_cores = cs, sm_num_tasks = ns,
      sm_stop_times = sorted_set (map (\<lambda>r. row_float r ''StopTime'') rows),
      sm_topologies = map py_lower (column_texts rows ''Topology''),
      sm_balancers = map py_lower (column_texts rows ''Balancer''),
      sm_ws = map py_lower (column_texts rows ''WorkStealing'')\<rparr>"
    "set cs = set (sorted_set (map (\<lambda>r. row_int r ''Cores'') rows))"
    "set ns = set (sorted_set (map (\<lambda>r. row_int r ''NumTasks'') rows))" by blast
  then show ?thesis
    unfolding run_def_matches_summary_def summary_sets_summarize s(1) bind_res_simps summary_sets.simps by simp
qed

lemma any_match_manifest:
  assumes "\<And>d. run_def_matches_summary rp d s = run_def_matches_summary rp d s'"
  shows "match_experiments rp s es = match_experiments rp s' es"
proof -
  have "any_match rp s ds = any_match rp s' ds" for ds by (induction ds) (simp_all add: assms cong: if_cong)
  then show ?thesis by (induction es) auto
qed

text \<open>
  C10. The manifest of a run whose numeric columns hold finite numbers attributes the run to the
  same experiments as the rows themselves would: inferring from the summary in the manifest and
  from the summary of the rows gives the same.
\<close>

theorem manifest_same_experiments:
  assumes "build_manifest now commit mi = Inr m" and "py_get m ''run_summary'' JNull = (Inr s :: json ires)"
    and "\<forall>k\<in>{''Cores'', ''NumTasks'', ''StopTime''}. numeric_column (mi_rows mi) k"
  shows "truthy s \<and> infer_experiments_from_spec rp suite_id s specs
    = infer_experiments_from_spec rp suite_id (summarize_run_rows (mi_rows mi)) specs"
proof -
  from assms(1) obtain kvs where "m = JObj kvs" "dget kvs ''run_summary'' JNull = manifest_summary (mi_rows mi)"
    by (cases "mi_rows mi") (auto simp: build_manifest_def bind_res_Inr dget_def)
  with assms(2) have s: "s = manifest_summary (mi_rows mi)" by simp
  have "run_def_matches_summary rp d s = run_def_matches_summary rp d (summarize_run_rows (mi_rows mi))" for d
    unfolding s by (rule manifest_match) (use assms(3) in simp_all)
  from any_match_manifest [OF this] have "infer_experiments_from_spec rp suite_id s specs
    = infer_experiments_from_spec rp suite_id (summarize_run_rows (mi_rows mi)) specs"
    by (simp add: infer_experiments_from_spec_def cong: option.case_cong)
  moreover have "truthy s" by (simp add: s manifest_summary_def)
  ultimately show ?thesis by simp
qed

definition sample_input :: manifest_input where
  "sample_input = \<lparr>mi_metrics_path = Some ''runs/s/r/metrics.csv'', mi_metrics_stem = ''metrics'',
     mi_metrics_sha = [], mi_rows = [[(''SuiteId'', Some ''s''), (''RunId'', Some ''r''), (''Cores'', Some ''4''),
       (''NumTasks'', Some ''100''), (''StopTime'', Some ''5e3''), (''Topology'', Some ''sq'')]], mi_tasks = None\<rparr>"

theorem manifest_same_experiments_witness:
  "\<exists>m s. build_manifest [] [] sample_input = Inr m
    \<and> infer_experiments_from_spec (\<lambda>_. []) ''demo'' s sample_specs
      = infer_experiments_from_spec (\<lambda>_. []) ''demo'' (summarize_run_rows (mi_rows sample_input)) sample_specs"
proof -
  have "(case build_manifest [] [] sample_input of Inr m \<Rightarrow>
      (case (py_get m ''run_summary'' JNull :: json ires) of Inr _ \<Rightarrow> True | Inl _ \<Rightarrow> False) | Inl _ \<Rightarrow> False)" by code_simp
  then obtain m s where "build_manifest [] [] sample_input = Inr m" "py_get m ''run_summary'' JNull = (Inr s :: json ires)"
    by (auto split: sum.splits)
  moreover have "numeric_column (mi_rows sample_input) ''Cores''" "numeric_column (mi_rows sample_input) ''NumTasks''"
    "numeric_column (mi_rows sample_input) ''StopTime''" by code_simp+
  ultimately show ?thesis using manifest_same_experiments [of "[]" "[]" sample_input m s "\<lambda>_. []" "''demo''" sample_specs] by blast
qed

text \<open>
  What the aggregation reads back from a manifest is what the generator wrote: the first
  row's suite, run and version, the commit and the time; so for a run of which the manifest was
  written from the same rows, the suite and the run are those of the first row.
\<close>

theorem manifest_roundtrip:
  assumes "build_manifest now commit mi = Inr m" and "mi_rows mi = first # rows"
  shows "manifest_meta (Some m) ''suite_id'' = Inr (first_get first ''SuiteId'' ''unknown-suite'')
    \<and> manifest_meta (Some m) ''run_id'' = Inr (first_get first ''RunId'' (mi_metrics_stem mi))
    \<and> manifest_meta (Some m) ''benchmark_version'' = Inr (first_get first ''BenchmarkVersion'' ''unknown'')
    \<and> py_get m ''git_commit'' (JStr []) = (Inr (JStr commit) :: json ires)
    \<and> py_get m ''generated_at_utc'' (JStr []) = (Inr (JStr now) :: json ires)
    \<and> (\<forall>sid. map_of first ''SuiteId'' = Some (Some sid) \<longrightarrow> sid \<noteq> []
        \<longrightarrow> meta_text rp first (Some m) ''SuiteId'' ''suite_id'' fallback = Inr sid)"
proof -
  from assms obtain metrics_csv tasks_csv where m: "m = JObj [
          (''manifest_schema_version'', JStr ''manifest.v1''),
          (''generated_at_utc'', JStr now),
          (''git_commit'', JStr commit),
          (''benchmark_metadata'', JObj [
             (''benchmark_version'', first_get first ''BenchmarkVersion'' ''unknown''),
             (''schema_version'', first_get first ''SchemaVersion'' ''metrics.v2''),
             (''suite_id'', first_get first ''SuiteId'' ''unknown-suite''),
             (''run_id'', first_get first ''RunId'' (mi_metrics_stem mi))]),
          (''source_files'', JObj [
             (''metrics_csv'', metrics_csv),
             (''metrics_sha256'', JStr (mi_metrics_sha mi)),
             (''tasks_csv'', tasks_csv),
             (''tasks_sha256'', case mi_tasks mi of None \<Rightarrow> JNull | Some (_, sha) \<Rightarrow> JStr sha)]),
          (''run_summary'', manifest_summary (mi_rows mi))]"
    by (auto simp: build_manifest_def bind_res_Inr)
  then show ?thesis
    by (simp add: manifest_meta_def manifest_dict_def dget_def meta_text_def first_text_def)
qed

theorem manifest_roundtrip_witness:
  "\<exists>m. build_manifest [] [] sample_input = Inr m \<and> manifest_meta (Some m) ''run_id'' = Inr (JStr ''r'')"
proof -
  have "(case build_manifest [] [] sample_input of Inr m \<Rightarrow> True | Inl _ \<Rightarrow> False)" by code_simp
  then obtain m where *: "build_manifest [] [] sample_input = Inr m" by (auto split: sum.splits)
  obtain first where first: "mi_rows sample_input = [first]" "first_get first ''RunId'' ''metrics'' = JStr ''r''"
    by (simp add: sample_input_def first_get_def cell_json_def)
  with manifest_roundtrip [OF * first(1)] * show ?thesis by (simp add: sample_input_def)
qed


section \<open>Writing the manifests\<close>

text \<open>
  The manifests are written in the order of the metrics paths up to the first file that
  cannot be described, in particular one without rows: those before it are written, those after
  it are not, and the program succeeds exactly if there are metrics files and each has one.
\<close>

theorem write_manifests_prefix:
  "write_manifests now commit read ps = (out, r) \<Longrightarrow>
     \<exists>n\<le>length ps. map fst out = take n ps
       \<and> (\<forall>(p, m)\<in>set out. build_manifest now commit (read p) = Inr m)
       \<and> (case r of Inr _ \<Rightarrow> n = length ps
          | Inl e \<Rightarrow> n < length ps \<and> build_manifest now commit (read (ps ! n)) = Inl e)"
proof (induction ps arbitrary: out r)
  case (Cons p ps)
  show ?case
  proof (cases "build_manifest now commit (read p)")
    case (Inl e)
    with Cons.prems show ?thesis by auto
  next
    case (Inr m)
    with Cons.prems obtain out' where out': "write_manifests now commit read ps = (out', r)" "out = (p, m) # out'"
      by (auto split: prod.splits)
    from Cons.IH [OF out'(1)] obtain n where n: "n \<le> length ps" "map fst out' = take n ps"
      "\<forall>(p, m)\<in>set out'. build_manifest now commit (read p) = Inr m"
      "case r of Inr _ \<Rightarrow> n = length ps
          | Inl e \<Rightarrow> n < length ps \<and> build_manifest now commit (read (ps ! n)) = Inl e" by blast
    with Inr out'(2) show ?thesis by (intro exI [of _ "Suc n"]) (auto split: sum.splits)
  qed
qed simp

theorem write_manifests_prefix_witness:
  "\<exists>out r. write_manifests [] [] (\<lambda>p. sample_input\<lparr>mi_rows := if p = [''b''] then [] else mi_rows sample_input\<rparr>)
      [[''a''], [''b''], [''c'']] = (out, r) \<and> (\<exists>n\<le>3. map fst out = take n [[''a''], [''b''], [''c'']])"
proof -
  obtain out r where *: "write_manifests [] [] (\<lambda>p. sample_input\<lparr>mi_rows := if p = [''b''] then [] else mi_rows sample_input\<rparr>)
      [[''a''], [''b''], [''c'']] = (out, r)" by force
  from write_manifests_prefix [OF *] obtain n where "n \<le> 3" "map fst out = take n [[''a''], [''b''], [''c'']]"
    by (auto simp: numeral_3_eq_3)
  with * show ?thesis by blast
qed

end
