(* ===== verification/SummaryTable.thy ===== *)
theory SummaryTable
  imports Stats "HOL-Library.Product_Lexorder"
begin

text \<open>
  \<open>scripts/export_summary_table.py\<close>: the mean metrics by experiment, workload and scheduler,
  from the rows of \<open>metrics_enriched.csv\<close>, as CSV rows and as a Markdown table.

  The text of a number, \<open>:.6g\<close>, is the parameter \<open>fmt\<close>.
\<close>

section \<open>Experiments of a row\<close>

definition split_experiments :: "string \<Rightarrow> string list" where
  "split_experiments raw =
     (let parts = map py_strip (filter (\<lambda>p. py_strip p \<noteq> []) (split_on (CHR '';'') raw));
          clean = filter (\<lambda>p. py_lower p \<noteq> ''none'') parts
      in if clean \<noteq> [] then clean else [''none''])"

text \<open>\<open>row.get("ExperimentIds") or "none"\<close>\<close>

definition row_experiments :: "csv_row \<Rightarrow> string list" where
  "row_experiments row = split_experiments
     (if first_text row ''ExperimentIds'' \<noteq> [] then first_text row ''ExperimentIds'' else ''none'')"


section \<open>Aggregation\<close>

record slot =
  sl_n :: int
  sl_throughput :: pyfloat
  sl_mean_rt :: pyfloat
  sl_fairness :: pyfloat
  sl_switches :: pyfloat
  sl_completion :: pyfloat

definition empty_slot :: slot where
  "empty_slot = \<lparr>sl_n = 0, sl_throughput = Fin 0, sl_mean_rt = Fin 0, sl_fairness = Fin 0,
     sl_switches = Fin 0, sl_completion = Fin 0\<rparr>"

definition add_row :: "csv_row \<Rightarrow> slot \<Rightarrow> slot" where
  "add_row row s = \<lparr>
     sl_n = sl_n s + 1,
     sl_throughput = float_add (sl_throughput s) (row_float row ''Throughput''),
     sl_mean_rt = float_add (sl_mean_rt s) (row_float row ''MeanRT''),
     sl_fairness = float_add (sl_fairness s) (row_float row ''JainsFairness''),
     sl_switches = float_add (sl_switches s) (row_float row ''ContextSwitchesPerTask''),
     sl_completion = float_add (sl_completion s) (row_float row ''CompletionRatio'')\<rparr>"

type_synonym summary_key = "string \<times> string \<times> string"

text \<open>One entry for every experiment of a row.\<close>

definition row_entries :: "csv_row \<Rightarrow> (summary_key \<times> csv_row) list" where
  "row_entries row =
     (let workload = py_strip (cell_str (cell_get row ''Workload''));
          scheduler = py_strip (cell_str (cell_get row ''Scheduler''))
      in map (\<lambda>e. ((e, workload, scheduler), row)) (row_experiments row))"

definition summary_slots :: "csv_row list \<Rightarrow> (summary_key \<times> slot) list" where
  "summary_slots rows = accumulate fst (\<lambda>e. add_row (snd e)) empty_slot (concat (map row_entries rows))"

text \<open>\<open>x / n\<close> of a float and a positive integer.\<close>

fun float_over :: "pyfloat \<Rightarrow> int \<Rightarrow> pyfloat" where
  "float_over (Fin r) n = Fin (r / of_int n)"
| "float_over f n = f"

record out_row =
  or_experiment :: string
  or_workload :: string
  or_scheduler :: string
  or_samples :: int
  or_throughput :: string
  or_mean_rt :: string
  or_fairness :: string
  or_switches :: string
  or_completion :: string

definition out_row_of :: "(pyfloat \<Rightarrow> string) \<Rightarrow> summary_key \<Rightarrow> slot \<Rightarrow> out_row" where
  "out_row_of fmt key s = (case key of (e, workload, scheduler) \<Rightarrow>
     (let n = max 1 (sl_n s) in \<lparr>
       or_experiment = e, or_workload = workload, or_scheduler = scheduler, or_samples = sl_n s,
       or_throughput = fmt (float_over (sl_throughput s) n),
       or_mean_rt = fmt (float_over (sl_mean_rt s) n),
       or_fairness = fmt (float_over (sl_fairness s) n),
       or_switches = fmt (float_over (sl_switches s) n),
       or_completion = fmt (float_over (sl_completion s) n)\<rparr>))"

definition summary_rows :: "(pyfloat \<Rightarrow> string) \<Rightarrow> csv_row list \<Rightarrow> out_row list" where
  "summary_rows fmt rows = map (\<lambda>(key, s). out_row_of fmt key s) (sorted_items (summary_slots rows))"


section \<open>Tables\<close>

definition summary_fields :: "string list" where
  "summary_fields = [''ExperimentId'', ''Workload'', ''Scheduler'', ''Samples'', ''ThroughputMean'',
     ''MeanRTMean'', ''FairnessMean'', ''ContextSwitchesPerTaskMean'', ''CompletionRatioMean'']"

definition out_cells :: "out_row \<Rightarrow> (string \<times> string) list" where
  "out_cells r = [(''ExperimentId'', or_experiment r), (''Workload'', or_workload r),
     (''Scheduler'', or_scheduler r), (''Samples'', dec_int (or_samples r)),
     (''ThroughputMean'', or_throughput r), (''MeanRTMean'', or_mean_rt r),
     (''FairnessMean'', or_fairness r), (''ContextSwitchesPerTaskMean'', or_switches r),
     (''CompletionRatioMean'', or_completion r)]"

text \<open>A line of the table, and \<open>str(row.get(c, "")).replace("|", "\\|")\<close>.\<close>

definition table_line :: "string list \<Rightarrow> string" where
  "table_line vs = ''| '' @ join '' | '' vs @ '' |''"

definition table_cell :: "(string \<times> string) list \<Rightarrow> string \<Rightarrow> string" where
  "table_cell row c = replace_char (CHR ''|'') [CHR 0x5C, CHR ''|''] (case map_of row c of None \<Rightarrow> [] | Some v \<Rightarrow> v)"

definition markdown_lines :: "(string \<times> string) list list \<Rightarrow> string list \<Rightarrow> string list" where
  "markdown_lines rows columns =
     (if rows = [] then [''_No rows._'']
      else [table_line columns, table_line (map (\<lambda>_. ''---'') columns)]
        @ map (\<lambda>row. table_line (map (table_cell row) columns)) rows)"

definition markdown_table :: "(string \<times> string) list list \<Rightarrow> string list \<Rightarrow> string" where
  "markdown_table rows columns = join [CHR 10] (markdown_lines rows columns)"

text \<open>
  \<open>main\<close>: the rows of the CSV file and the text of the Markdown file; \<open>None\<close> if the metrics
  are missing.
\<close>

definition export_summary ::
  "(pyfloat \<Rightarrow> string) \<Rightarrow> csv_row list option \<Rightarrow> (string list list \<times> string) option"
where
  "export_summary fmt metrics = (case metrics of None \<Rightarrow> None | Some rows \<Rightarrow>
     (let out = map out_cells (summary_rows fmt rows)
      in Some (summary_fields # map (map snd) out,
           join [CHR 10] [''# Benchmark Summary Table'', [], markdown_table out summary_fields, []])))"


section \<open>Properties\<close>

text \<open>An id that survives joining and splitting.\<close>

definition joinable_id :: "string \<Rightarrow> bool" where
  "joinable_id s \<longleftrightarrow> s \<noteq> [] \<and> py_strip s = s \<and> CHR '';'' \<notin> set s \<and> py_lower s \<noteq> ''none''"

text \<open>
  The experiments that the aggregation joined for a run are those that the summary splits
  again, if the ids are clean; a run without experiments counts for the experiment \<open>none\<close>.
\<close>

theorem split_experiments_roundtrip:
  assumes "run_meta_of rp idx specs mf row = Inr r" and "list_all joinable_id (rm_experiment_ids r)"
  shows "split_experiments (rm_experiments r)
    = (if rm_experiment_ids r = [] then [''none''] else rm_experiment_ids r)"
proof -
  let ?ids = "rm_experiment_ids r"
  from assms(1) have r: "rm_experiments r = (if ?ids \<noteq> [] then join '';'' ?ids else ''none'')"
    by (auto simp: run_meta_of_def bind_res_Inr)
  show ?thesis
  proof (cases "?ids = []")
    case True
    have "split_experiments ''none'' = [''none'']" by code_simp
    with True r show ?thesis by simp
  next
    case False
    have clean: "\<forall>s\<in>set ?ids. joinable_id s" using assms(2) by (simp add: list_all_iff)
    then have "split_on (CHR '';'') (join '';'' ?ids) = ?ids"
      by (intro split_on_join False) (auto simp: joinable_id_def)
    moreover have "filter (\<lambda>p. py_strip p \<noteq> []) ?ids = ?ids"
      by (rule filter_True) (use clean in \<open>auto simp: joinable_id_def\<close>)
    moreover have "map py_strip ?ids = ?ids"
      by (rule map_idI) (use clean in \<open>auto simp: joinable_id_def\<close>)
    moreover have "filter (\<lambda>p. py_lower p \<noteq> ''none'') ?ids = ?ids"
      by (rule filter_True) (use clean in \<open>auto simp: joinable_id_def\<close>)
    ultimately show ?thesis using False r by (simp only: split_experiments_def Let_def if_True if_False not_False_eq_True)
  qed
qed

interpretation summary_tally: tally fst "\<lambda>e. add_row (snd e)" empty_slot sl_n
  by unfold_locales (simp_all add: empty_slot_def add_row_def)

lemma summary_table: "sorted_items (summary_slots rows) = summary_tally.table (concat (map row_entries rows))"
  by (simp add: summary_slots_def summary_tally.table_def)

lemma summary_rows_table:
  "summary_rows fmt rows = map (\<lambda>(k, s). out_row_of fmt k s) (summary_tally.table (concat (map row_entries rows)))"
  by (simp add: summary_rows_def summary_table)

definition out_key :: "out_row \<Rightarrow> summary_key" where
  "out_key r = (or_experiment r, or_workload r, or_scheduler r)"

lemma out_key_of [simp]: "out_key (out_row_of fmt k s) = k"
  by (cases k) (simp add: out_key_def out_row_of_def Let_def)

lemma samples_of [simp]: "or_samples (out_row_of fmt k s) = sl_n s"
  by (cases k) (simp add: out_row_of_def Let_def)

text \<open>
  C28. The summary has one row for each experiment, workload and scheduler that occur
  together, in increasing order; the samples of a row are the entries with its key, at least
  one, and all samples add up to the experiments of all rows.
\<close>

theorem summary_rows_partition:
  "sorted_wrt (<) (map out_key (summary_rows fmt rows))
   \<and> set (map out_key (summary_rows fmt rows)) = fst ` set (concat (map row_entries rows))
   \<and> (\<forall>r\<in>set (summary_rows fmt rows). 1 \<le> or_samples r
        \<and> or_samples r = int (length (filter (\<lambda>e. fst e = out_key r) (concat (map row_entries rows)))))
   \<and> sum_list (map or_samples (summary_rows fmt rows)) = int (sum_list (map (length \<circ> row_experiments) rows))"
proof (intro conjI ballI)
  let ?es = "concat (map row_entries rows)"
  have out: "map out_key (summary_rows fmt rows) = map fst (summary_tally.table ?es)"
    by (simp add: summary_rows_table comp_def case_prod_unfold)
  show "sorted_wrt (<) (map out_key (summary_rows fmt rows))"
    "set (map out_key (summary_rows fmt rows)) = fst ` set ?es"
    unfolding out by (rule summary_tally.table_keys)+
  fix r assume "r \<in> set (summary_rows fmt rows)"
  then obtain k s where "(k, s) \<in> set (summary_tally.table ?es)" "r = out_row_of fmt k s"
    by (auto simp: summary_rows_table)
  with summary_tally.table_count [of k s ?es]
  show "1 \<le> or_samples r" "or_samples r = int (length (filter (\<lambda>e. fst e = out_key r) ?es))" by simp_all
next
  let ?es = "concat (map row_entries rows)"
  have "sum_list (map or_samples (summary_rows fmt rows)) = int (length ?es)"
    using summary_tally.table_total [of ?es] by (simp add: summary_rows_table comp_def case_prod_unfold)
  also have "length ?es = sum_list (map (length \<circ> row_experiments) rows)"
    by (simp add: length_concat row_entries_def Let_def comp_def)
  finally show "sum_list (map or_samples (summary_rows fmt rows)) = int (sum_list (map (length \<circ> row_experiments) rows))" .
qed

definition sample_rows_in :: "csv_row list" where
  "sample_rows_in = [[(''Throughput'', Some ''2'')], [(''Throughput'', Some ''4'')]]"

definition whole_number :: "pyfloat \<Rightarrow> string" where
  "whole_number f = (case f of Fin x \<Rightarrow> dec_int \<lfloor>x\<rfloor> | _ \<Rightarrow> [])"

theorem summary_rows_partition_witness:
  "sum_list (map or_samples (summary_rows whole_number sample_rows_in)) = 2
   \<and> (\<exists>r\<in>set (summary_rows whole_number sample_rows_in). 1 \<le> or_samples r)"
proof -
  have "sum_list (map (length \<circ> row_experiments) sample_rows_in) = 2" by code_simp
  with summary_rows_partition [of whole_number sample_rows_in]
  have "sum_list (map or_samples (summary_rows whole_number sample_rows_in)) = 2" by simp
  moreover from this have "summary_rows whole_number sample_rows_in \<noteq> []" by auto
  then have "hd (summary_rows whole_number sample_rows_in) \<in> set (summary_rows whole_number sample_rows_in)"
    by (rule hd_in_set)
  ultimately show ?thesis using summary_rows_partition [of whole_number sample_rows_in] by blast
qed

definition sample_index :: exec_index where
  "sample_index = [((JStr ''s'', JStr ''r''), \<lparr>em_experiments = [JStr ''exp3-x'', JStr ''exp1''],
     em_status = JStr [], em_log_path = JStr [], em_summary_path = []\<rparr>)]"

theorem split_experiments_roundtrip_witness:
  "\<exists>r. run_meta_of (\<lambda>_. []) sample_index [] sample_metrics_file (hd (mf_rows sample_metrics_file)) = Inr r
    \<and> split_experiments (rm_experiments r) = rm_experiment_ids r"
proof -
  have "(case run_meta_of (\<lambda>_. []) sample_index [] sample_metrics_file (hd (mf_rows sample_metrics_file)) of
      Inr r \<Rightarrow> list_all (\<lambda>s. \<not> List.null s \<and> py_strip s = s \<and> \<not> List.member s (CHR '';'') \<and> py_lower s \<noteq> ''none'')
        (rm_experiment_ids r) \<and> \<not> List.null (rm_experiment_ids r) | Inl _ \<Rightarrow> False)" by code_simp
  then obtain r where r: "run_meta_of (\<lambda>_. []) sample_index [] sample_metrics_file (hd (mf_rows sample_metrics_file)) = Inr r"
    "list_all joinable_id (rm_experiment_ids r)" "rm_experiment_ids r \<noteq> []"
    by (auto simp: list_all_iff joinable_id_def split: sum.splits)
  with split_experiments_roundtrip [OF r(1,2)] show ?thesis by auto
qed

lemma fold_float_add:
  "(\<And>n. n \<le> length xs \<Longrightarrow> \<bar>r + sum_list (take n xs)\<bar> < float_limit)
     \<Longrightarrow> fold (\<lambda>x acc. float_add acc (Fin x)) xs (Fin r) = Fin (r + sum_list xs)"
proof (induction xs arbitrary: r)
  case (Cons x xs)
  have "\<bar>r + x\<bar> < float_limit" using Cons.prems [of 1] by simp
  then have "float_of_rat (r + x) = Fin (r + x)" by (auto simp: float_of_rat_def)
  moreover have "\<bar>(r + x) + sum_list (take n xs)\<bar> < float_limit" if "n \<le> length xs" for n
    using Cons.prems [of "Suc n"] that by (simp add: algebra_simps)
  ultimately show ?case using Cons.IH [of "r + x"] by (simp add: add.assoc)
qed simp

lemma fold_add_row_throughput:
  "sl_throughput (fold (\<lambda>e. add_row (snd e)) es s)
     = fold (\<lambda>x acc. float_add acc x) (map (\<lambda>e. row_float (snd e) ''Throughput'') es) (sl_throughput s)"
  by (induction es arbitrary: s) (simp_all add: add_row_def)

text \<open>
  The mean of a summary row: the sum of its entries' values over their number, exactly,
  when all values are finite numbers whose sums stay in the range of floats.
\<close>

theorem summary_mean_exact:
  assumes "r \<in> set (summary_rows fmt rows)"
    and "vs = map (\<lambda>e. row_float (snd e) ''Throughput'') (filter (\<lambda>e. fst e = out_key r) (concat (map row_entries rows)))"
    and "vs = map Fin xs" and "\<forall>n\<le>length xs. \<bar>sum_list (take n xs)\<bar> < float_limit"
  shows "xs \<noteq> [] \<and> or_throughput r = fmt (Fin (mean xs))"
proof -
  let ?es = "filter (\<lambda>e. fst e = out_key r) (concat (map row_entries rows))"
  let ?s = "fold (\<lambda>e. add_row (snd e)) ?es empty_slot"
  from assms(1) obtain k s where ks: "(k, s) \<in> set (summary_tally.table (concat (map row_entries rows)))"
    "r = out_row_of fmt k s" by (auto simp: summary_rows_table)
  then have r: "out_key r = k" "r = out_row_of fmt k ?s" by (simp_all add: summary_tally.table_entry)
  have "sl_n ?s = int (length ?es)" "1 \<le> sl_n ?s"
    using summary_tally.table_count [OF ks(1)] ks r by (simp_all add: summary_tally.table_entry)
  then have "?es \<noteq> []" by auto
  with assms(2,3) have ne: "xs \<noteq> []" by auto
  have "sl_throughput ?s = fold (\<lambda>x acc. float_add acc x) (map Fin xs) (Fin 0)"
    using assms(2,3) by (simp add: fold_add_row_throughput empty_slot_def)
  also have "\<dots> = Fin (sum_list xs)"
    using fold_float_add [of xs 0] assms(4) by (simp add: fold_map comp_def)
  finally have t: "sl_throughput ?s = Fin (sum_list xs)" .
  note \<open>sl_n ?s = int (length ?es)\<close>
  moreover have "length ?es = length xs" using assms(2,3) by (metis length_map)
  ultimately have n: "max 1 (sl_n ?s) = int (length xs)" using ne by (cases xs) auto
  have "or_throughput (out_row_of fmt k ?s) = fmt (float_over (sl_throughput ?s) (max 1 (sl_n ?s)))"
    by (cases k) (simp add: out_row_of_def Let_def)
  with r(2) t n ne show ?thesis by (simp add: mean_def)
qed

theorem summary_mean_exact_witness:
  "\<exists>r\<in>set (summary_rows whole_number sample_rows_in). or_throughput r = ''3''"
proof -
  have vals: "map (\<lambda>e. row_float (snd e) ''Throughput'') (concat (map row_entries sample_rows_in)) = [Fin 2, Fin 4]"
    "map fst (concat (map row_entries sample_rows_in)) = [(''none'', [], []), (''none'', [], [])]" by code_simp+
  have "map out_key (summary_rows whole_number sample_rows_in) = [(''none'', [], [])]" by code_simp
  then obtain r where r: "r \<in> set (summary_rows whole_number sample_rows_in)" "out_key r = (''none'', [], [])"
    by auto
  have "filter (\<lambda>e. fst e = out_key r) (concat (map row_entries sample_rows_in)) = concat (map row_entries sample_rows_in)"
  proof (rule filter_True)
    have "fst ` set (concat (map row_entries sample_rows_in)) = {out_key r}"
      using arg_cong [OF vals(2), of set] r(2) by (simp only: set_map list.set insert_absorb2)
    then show "\<forall>e\<in>set (concat (map row_entries sample_rows_in)). fst e = out_key r" by blast
  qed
  then have "or_throughput r = whole_number (Fin (mean [2, 4]))"
    using summary_mean_exact [OF r(1) refl, of "[2, 4]"] vals(1) float_limit_large
    by (simp add: le_Suc_eq numeral_2_eq_2 all_conj_distrib)
  moreover have "whole_number (Fin (mean [2, 4])) = ''3''" by code_simp
  ultimately show ?thesis using r(1) by metis
qed


section \<open>The Markdown table\<close>

text \<open>The separators of a line: its bars that are not escaped by a backslash before them.\<close>

fun bars :: "bool \<Rightarrow> string \<Rightarrow> nat" where
  "bars esc [] = 0"
| "bars esc (c # cs) = (if c = CHR ''|'' \<and> \<not> esc then 1 else 0) + bars (c = CHR 0x5C) cs"

lemma bars_append_space: "bars e (xs @ CHR '' '' # ys) = bars e xs + bars False ys"
  by (induction xs arbitrary: e) auto

lemma bars_escaped: "bars e (replace_char (CHR ''|'') [CHR 0x5C, CHR ''|''] v) = 0"
  by (induction v arbitrary: e) (simp_all add: replace_char_def)

lemma bars_join: "\<forall>v\<in>set vs. \<forall>e. bars e v = 0 \<Longrightarrow> vs \<noteq> [] \<Longrightarrow> bars False (join '' | '' vs @ '' |'') = length vs"
  by (induction "'' | ''" vs rule: join.induct) (simp_all add: bars_append_space)

text \<open>
  The Markdown table of at least one row and column has a head line, a separator line
  and one line per row; a line of a row has a separator around each of its cells and no other,
  whatever the cells hold, so that every row has the columns of the head.
\<close>

theorem markdown_table_shape:
  assumes "rows \<noteq> []" and "columns \<noteq> []"
  shows "length (markdown_lines rows columns) = 2 + length rows
    \<and> (\<forall>i<length rows. markdown_lines rows columns ! (i + 2) = table_line (map (table_cell (rows ! i)) columns)
        \<and> bars False (markdown_lines rows columns ! (i + 2)) = length columns + 1)
    \<and> (list_all (\<lambda>c. CHR ''|'' \<notin> set c) columns \<longrightarrow> bars False (hd (markdown_lines rows columns)) = length columns + 1)"
proof -
  have line: "bars False (table_line vs) = length vs + 1" if "\<forall>v\<in>set vs. \<forall>e. bars e v = 0" "vs \<noteq> []" for vs
    using bars_join [OF that] by (simp add: table_line_def)
  have "bars e v = 0" if "CHR ''|'' \<notin> set v" for e v
    using that by (induction v arbitrary: e) auto
  then have "bars False (table_line columns) = length columns + 1" if "list_all (\<lambda>c. CHR ''|'' \<notin> set c) columns"
    using that assms(2) by (intro line) (auto simp: list_all_iff)
  moreover have "bars False (table_line (map (table_cell row) columns)) = length columns + 1" for row
    using line [of "map (table_cell row) columns"] assms(2) by (simp add: table_cell_def bars_escaped)
  ultimately show ?thesis using assms(1) by (simp add: markdown_lines_def)
qed

theorem markdown_table_shape_witness:
  "bars False (markdown_lines [[(''a'', ''x|y'')]] [''a''] ! 2) = 2"
  using markdown_table_shape [of "[[(''a'', ''x|y'')]]" "[''a'']"] by (auto simp: numeral_2_eq_2)

end
