(* ===== verification/GoogleTrace.thy ===== *)
theory GoogleTrace
  imports PyValue
begin

text \<open>
  \<open>real-time-workloads/google_v3/extract_google_v3.py\<close>: tasks are extracted from the instance
  events of a Google cluster trace. Events are read line by line and collected by task; each
  task with a submission, a schedule and a finish gives a record; the records are sorted by
  arrival, shifted to start at 0 and written as CSV.

  A line is what \<open>json.loads\<close> made of it, \<open>None\<close> if it is no JSON. Quotients of integers are
  exact here; the code rounds them to a float, which for the ranges of priorities gives the same
  integer part. The text of the CPU request, \<open>:.6f\<close>, is the parameter \<open>fmt\<close>.
\<close>

type_synonym 'a gres = "(unit exn, 'a) res"


section \<open>Priorities\<close>

definition cfs_weights :: "(int \<times> int) list" where
  "cfs_weights = [
    (-20, 88761), (-19, 71755), (-18, 56483), (-17, 46273), (-16, 36291),
    (-15, 29154), (-14, 23254), (-13, 18705), (-12, 14949), (-11, 11916),
    (-10, 9548), (-9, 7620), (-8, 6100), (-7, 4904), (-6, 3906),
    (-5, 3121), (-4, 2501), (-3, 1991), (-2, 1586), (-1, 1277),
    (0, 1024), (1, 820), (2, 655), (3, 526), (4, 423),
    (5, 335), (6, 272), (7, 215), (8, 172), (9, 137),
    (10, 110), (11, 87), (12, 70), (13, 56), (14, 45),
    (15, 36), (16, 29), (17, 23), (18, 18), (19, 15)]"

text \<open>\<open>int(a / b)\<close> of integers: the quotient has to be in the range of floats.\<close>

definition int_of_quotient :: "int \<Rightarrow> int \<Rightarrow> int gres" where
  "int_of_quotient a b = (case float_of_rat (of_int a / of_int b) of
     Fin r \<Rightarrow> Inr (trunc r) | _ \<Rightarrow> Inl OverflowErr)"

definition map_priority_to_nice :: "int \<Rightarrow> int gres" where
  "map_priority_to_nice p =
     (if p < 100 then
        bind_res (int_of_quotient (p * 9) 99) (\<lambda>q. Inr (max 10 (min 19 (19 - q))))
      else if p \<le> 115 then
        bind_res (int_of_quotient ((p - 100) * 4) 15) (\<lambda>q. Inr (max 5 (min 9 (9 - q))))
      else if p \<le> 119 then
        bind_res (int_of_quotient ((p - 116) * 3) 3) (\<lambda>q. Inr (max 1 (min 4 (4 - q))))
      else if p \<le> 359 then
        bind_res (int_of_quotient ((p - 120) * 10) 239) (\<lambda>q. Inr (max (-10) (min 0 (- q))))
      else
        bind_res (int_of_quotient ((p - 360) * 9) 140) (\<lambda>q. Inr (max (-20) (min (-11) (-11 - q)))))"


section \<open>Reading the events\<close>

datatype event_kind = Submit | Schedule | Finish

record event =
  ev_time :: int
  ev_priority :: int
  ev_class :: int
  ev_cpus :: json

record task_events =
  te_submit :: "event list"
  te_schedule :: "event list"
  te_finish :: "event list"

type_synonym task_id = "json \<times> json"

definition event_kind_of :: "json \<Rightarrow> event_kind option" where
  "event_kind_of v = (if v = JStr ''0'' then Some Submit else if v = JStr ''1'' then Some Schedule
     else if v = JStr ''4'' then Some Finish else None)"

text \<open>\<open>int(d.get(k, 0))\<close>\<close>

definition get_int :: "json \<Rightarrow> string \<Rightarrow> int gres" where
  "get_int d k = bind_res (py_get d k (JInt 0)) py_int"

definition event_data :: "json \<Rightarrow> int \<Rightarrow> event gres" where
  "event_data d t =
     bind_res (get_int d ''priority'') (\<lambda>p.
     bind_res (get_int d ''scheduling_class'') (\<lambda>c.
     bind_res (bind_res (py_get d ''resource_request'' (JObj [])) (\<lambda>r. py_get r ''cpus'' (JFloat (Fin 0)))) (\<lambda>cpus.
     Inr \<lparr>ev_time = t, ev_priority = p, ev_class = c, ev_cpus = cpus\<rparr>)))"

text \<open>\<open>time_window_ns and etype == SUBMIT and time_ns > time_window_ns\<close>\<close>

definition out_of_window :: "int option \<Rightarrow> event_kind \<Rightarrow> int \<Rightarrow> bool" where
  "out_of_window window kind t =
     (case window of None \<Rightarrow> False | Some w \<Rightarrow> w \<noteq> 0 \<and> kind = Submit \<and> w < t)"

definition read_event :: "int option \<Rightarrow> json \<Rightarrow> (task_id \<times> event_kind \<times> event) option gres" where
  "read_event window d =
     bind_res (py_get d ''type'' JNull) (\<lambda>etype. case event_kind_of etype of
       None \<Rightarrow> Inr None
     | Some kind \<Rightarrow>
         bind_res (get_int d ''time'') (\<lambda>t.
         if out_of_window window kind t then Inr None
         else bind_res (py_get d ''collection_id'' (JStr [])) (\<lambda>cid.
              bind_res (py_get d ''instance_index'' (JStr [])) (\<lambda>idx.
              bind_res (event_data d t) (\<lambda>ev.
              bind_res (hash_key cid) (\<lambda>cid.
              bind_res (hash_key idx) (\<lambda>idx. Inr (Some ((cid, idx), kind, ev)))))))))"

definition no_events :: task_events where
  "no_events = \<lparr>te_submit = [], te_schedule = [], te_finish = []\<rparr>"

definition put_event :: "event_kind \<times> event \<Rightarrow> task_events \<Rightarrow> task_events" where
  "put_event e te = (case e of
     (Submit, ev) \<Rightarrow> te\<lparr>te_submit := te_submit te @ [ev]\<rparr>
   | (Schedule, ev) \<Rightarrow> te\<lparr>te_schedule := te_schedule te @ [ev]\<rparr>
   | (Finish, ev) \<Rightarrow> te\<lparr>te_finish := te_finish te @ [ev]\<rparr>)"

text \<open>\<open>tasks[key][kind].append(event_data)\<close>; a NaN in a key makes it a new one.\<close>

definition nan_id :: "task_id \<Rightarrow> bool" where
  "nan_id k \<longleftrightarrow> JFloat NaN \<in> {fst k, snd k}"

fun add_event :: "task_id \<Rightarrow> event_kind \<times> event \<Rightarrow> (task_id \<times> task_events) list \<Rightarrow> (task_id \<times> task_events) list"
where
  "add_event k e [] = [(k, put_event e no_events)]"
| "add_event k e ((k', te) # tasks) =
     (if k' = k \<and> \<not> nan_id k then (k', put_event e te) # tasks else (k', te) # add_event k e tasks)"

record scan =
  sc_lines :: int
  sc_errors :: int
  sc_tasks :: "(task_id \<times> task_events) list"

definition scan_start :: scan where
  "scan_start = \<lparr>sc_lines = 0, sc_errors = 0, sc_tasks = []\<rparr>"

definition scan_line :: "int option \<Rightarrow> json option \<Rightarrow> scan \<Rightarrow> scan gres" where
  "scan_line window line s =
     (let s = s\<lparr>sc_lines := sc_lines s + 1\<rparr> in case line of
        None \<Rightarrow> Inr (s\<lparr>sc_errors := sc_errors s + 1\<rparr>)
      | Some d \<Rightarrow> bind_res (read_event window d) (\<lambda>r. case r of
          None \<Rightarrow> Inr s
        | Some (k, e) \<Rightarrow> Inr (s\<lparr>sc_tasks := add_event k e (sc_tasks s)\<rparr>)))"

definition scan_files :: "int option \<Rightarrow> json option list list \<Rightarrow> scan gres" where
  "scan_files window files = fold_res (fold_res (scan_line window)) files scan_start"


section \<open>Matching the events of a task\<close>

record trace_record =
  tr_arrival :: int
  tr_burst :: int
  tr_io :: int
  tr_nice :: int
  tr_weight :: int
  tr_class :: int
  tr_cpus :: json

datatype outcome = NoSubmit | NoSchedule | NoFinish | NegativeBurst | ZeroBurst | Complete trace_record

text \<open>\<open>min(events, key=lambda e: e['time'])\<close>, the first of the earliest.\<close>

definition earliest :: "event list \<Rightarrow> event" where
  "earliest evs = arg_min_list ev_time evs"

definition schedule_of :: "event \<Rightarrow> event list \<Rightarrow> event" where
  "schedule_of submit_ev evs =
     (let valid = filter (\<lambda>e. ev_time submit_ev \<le> ev_time e) evs
      in earliest (if valid = [] then evs else valid))"

definition match_task :: "task_events \<Rightarrow> outcome gres" where
  "match_task te =
     (if te_submit te = [] then Inr NoSubmit
      else if te_schedule te = [] then Inr NoSchedule
      else if te_finish te = [] then Inr NoFinish
      else let submit_ev = earliest (te_submit te);
               schedule_ev = schedule_of submit_ev (te_schedule te);
               valid = filter (\<lambda>e. ev_time schedule_ev \<le> ev_time e) (te_finish te)
           in if valid = [] then Inr NoFinish
              else let finish_ev = earliest valid;
                       arrival_us = ev_time submit_ev div 1000;
                       cpu_burst_us = (ev_time finish_ev - ev_time schedule_ev) div 1000
                   in if cpu_burst_us < 0 then Inr NegativeBurst
                      else if cpu_burst_us = 0 then Inr ZeroBurst
                      else bind_res (map_priority_to_nice (ev_priority submit_ev)) (\<lambda>nice.
                        case map_of cfs_weights nice of
                          None \<Rightarrow> Inl (KeyErr (dec_int nice))
                        | Some weight \<Rightarrow> Inr (Complete \<lparr>tr_arrival = arrival_us, tr_burst = cpu_burst_us,
                            tr_io = 0, tr_nice = nice, tr_weight = weight,
                            tr_class = ev_class submit_ev, tr_cpus = ev_cpus submit_ev\<rparr>)))"

record match_stats =
  ms_complete :: int
  ms_no_submit :: int
  ms_no_schedule :: int
  ms_no_finish :: int
  ms_negative_burst :: int
  ms_zero_burst :: int

definition no_stats :: match_stats where
  "no_stats = \<lparr>ms_complete = 0, ms_no_submit = 0, ms_no_schedule = 0, ms_no_finish = 0,
     ms_negative_burst = 0, ms_zero_burst = 0\<rparr>"

fun count_outcome :: "outcome \<Rightarrow> match_stats \<Rightarrow> match_stats" where
  "count_outcome NoSubmit m = m\<lparr>ms_no_submit := ms_no_submit m + 1\<rparr>"
| "count_outcome NoSchedule m = m\<lparr>ms_no_schedule := ms_no_schedule m + 1\<rparr>"
| "count_outcome NoFinish m = m\<lparr>ms_no_finish := ms_no_finish m + 1\<rparr>"
| "count_outcome NegativeBurst m = m\<lparr>ms_negative_burst := ms_negative_burst m + 1\<rparr>"
| "count_outcome ZeroBurst m = m\<lparr>ms_zero_burst := ms_zero_burst m + 1\<rparr>"
| "count_outcome (Complete _) m = m\<lparr>ms_complete := ms_complete m + 1\<rparr>"

fun outcome_record :: "outcome \<Rightarrow> trace_record list" where
  "outcome_record (Complete r) = [r]"
| "outcome_record _ = []"

text \<open>\<open>max_tasks and stats['complete'] >= max_tasks\<close>, looked at after a complete task only.\<close>

definition reached :: "int option \<Rightarrow> match_stats \<Rightarrow> bool" where
  "reached max_tasks m = (case max_tasks of None \<Rightarrow> False | Some n \<Rightarrow> n \<noteq> 0 \<and> n \<le> ms_complete m)"

fun match_tasks ::
  "int option \<Rightarrow> (task_id \<times> task_events) list \<Rightarrow> trace_record list \<times> match_stats
    \<Rightarrow> (trace_record list \<times> match_stats) gres"
where
  "match_tasks max_tasks [] s = Inr s"
| "match_tasks max_tasks ((k, te) # tasks) (records, m) =
     bind_res (match_task te) (\<lambda>out.
       let s = (records @ outcome_record out, count_outcome out m)
       in if outcome_record out \<noteq> [] \<and> reached max_tasks (snd s) then Inr s
          else match_tasks max_tasks tasks s)"

definition extract_tasks ::
  "json option list list \<Rightarrow> int option \<Rightarrow> int option \<Rightarrow> (trace_record list \<times> match_stats) gres"
where
  "extract_tasks files max_tasks window =
     bind_res (scan_files window files) (\<lambda>s.
     bind_res (match_tasks max_tasks (sc_tasks s) ([], no_stats)) (\<lambda>(records, m).
     Inr (sort_key tr_arrival records, m)))"


section \<open>Output\<close>

definition normalize_arrival_times :: "trace_record list \<Rightarrow> trace_record list" where
  "normalize_arrival_times records = (case records of
     [] \<Rightarrow> []
   | r # _ \<Rightarrow> map (\<lambda>x. x\<lparr>tr_arrival := tr_arrival x - tr_arrival r\<rparr>) records)"

definition csv_header :: string where
  "csv_header = ''arrival_time_us,cpu_burst_duration_us,io_burst_duration_us,nice,weight,scheduling_class,cpu_request''"

definition csv_line :: "(json \<Rightarrow> string gres) \<Rightarrow> trace_record \<Rightarrow> string gres" where
  "csv_line fmt r = bind_res (fmt (tr_cpus r)) (\<lambda>cpus.
     Inr (join '','' [dec_int (tr_arrival r), dec_int (tr_burst r), dec_int (tr_io r), dec_int (tr_nice r),
       dec_int (tr_weight r), dec_int (tr_class r), cpus]))"

definition write_csv :: "(json \<Rightarrow> string gres) \<Rightarrow> trace_record list \<Rightarrow> string list gres" where
  "write_csv fmt records = bind_res (map_res (csv_line fmt) records) (\<lambda>ls. Inr (csv_header # ls))"

section \<open>Nice values\<close>

lemma trunc_mono: "r \<le> s \<Longrightarrow> trunc r \<le> trunc s"
proof -
  assume "r \<le> s"
  moreover have "trunc r \<le> trunc s" if "r < 0" "0 \<le> s"
  proof -
    from that have "trunc r \<le> 0" "0 \<le> trunc s" by (simp_all add: trunc_def)
    then show ?thesis by simp
  qed
  ultimately show ?thesis
    by (cases "0 \<le> r"; cases "0 \<le> s") (auto simp: trunc_def floor_mono ceiling_mono)
qed

lemma int_of_quotient_Inr: "int_of_quotient a b = Inr q \<Longrightarrow> q = trunc (of_int a / of_int b)"
  by (auto simp: int_of_quotient_def float_of_rat_def split: if_splits)

lemma quotient_mono:
  "int_of_quotient a c = Inr q \<Longrightarrow> int_of_quotient b c = Inr r \<Longrightarrow> a \<le> b \<Longrightarrow> 0 < c \<Longrightarrow> q \<le> r"
  by (auto dest!: int_of_quotient_Inr intro!: trunc_mono divide_right_mono)

lemma int_of_quotient_small:
  "\<bar>a\<bar> < 1000000000000000 \<Longrightarrow> 1 \<le> b \<Longrightarrow> \<exists>q. int_of_quotient a b = Inr q"
proof -
  assume a: "\<bar>a\<bar> < 1000000000000000" and b: "1 \<le> b"
  have "\<bar>of_int a :: rat\<bar> / of_int b \<le> \<bar>of_int a\<bar> / 1"
    using b by (intro divide_left_mono) auto
  also have "\<dots> < of_int 1000000000000000"
    using a by (simp only: div_by_1 of_int_abs [symmetric] of_int_less_iff)
  finally have "\<bar>of_int a / of_int b :: rat\<bar> < 1000000000000000"
    using b by (simp add: abs_divide)
  then show ?thesis by (simp add: int_of_quotient_def float_of_rat_small)
qed

definition tier :: "int \<Rightarrow> int \<times> int" where
  "tier p = (if p < 100 then (10, 19) else if p \<le> 115 then (5, 9) else if p \<le> 119 then (1, 4)
     else if p \<le> 359 then (-10, 0) else (-20, -11))"

lemma nice_in_tier: "map_priority_to_nice p = Inr n \<Longrightarrow> fst (tier p) \<le> n \<and> n \<le> snd (tier p)"
  by (auto simp: map_priority_to_nice_def tier_def bind_res_Inr split: if_splits)

lemma tiers_ordered:
  "p \<le> q \<Longrightarrow> tier p = tier q \<or> snd (tier q) < fst (tier p)"
  by (auto simp: tier_def)

lemma same_tier:
  "tier p = tier q \<Longrightarrow> (p < 100) = (q < 100) \<and> (p \<le> 115) = (q \<le> 115) \<and> (p \<le> 119) = (q \<le> 119) \<and> (p \<le> 359) = (q \<le> 359)"
  by (auto simp: tier_def split: if_splits)

lemma clamp_mono: "q \<le> (r::int) \<Longrightarrow> max a (min b (c - r)) \<le> max a (min b (c - q))"
  by (simp add: max_def min_def)

lemma nice_antitone_tier:
  assumes "map_priority_to_nice p = Inr m" "map_priority_to_nice q = Inr n" "p \<le> q" "tier p = tier q"
  shows "n \<le> m"
proof -
  from same_tier [OF assms(4)] assms(1,2,3) show ?thesis
    unfolding map_priority_to_nice_def
    by (cases "q < 100"; cases "q \<le> 115"; cases "q \<le> 119"; cases "q \<le> 359"; clarsimp simp: bind_res_Inr)
      (drule (1) quotient_mono; simp add: max_def min_def)+
qed

lemma cfs_weights_total: "-20 \<le> n \<Longrightarrow> n \<le> 19 \<Longrightarrow> \<exists>w. map_of cfs_weights n = Some w"
proof -
  assume "-20 \<le> n" "n \<le> 19"
  then have "n \<in> set [-20..19]" by (simp only: set_upto atLeastAtMost_iff)
  moreover have "list_all (\<lambda>n. map_of cfs_weights n \<noteq> None) [-20..19]" by code_simp
  ultimately show ?thesis by (auto simp: list_all_iff)
qed

lemma cfs_weights_antitone:
  assumes "map_of cfs_weights m = Some v" "map_of cfs_weights n = Some w" "n \<le> m"
  shows "v \<le> w"
proof -
  have "list_all (\<lambda>a. list_all (\<lambda>b. fst b \<le> fst a \<longrightarrow> snd a \<le> snd b) cfs_weights) cfs_weights" by code_simp
  with map_of_SomeD [OF assms(1)] map_of_SomeD [OF assms(2)] assms(3) show ?thesis
    by (fastforce simp: list_all_iff)
qed

lemma nice_range: "map_priority_to_nice q = Inr n \<Longrightarrow> -20 \<le> n \<and> n \<le> 19"
  by (drule nice_in_tier) (auto simp: tier_def split: if_splits)

lemma nice_total:
  assumes "\<bar>q\<bar> < 10000000000000"
  shows "\<exists>n. map_priority_to_nice q = Inr n"
proof -
  have "\<exists>x. int_of_quotient ((q - a) * b) c = Inr x" if "0 \<le> a" "a \<le> 360" "1 \<le> b" "b \<le> 10" "1 \<le> c" for a b c
  proof (rule int_of_quotient_small [OF _ that(5)])
    have "\<bar>(q - a) * b\<bar> \<le> (10000000000000 + 360) * 10"
      unfolding abs_mult by (rule mult_mono) (use that assms in auto)
    then show "\<bar>(q - a) * b\<bar> < 1000000000000000" by simp
  qed
  from this [of 0 9 99] this [of 100 4 15] this [of 116 3 3] this [of 120 10 239] this [of 360 9 140]
  show ?thesis by (auto simp: map_priority_to_nice_def bind_res_Inr)
qed

text \<open>
  C26. The nice value of a priority lies in the range documented for its tier and has a weight
  in the table; of two priorities the higher one never gets the higher nice value nor the lower
  weight; and every priority of fewer than 14 digits has a nice value.
\<close>

theorem nice_of_priority:
  assumes "map_priority_to_nice p = Inr m"
  shows "fst (tier p) \<le> m \<and> m \<le> snd (tier p) \<and> -20 \<le> m \<and> m \<le> 19
    \<and> (\<exists>v. map_of cfs_weights m = Some v)
    \<and> (\<forall>q n. p \<le> q \<longrightarrow> map_priority_to_nice q = Inr n
        \<longrightarrow> n \<le> m \<and> the (map_of cfs_weights m) \<le> the (map_of cfs_weights n))
    \<and> (\<forall>q. \<bar>q\<bar> < 10000000000000 \<longrightarrow> (\<exists>n. map_priority_to_nice q = Inr n))"
proof (intro conjI allI impI)
  from nice_in_tier [OF assms] nice_range [OF assms]
  show "fst (tier p) \<le> m" "m \<le> snd (tier p)" "-20 \<le> m" "m \<le> 19" "\<exists>v. map_of cfs_weights m = Some v"
    by (auto intro: cfs_weights_total)
  show le: "n \<le> m" if "p \<le> q" "map_priority_to_nice q = Inr n" for q n
    using tiers_ordered [OF that(1)] nice_antitone_tier [OF assms that(2,1)] nice_in_tier [OF assms]
      nice_in_tier [OF that(2)] by auto
  show "the (map_of cfs_weights m) \<le> the (map_of cfs_weights n)" if pq: "p \<le> q" "map_priority_to_nice q = Inr n" for q n
  proof -
    obtain v w where "map_of cfs_weights m = Some v" "map_of cfs_weights n = Some w"
      using cfs_weights_total nice_range [OF assms] nice_range [OF pq(2)] by meson
    with cfs_weights_antitone le [OF pq] show ?thesis by simp
  qed
  show "\<exists>n. map_priority_to_nice q = Inr n" if "\<bar>q\<bar> < 10000000000000" for q
    using that by (rule nice_total)
qed

theorem nice_of_priority_witness:
  "map_priority_to_nice 103 = Inr 9 \<and> (\<exists>v. map_of cfs_weights 9 = Some v)
   \<and> map_priority_to_nice 0 = Inr 19 \<and> map_priority_to_nice 360 = Inr (-11) \<and> map_priority_to_nice 500 = Inr (-20)"
proof -
  have *: "map_priority_to_nice 103 = Inr 9" by code_simp
  have "map_priority_to_nice 0 = Inr 19" "map_priority_to_nice 360 = Inr (-11)" "map_priority_to_nice 500 = Inr (-20)"
    by code_simp+
  with * nice_of_priority [OF *] show ?thesis by blast
qed


section \<open>The events of a task\<close>

lemma earliest_in: "evs \<noteq> [] \<Longrightarrow> earliest evs \<in> set evs"
  by (simp add: earliest_def arg_min_list_in)

lemma earliest_le: "e \<in> set evs \<Longrightarrow> ev_time (earliest evs) \<le> ev_time e"
proof -
  assume e: "e \<in> set evs"
  then have "evs \<noteq> []" by auto
  then have "ev_time (earliest evs) = Min (ev_time ` set evs)"
    by (simp add: earliest_def f_arg_min_list_f)
  with e show ?thesis by simp
qed

text \<open>
  C8. A complete task gives a record whose arrival is that of its earliest submission and whose
  burst, at least one microsecond, runs from the earliest schedule that is not before the
  submission (the earliest of all if there is none) to the earliest finish that is not before
  that schedule; and no task is ever counted as having a negative burst.
\<close>

theorem match_task_complete:
  assumes "match_task te = Inr out"
  shows "out \<noteq> NegativeBurst \<and> (\<forall>r. out = Complete r \<longrightarrow> (\<exists>s\<in>set (te_submit te). \<exists>c\<in>set (te_schedule te). \<exists>f\<in>set (te_finish te).
     (\<forall>s'\<in>set (te_submit te). ev_time s \<le> ev_time s')
     \<and> (if \<forall>c'\<in>set (te_schedule te). ev_time c' < ev_time s
        then \<forall>c'\<in>set (te_schedule te). ev_time c \<le> ev_time c'
        else ev_time s \<le> ev_time c \<and> (\<forall>c'\<in>set (te_schedule te). ev_time s \<le> ev_time c' \<longrightarrow> ev_time c \<le> ev_time c'))
     \<and> ev_time c \<le> ev_time f \<and> (\<forall>f'\<in>set (te_finish te). ev_time c \<le> ev_time f' \<longrightarrow> ev_time f \<le> ev_time f')
     \<and> tr_arrival r = ev_time s div 1000 \<and> tr_burst r = (ev_time f - ev_time c) div 1000 \<and> 1 \<le> tr_burst r
     \<and> tr_io r = 0 \<and> map_priority_to_nice (ev_priority s) = Inr (tr_nice r)
     \<and> map_of cfs_weights (tr_nice r) = Some (tr_weight r)))"
proof -
  let ?s = "earliest (te_submit te)"
  let ?vc = "filter (\<lambda>e. ev_time ?s \<le> ev_time e) (te_schedule te)"
  let ?c = "schedule_of ?s (te_schedule te)"
  let ?vf = "filter (\<lambda>e. ev_time ?c \<le> ev_time e) (te_finish te)"
  let ?f = "earliest ?vf"
  have f: "?f \<in> set (te_finish te)" "ev_time ?c \<le> ev_time ?f" if "?vf \<noteq> []"
    using earliest_in [OF that] by auto
  have f_min: "ev_time ?f \<le> ev_time f'" if "f' \<in> set (te_finish te)" "ev_time ?c \<le> ev_time f'" for f'
    using earliest_le [of f' ?vf] that by simp
  have c: "?c \<in> set (te_schedule te)" if "te_schedule te \<noteq> []"
    using earliest_in [of ?vc] earliest_in [OF that] by (auto simp: schedule_of_def Let_def)
  have c_spec: "if \<forall>c'\<in>set (te_schedule te). ev_time c' < ev_time ?s
        then \<forall>c'\<in>set (te_schedule te). ev_time ?c \<le> ev_time c'
        else ev_time ?s \<le> ev_time ?c \<and> (\<forall>c'\<in>set (te_schedule te). ev_time ?s \<le> ev_time c' \<longrightarrow> ev_time ?c \<le> ev_time c')"
  proof (cases "?vc = []")
    case True
    then show ?thesis
      by (auto simp: schedule_of_def filter_empty_conv not_le earliest_le)
  next
    case False
    then have "ev_time ?s \<le> ev_time ?c" "\<not> (\<forall>c'\<in>set (te_schedule te). ev_time c' < ev_time ?s)"
      using earliest_in [OF False] by (auto simp: schedule_of_def filter_empty_conv not_le)
    moreover have "ev_time ?c \<le> ev_time c'" if "c' \<in> set (te_schedule te)" "ev_time ?s \<le> ev_time c'" for c'
      using False earliest_le [of c' ?vc] that by (simp add: schedule_of_def)
    ultimately show ?thesis by (subst if_not_P) blast+
  qed
  have neg: "\<not> (ev_time ?f - ev_time ?c) div 1000 < 0" if "?vf \<noteq> []"
    using f [OF that] by simp
  from assms neg have "out \<noteq> NegativeBurst"
    by (auto simp: match_task_def Let_def bind_res_Inr split: if_splits option.splits)
  moreover have "te_submit te \<noteq> [] \<and> te_schedule te \<noteq> [] \<and> ?vf \<noteq> [] \<and> tr_arrival r = ev_time ?s div 1000
      \<and> tr_burst r = (ev_time ?f - ev_time ?c) div 1000 \<and> 1 \<le> tr_burst r
      \<and> tr_io r = 0 \<and> map_priority_to_nice (ev_priority ?s) = Inr (tr_nice r)
      \<and> map_of cfs_weights (tr_nice r) = Some (tr_weight r)" if "out = Complete r" for r
    using assms that by (auto simp: match_task_def Let_def bind_res_Inr split: if_splits option.splits)
  moreover have "?s \<in> set (te_submit te)" "\<forall>s'\<in>set (te_submit te). ev_time ?s \<le> ev_time s'" if "te_submit te \<noteq> []"
    using that by (simp_all add: earliest_in earliest_le)
  ultimately show ?thesis using c c_spec f f_min by blast
qed

definition sample_events :: task_events where
  "sample_events = \<lparr>te_submit = [\<lparr>ev_time = 1000, ev_priority = 103, ev_class = 0, ev_cpus = JNull\<rparr>],
     te_schedule = [\<lparr>ev_time = 0, ev_priority = 103, ev_class = 0, ev_cpus = JNull\<rparr>,
       \<lparr>ev_time = 2000, ev_priority = 103, ev_class = 0, ev_cpus = JNull\<rparr>],
     te_finish = [\<lparr>ev_time = 9000, ev_priority = 103, ev_class = 0, ev_cpus = JNull\<rparr>]\<rparr>"

definition sample_record :: trace_record where
  "sample_record = \<lparr>tr_arrival = 1, tr_burst = 7, tr_io = 0, tr_nice = 9, tr_weight = 137,
     tr_class = 0, tr_cpus = JNull\<rparr>"

theorem match_task_complete_witness:
  "match_task sample_events = Inr (Complete sample_record) \<and> map_of cfs_weights 9 = Some 137"
proof -
  have *: "match_task sample_events = Inr (Complete sample_record)" by code_simp
  from match_task_complete [OF *] have "map_of cfs_weights (tr_nice sample_record) = Some (tr_weight sample_record)"
    by blast
  with * show ?thesis by (simp add: sample_record_def)
qed


section \<open>The statistics\<close>

definition stats_total :: "match_stats \<Rightarrow> int" where
  "stats_total m = ms_complete m + ms_no_submit m + ms_no_schedule m + ms_no_finish m
     + ms_negative_burst m + ms_zero_burst m"

lemma match_task_not_negative: "match_task te \<noteq> Inr NegativeBurst"
proof
  assume neg: "match_task te = Inr NegativeBurst"
  let ?c = "schedule_of (earliest (te_submit te)) (te_schedule te)"
  let ?vf = "filter (\<lambda>e. ev_time ?c \<le> ev_time e) (te_finish te)"
  from neg have "?vf \<noteq> []" "(ev_time (earliest ?vf) - ev_time ?c) div 1000 < 0"
    by (auto simp: match_task_def Let_def bind_res_Inr split: if_splits option.splits)
  with earliest_in [of ?vf] show False by auto
qed

definition counted :: "trace_record list \<times> match_stats \<Rightarrow> bool" where
  "counted s \<longleftrightarrow> ms_complete (snd s) = int (length (fst s)) \<and> ms_negative_burst (snd s) = 0"

lemma count_step:
  assumes "match_task te = Inr out" and "counted (records, m)"
  shows "counted (records @ outcome_record out, count_outcome out m)
    \<and> stats_total (count_outcome out m) = stats_total m + 1
    \<and> ms_complete (count_outcome out m) = ms_complete m + int (length (outcome_record out))"
  using assms match_task_not_negative [of te]
  by (cases out) (auto simp: counted_def stats_total_def)

lemma match_tasks_counts:
  "match_tasks mx tasks s = Inr t \<Longrightarrow> counted s \<Longrightarrow>
     counted t \<and> stats_total (snd s) \<le> stats_total (snd t)
     \<and> stats_total (snd t) \<le> stats_total (snd s) + int (length tasks)
     \<and> (\<not> reached mx (snd t) \<longrightarrow> stats_total (snd t) = stats_total (snd s) + int (length tasks))
     \<and> (\<forall>n. mx = Some n \<longrightarrow> 0 < n \<longrightarrow> ms_complete (snd s) < n \<longrightarrow> ms_complete (snd t) \<le> n)"
proof (induction mx tasks s rule: match_tasks.induct)
  case (2 mx k te tasks records m)
  from 2(2) obtain out where out: "match_task te = Inr out" by (auto simp: bind_res_Inr Let_def)
  let ?s = "(records @ outcome_record out, count_outcome out m)"
  note step = count_step [OF out 2(3)]
  have one: "length (outcome_record out) \<le> 1" by (cases out) simp_all
  have le: "ms_complete (snd ?s) \<le> n" if "ms_complete m < n" for n
    using that step one by auto
  show ?case
  proof (cases "outcome_record out \<noteq> [] \<and> reached mx (snd ?s)")
    case True
    then have "t = ?s" using 2(2) out by (simp add: Let_def)
    with True step le show ?thesis by auto
  next
    case False
    then have t: "match_tasks mx tasks ?s = Inr t"
      using 2(2) by (simp only: match_tasks.simps out bind_res_simps Let_def if_not_P [OF False] if_False)
    have "ms_complete (snd ?s) < n" if "mx = Some n" "0 < n" "ms_complete m < n" for n
      using False step that by (auto simp: reached_def)
    with 2(1) [OF out refl False t] step show ?thesis by auto
  qed
qed simp

lemma match_tasks_records:
  "match_tasks mx tasks s = Inr t \<Longrightarrow> r \<in> set (fst t) \<Longrightarrow>
     r \<in> set (fst s) \<or> (\<exists>k te. (k, te) \<in> set tasks \<and> match_task te = Inr (Complete r))"
proof (induction mx tasks s rule: match_tasks.induct)
  case (2 mx k te tasks records m)
  from 2(2) obtain out where out: "match_task te = Inr out" by (auto simp: bind_res_Inr Let_def)
  let ?s = "(records @ outcome_record out, count_outcome out m)"
  have r: "r \<in> set (fst ?s) \<Longrightarrow> r \<in> set records \<or> match_task te = Inr (Complete r)"
    using out by (cases out) auto
  show ?case
  proof (cases "outcome_record out \<noteq> [] \<and> reached mx (snd ?s)")
    case True
    then have "t = ?s" using 2(2) out by (simp add: Let_def)
    with r 2(3) show ?thesis by (metis fst_conv list.set_intros(1))
  next
    case False
    then have t: "match_tasks mx tasks ?s = Inr t"
      using 2(2) by (simp only: match_tasks.simps out bind_res_simps Let_def if_not_P [OF False] if_False)
    from 2(1) [OF out refl False t 2(3)] r show ?thesis by (metis fst_conv list.set_intros)
  qed
qed simp

lemma extract_tasks_Inr:
  assumes "extract_tasks files mx window = Inr (records, m)"
  obtains s rs where "scan_files window files = Inr s" "match_tasks mx (sc_tasks s) ([], no_stats) = Inr (rs, m)"
    "records = sort_key tr_arrival rs"
  using assms by (auto simp: extract_tasks_def bind_res_Inr)

lemma no_stats_start:
  "counted ([], no_stats)" "stats_total no_stats = 0" "ms_complete no_stats = 0"
  by (simp_all add: counted_def no_stats_def stats_total_def)

lemma extract_limit:
  assumes "extract_tasks files (Some n) window = Inr (records, m)" and "0 < n"
  shows "int (length records) \<le> n"
  using assms(1)
proof (rule extract_tasks_Inr)
  fix s rs assume *: "match_tasks (Some n) (sc_tasks s) ([], no_stats) = Inr (rs, m)" "records = sort_key tr_arrival rs"
  from match_tasks_counts [OF *(1) no_stats_start(1)] * assms(2) no_stats_start(3) show ?thesis
    by (simp add: counted_def)
qed

text \<open>
  C9. An extraction accounts for its tasks: the records are as many as the complete tasks and
  sorted by arrival, none has a negative burst; the counts add up to the number of tasks unless
  the limit was reached, which is never exceeded; and every record is that of a task.
\<close>

theorem extract_tasks_accounts:
  assumes "extract_tasks files max_tasks window = Inr (records, m)"
  shows "\<exists>s. scan_files window files = Inr s
    \<and> ms_complete m = int (length records) \<and> ms_negative_burst m = 0
    \<and> sorted (map tr_arrival records)
    \<and> stats_total m \<le> int (length (sc_tasks s))
    \<and> (\<not> reached max_tasks m \<longrightarrow> stats_total m = int (length (sc_tasks s)))
    \<and> (\<forall>n. max_tasks = Some n \<longrightarrow> 0 < n \<longrightarrow> int (length records) \<le> n)
    \<and> (\<forall>r\<in>set records. \<exists>k te. (k, te) \<in> set (sc_tasks s) \<and> match_task te = Inr (Complete r))"
proof -
  from assms obtain s rs where s: "scan_files window files = Inr s"
    "match_tasks max_tasks (sc_tasks s) ([], no_stats) = Inr (rs, m)" "records = sort_key tr_arrival rs"
    by (rule extract_tasks_Inr)
  from no_stats_start match_tasks_counts [OF s(2)] match_tasks_records [OF s(2)] s(1,3)
  show ?thesis by (intro exI [of _ s]) (auto simp: counted_def)
qed

definition sample_line :: "string \<Rightarrow> int \<Rightarrow> json option" where
  "sample_line etype t = Some (JObj [(''type'', JStr etype), (''time'', JInt t), (''collection_id'', JInt 7)])"

definition sample_files :: "json option list list" where
  "sample_files = [[sample_line ''0'' 1000, sample_line ''1'' 2000, None], [sample_line ''4'' 9000]]"

theorem extract_tasks_accounts_witness:
  "\<exists>records m. extract_tasks sample_files (Some 1) None = Inr (records, m) \<and> int (length records) \<le> 1"
proof -
  have "(case extract_tasks sample_files (Some 1) None of Inr _ \<Rightarrow> True | Inl _ \<Rightarrow> False)" by code_simp
  then obtain records m where *: "extract_tasks sample_files (Some 1) None = Inr (records, m)"
    by (auto split: sum.splits)
  from extract_tasks_accounts [OF *] * show ?thesis by auto
qed

section \<open>The limit\<close>

lemma match_tasks_prefix:
  "match_tasks None tasks (rs0, m0) = Inr (rs, m) \<Longrightarrow> \<exists>rs'. rs = rs0 @ rs'"
proof (induction tasks arbitrary: rs0 m0)
  case (Cons g tasks)
  obtain k te where g: "g = (k, te)" by (cases g)
  from Cons.prems obtain out where "match_tasks None tasks (rs0 @ outcome_record out, count_outcome out m0) = Inr (rs, m)"
    by (auto simp: g bind_res_Inr Let_def reached_def)
  from Cons.IH [OF this] show ?case by auto
qed simp

lemma match_tasks_limit:
  "match_tasks None tasks (rs0, m0) = Inr (rs, m) \<Longrightarrow> ms_complete m0 = int (length rs0) \<Longrightarrow> length rs0 < n
     \<Longrightarrow> \<exists>m'. match_tasks (Some (int n)) tasks (rs0, m0) = Inr (take n rs, m')"
proof (induction tasks arbitrary: rs0 m0)
  case (Cons g tasks)
  obtain k te where g: "g = (k, te)" by (cases g)
  from Cons.prems(1) obtain out where out: "match_task te = Inr out"
    "match_tasks None tasks (rs0 @ outcome_record out, count_outcome out m0) = Inr (rs, m)"
    by (auto simp: g bind_res_Inr Let_def reached_def)
  from match_tasks_prefix [OF out(2)] obtain rs' where rs': "rs = (rs0 @ outcome_record out) @ rs'" by blast
  have count: "ms_complete (count_outcome out m0) = int (length (rs0 @ outcome_record out))"
    using Cons.prems(2) by (cases out) auto
  show ?case
  proof (cases "outcome_record out \<noteq> [] \<and> n \<le> length (rs0 @ outcome_record out)")
    case True
    with Cons.prems(3) have "n = length (rs0 @ outcome_record out)" by (cases out) auto
    then have "take n rs = rs0 @ outcome_record out" by (simp add: rs')
    with True Cons.prems(3) show ?thesis by (simp add: g out(1) Let_def reached_def count)
  next
    case False
    then have "length (rs0 @ outcome_record out) < n" using Cons.prems(3) by auto
    from Cons.IH [OF out(2) count this] False show ?thesis
      by (auto simp: g out(1) Let_def reached_def count)
  qed
qed simp

text \<open>
  With a limit of \<open>n\<close> tasks the matching gives the first \<open>n\<close> records of the
  matching without a limit.
\<close>

theorem max_tasks_prefix:
  assumes "match_tasks None tasks ([], no_stats) = Inr (rs, m)" and "0 < n"
  shows "\<exists>m'. match_tasks (Some (int n)) tasks ([], no_stats) = Inr (take n rs, m')"
  using match_tasks_limit [OF assms(1)] assms(2) by (simp add: no_stats_def)

theorem max_tasks_prefix_witness:
  "\<exists>m'. match_tasks (Some 1) [((JNull, JNull), sample_events), ((JInt 1, JNull), sample_events)] ([], no_stats)
     = Inr ([sample_record], m')"
proof -
  have "map_option fst (case match_tasks None [((JNull, JNull), sample_events), ((JInt 1, JNull), sample_events)] ([], no_stats) of
      Inr s \<Rightarrow> Some s | Inl _ \<Rightarrow> None) = Some [sample_record, sample_record]" by code_simp
  then obtain m where "match_tasks None [((JNull, JNull), sample_events), ((JInt 1, JNull), sample_events)] ([], no_stats)
      = Inr ([sample_record, sample_record], m)" by (auto split: sum.splits)
  from max_tasks_prefix [OF this, of 1] show ?thesis by simp
qed


section \<open>Reading\<close>

text \<open>What the loop over the lines collects: the events grouped by task.\<close>

definition events_of :: "(task_id \<times> event_kind \<times> event) list \<Rightarrow> task_events" where
  "events_of es = fold (\<lambda>e. put_event (snd e)) es no_events"

definition group_events :: "(task_id \<times> event_kind \<times> event) list \<Rightarrow> (task_id \<times> task_events) list" where
  "group_events es = map (apsnd events_of) (group_by nan_id fst es)"

lemma add_event_group:
  "fst e = k \<Longrightarrow> map (apsnd events_of) (add_group nan_id k e gs) = add_event k (snd e) (map (apsnd events_of) gs)"
  by (induction gs) (auto simp: events_of_def)

lemma group_events_snoc: "group_events (es @ [e]) = add_event (fst e) (snd e) (group_events es)"
  by (simp add: group_events_def group_by_def add_event_group)

fun somes :: "'a option list \<Rightarrow> 'a list" where
  "somes [] = []"
| "somes (None # xs) = somes xs"
| "somes (Some x # xs) = x # somes xs"

lemma somes_append [simp]: "somes (xs @ ys) = somes xs @ somes ys"
  by (induction xs rule: somes.induct) auto

lemma fold_res_concat: "fold_res (fold_res f) xss s = fold_res f (concat xss) s"
proof (induction xss arbitrary: s)
  case (Cons xs xss)
  then have "fold_res (fold_res f) xss = fold_res f (concat xss)" by (rule ext)
  then show ?case by (simp add: fold_res_append)
qed simp

lemma scan_line_cases:
  "scan_line window None s = Inr (s\<lparr>sc_lines := sc_lines s + 1, sc_errors := sc_errors s + 1\<rparr>)"
  "scan_line window (Some d) s = bind_res (read_event window d) (\<lambda>r. Inr (s\<lparr>sc_lines := sc_lines s + 1,
     sc_tasks := (case r of None \<Rightarrow> sc_tasks s | Some (k, e) \<Rightarrow> add_event k e (sc_tasks s))\<rparr>))"
  by (auto simp: scan_line_def Let_def intro!: bind_res_cong split: option.splits)

lemma group_events_somes:
  "group_events (somes (rs @ [r])) =
     (case r of None \<Rightarrow> group_events (somes rs) | Some (k, e) \<Rightarrow> add_event k e (group_events (somes rs)))"
  by (cases r) (auto simp: group_events_snoc)

lemma scan_lines_spec:
  "fold_res (scan_line window) ls scan_start = Inr s \<longleftrightarrow>
     (\<exists>rs. map_res (read_event window) (somes ls) = Inr rs
       \<and> s = \<lparr>sc_lines = int (length ls), sc_errors = int (length (filter Option.is_none ls)),
              sc_tasks = group_events (somes rs)\<rparr>)"
proof (induction ls arbitrary: s rule: rev_induct)
  case Nil
  then show ?case by (auto simp: scan_start_def group_events_def group_by_def)
next
  case (snoc l ls)
  have map_snoc: "map_res f (xs @ [x]) = bind_res (map_res f xs) (\<lambda>ys. bind_res (f x) (\<lambda>y. Inr (ys @ [y])))"
    for f :: "json \<Rightarrow> (task_id \<times> event_kind \<times> event) option gres" and xs x
    by (induction xs) (auto simp: bind_res_assoc intro!: bind_res_cong)
  show ?case
  proof (cases l)
    case None
    then show ?thesis
      by (auto simp: fold_res_append bind_res_Inr snoc scan_line_cases)
  next
    case (Some d)
    moreover have "somes (ls @ [Some d]) = somes ls @ [d]" by simp
    ultimately show ?thesis
      by (auto simp: fold_res_append bind_res_Inr snoc scan_line_cases map_snoc group_events_somes
          simp del: somes_append cong: option.case_cong)
  qed
qed


section \<open>Well-typed traces\<close>

definition int_field :: "(string \<times> json) list \<Rightarrow> string \<Rightarrow> bool" where
  "int_field kvs k = (case map_of kvs k of
     None \<Rightarrow> True | Some (JInt n) \<Rightarrow> \<bar>n\<bar> < 10000000000000
   | Some (JStr s) \<Rightarrow> (case parse_int s of None \<Rightarrow> False | Some n \<Rightarrow> \<bar>n\<bar> < 10000000000000)
   | _ \<Rightarrow> False)"

definition id_field :: "(string \<times> json) list \<Rightarrow> string \<Rightarrow> bool" where
  "id_field kvs k = (case map_of kvs k of
     Some (JList _) \<Rightarrow> False | Some (JObj _) \<Rightarrow> False | _ \<Rightarrow> True)"

definition well_typed_event :: "json \<Rightarrow> bool" where
  "well_typed_event d = (case d of
     JObj kvs \<Rightarrow> (case map_of kvs ''time'' of
          None \<Rightarrow> True | Some (JInt _) \<Rightarrow> True | Some (JStr s) \<Rightarrow> parse_int s \<noteq> None | _ \<Rightarrow> False)
        \<and> int_field kvs ''priority'' \<and> int_field kvs ''scheduling_class''
        \<and> id_field kvs ''collection_id'' \<and> id_field kvs ''instance_index''
        \<and> (case map_of kvs ''resource_request'' of None \<Rightarrow> True | Some (JObj _) \<Rightarrow> True | _ \<Rightarrow> False)
   | _ \<Rightarrow> False)"

lemma int_field_get: "int_field kvs k \<Longrightarrow> \<exists>n. get_int (JObj kvs) k = Inr n \<and> \<bar>n\<bar> < 10000000000000"
  by (auto simp: int_field_def get_int_def dget_def bind_res_Inr split: option.splits json.splits)

lemma id_field_get: "id_field kvs k \<Longrightarrow> \<exists>h. (hash_key (dget kvs k (JStr [])) :: json gres) = Inr h"
proof -
  assume *: "id_field kvs k"
  let ?v = "dget kvs k (JStr [])"
  from * have "(\<forall>xs. ?v \<noteq> JList xs) \<and> (\<forall>o'. ?v \<noteq> JObj o')"
    by (auto simp: id_field_def dget_def split: option.splits json.splits)
  then show ?thesis by (cases ?v rule: hash_key.cases) simp_all
qed

lemma read_event_typed:
  assumes "well_typed_event d"
  shows "\<exists>r. read_event window d = Inr r \<and> (case r of None \<Rightarrow> True | Some e \<Rightarrow> \<bar>ev_priority (snd (snd e))\<bar> < 10000000000000)"
proof -
  from assms obtain kvs where d: "d = JObj kvs" by (auto simp: well_typed_event_def split: json.splits)
  from assms have t: "\<exists>t. get_int d ''time'' = Inr t"
    by (auto simp: d well_typed_event_def get_int_def dget_def bind_res_Inr split: option.splits json.splits)
  from assms have f: "int_field kvs ''priority''" "int_field kvs ''scheduling_class''"
    "id_field kvs ''collection_id''" "id_field kvs ''instance_index''"
    by (simp_all add: d well_typed_event_def)
  from assms have "\<exists>c. (bind_res (py_get d ''resource_request'' (JObj [])) (\<lambda>r. py_get r ''cpus'' (JFloat (Fin 0))) :: json gres) = Inr c"
    by (auto simp: d well_typed_event_def dget_def split: option.splits json.splits)
  then obtain t p c cpus h1 h2 where *: "get_int d ''time'' = Inr t" "get_int d ''priority'' = Inr p"
    "\<bar>p\<bar> < 10000000000000" "get_int d ''scheduling_class'' = Inr c"
    "(bind_res (py_get d ''resource_request'' (JObj [])) (\<lambda>r. py_get r ''cpus'' (JFloat (Fin 0))) :: json gres) = Inr cpus"
    "(hash_key (dget kvs ''collection_id'' (JStr [])) :: json gres) = Inr h1"
    "(hash_key (dget kvs ''instance_index'' (JStr [])) :: json gres) = Inr h2"
    using t int_field_get [OF f(1)] int_field_get [OF f(2)] id_field_get [OF f(3)] id_field_get [OF f(4)] d
    by blast
  show ?thesis
  proof (cases "event_kind_of (dget kvs ''type'' JNull)")
    case None
    then show ?thesis by (simp add: read_event_def d)
  next
    case (Some kind)
    have "event_data d t = Inr \<lparr>ev_time = t, ev_priority = p, ev_class = c, ev_cpus = cpus\<rparr>"
      unfolding event_data_def * bind_res_simps ..
    with Some * show ?thesis by (simp add: read_event_def d)
  qed
qed

lemma events_of_members: "set (te_submit (events_of es)) \<subseteq> (\<lambda>e. snd (snd e)) ` set es"
proof (induction es rule: rev_induct)
  case (snoc e es)
  obtain k kind ev where "e = (k, kind, ev)" by (cases e)
  with snoc show ?case by (cases kind) (auto simp: events_of_def put_event_def)
qed (simp add: events_of_def no_events_def)

lemma match_task_total:
  assumes "\<forall>ev\<in>set (te_submit te). \<bar>ev_priority ev\<bar> < 10000000000000"
  shows "\<exists>out. match_task te = Inr out"
proof (cases "te_submit te = []")
  case False
  with assms have "\<bar>ev_priority (earliest (te_submit te))\<bar> < 10000000000000" by (simp add: earliest_in)
  from nice_total [OF this] obtain n w where "map_priority_to_nice (ev_priority (earliest (te_submit te))) = Inr n"
    "map_of cfs_weights n = Some w"
    using cfs_weights_total nice_range by blast
  then show ?thesis by (simp add: match_task_def Let_def)
qed (simp add: match_task_def)

lemma match_tasks_total:
  "\<forall>g\<in>set tasks. \<exists>out. match_task (snd g) = Inr out \<Longrightarrow> \<exists>t. match_tasks mx tasks s = Inr t"
  by (induction mx tasks s rule: match_tasks.induct) (auto simp: Let_def)

text \<open>
  C25. A trace whose lines are objects with integers where integers are expected (of fewer
  than 14 digits but for the times), hashable ids and an object as resource request is extracted
  without an exception, whatever the limit and the window.
\<close>

theorem well_typed_trace_extracted:
  assumes "\<forall>d\<in>set (somes (concat files)). well_typed_event d"
  shows "\<exists>records m. extract_tasks files max_tasks window = Inr (records, m)"
proof -
  let ?ds = "somes (concat files)"
  have "\<forall>d\<in>set ?ds. \<exists>r. read_event window d = Inr r
      \<and> (case r of None \<Rightarrow> True | Some e \<Rightarrow> \<bar>ev_priority (snd (snd e))\<bar> < 10000000000000)"
    using assms read_event_typed by blast
  from bchoice [OF this] obtain g where g: "\<And>d. d \<in> set ?ds \<Longrightarrow> read_event window d = Inr (g d)
      \<and> (case g d of None \<Rightarrow> True | Some e \<Rightarrow> \<bar>ev_priority (snd (snd e))\<bar> < 10000000000000)"
    by blast
  let ?es = "somes (map g ?ds)"
  have reads: "map_res (read_event window) ?ds = Inr (map g ?ds)" using g by (intro map_res_total) blast
  have somes_in: "x \<in> set (somes xs) \<Longrightarrow> Some x \<in> set xs" for x :: "task_id \<times> event_kind \<times> event" and xs
    by (induction xs rule: somes.induct) auto
  have bound: "\<bar>ev_priority (snd (snd e))\<bar> < 10000000000000" if e: "e \<in> set ?es" for e
  proof -
    from somes_in [OF e] obtain d where "d \<in> set ?ds" "g d = Some e" by auto
    with g show ?thesis by fastforce
  qed
  have "\<exists>out. match_task (events_of es) = Inr out" if kes: "(k, es) \<in> set (group_by nan_id fst ?es)" for k es
  proof (rule match_task_total, rule ballI)
    fix ev assume "ev \<in> set (te_submit (events_of es))"
    with events_of_members obtain e where "e \<in> set es" "ev = snd (snd e)" by blast
    with bound groups_ofD(3) [OF group_by_groups_of kes] show "\<bar>ev_priority ev\<bar> < 10000000000000" by blast
  qed
  then have "\<forall>x\<in>set (group_events ?es). \<exists>out. match_task (snd x) = Inr out"
    by (auto simp: group_events_def)
  from match_tasks_total [OF this, of max_tasks "([], no_stats)"]
  obtain t where t: "match_tasks max_tasks (group_events ?es) ([], no_stats) = Inr t" by blast
  obtain s where s: "scan_files window files = Inr s" "sc_tasks s = group_events ?es"
    using scan_lines_spec [of window "concat files"] reads
    unfolding scan_files_def fold_res_concat by (metis scan.select_convs(3))
  from t s show ?thesis by (cases t) (simp add: extract_tasks_def)
qed

theorem well_typed_trace_extracted_witness:
  "\<exists>records m. extract_tasks sample_files None (Some 5000) = Inr (records, m)"
proof -
  have "list_all well_typed_event (somes (concat sample_files))" by code_simp
  then show ?thesis by (intro well_typed_trace_extracted) (simp add: list_all_iff)
qed

section \<open>The output\<close>

text \<open>
  Shifting the records to the start keeps their number and all other members, makes the
  first arrival 0 and no arrival negative, keeps all differences of arrivals, and does nothing
  when it is done again.
\<close>

theorem normalize_arrivals:
  assumes "sorted (map tr_arrival records)"
  shows "map (\<lambda>r. r\<lparr>tr_arrival := 0\<rparr>) (normalize_arrival_times records) = map (\<lambda>r. r\<lparr>tr_arrival := 0\<rparr>) records
    \<and> (records \<noteq> [] \<longrightarrow> tr_arrival (hd (normalize_arrival_times records)) = 0)
    \<and> (\<forall>r\<in>set (normalize_arrival_times records). 0 \<le> tr_arrival r)
    \<and> sorted (map tr_arrival (normalize_arrival_times records))
    \<and> (\<forall>i<length records. \<forall>j<length records.
        tr_arrival (normalize_arrival_times records ! i) - tr_arrival (normalize_arrival_times records ! j)
          = tr_arrival (records ! i) - tr_arrival (records ! j))
    \<and> normalize_arrival_times (normalize_arrival_times records) = normalize_arrival_times records"
proof (cases records)
  case (Cons r rs)
  with assms have *: "sorted (map (\<lambda>x. tr_arrival x - tr_arrival r) records)"
    by (auto simp: sorted_iff_nth_mono)
  from assms Cons have "\<forall>x\<in>set records. tr_arrival r \<le> tr_arrival x" by auto
  with * Cons show ?thesis
    by (auto simp: normalize_arrival_times_def comp_def nth_Cons' simp del: sorted_wrt.simps list.map split: list.splits)
qed (simp add: normalize_arrival_times_def)

theorem normalize_arrivals_witness:
  "normalize_arrival_times (normalize_arrival_times [sample_record]) = normalize_arrival_times [sample_record]"
  using normalize_arrivals [of "[sample_record]"] by simp

lemma digit_no_comma: "is_digit c \<Longrightarrow> c \<noteq> CHR '',''"
  by (auto simp: is_digit_def)

lemma dec_int_no_comma: "CHR '','' \<notin> set (dec_int i)"
  using dec_nat_is_digit digit_no_comma by (auto simp: dec_int_def)

text \<open>
  C27. A written line can be read back: split at the commas, its first six fields parse to the
  numbers of the record, in the order of the header, provided that the text of the CPU request
  has no comma.
\<close>

theorem csv_line_roundtrip:
  assumes "csv_line fmt r = Inr line" and "fmt (tr_cpus r) = Inr cpus" and "CHR '','' \<notin> set cpus"
  shows "length (split_on (CHR '','') line) = length (split_on (CHR '','') csv_header)
    \<and> map parse_int (take 6 (split_on (CHR '','') line)) = map Some
        [tr_arrival r, tr_burst r, tr_io r, tr_nice r, tr_weight r, tr_class r]
    \<and> last (split_on (CHR '','') line) = cpus"
proof -
  let ?fs = "[dec_int (tr_arrival r), dec_int (tr_burst r), dec_int (tr_io r), dec_int (tr_nice r),
       dec_int (tr_weight r), dec_int (tr_class r), cpus]"
  have "line = join [CHR '',''] ?fs" using assms(1,2) by (simp add: csv_line_def)
  moreover have "split_on (CHR '','') (join [CHR '',''] ?fs) = ?fs"
    by (rule split_on_join) (use assms(3) dec_int_no_comma in auto)
  moreover have "length (split_on (CHR '','') csv_header) = 7" by code_simp
  ultimately show ?thesis by (simp add: parse_int_dec_int)
qed

theorem csv_line_roundtrip_witness:
  "map parse_int (take 6 (split_on (CHR '','') ''1,7,0,9,137,0,0.500000'')) = map Some [1, 7, 0, 9, 137, 0]"
proof -
  have *: "csv_line (\<lambda>_. Inr ''0.500000'') sample_record = Inr ''1,7,0,9,137,0,0.500000''" by code_simp
  have "CHR '','' \<notin> set ''0.500000''" by simp
  from csv_line_roundtrip [OF * refl this] show ?thesis by (simp add: sample_record_def)
qed


section \<open>The program\<close>

text \<open>What \<open>print_summary\<close> prints about the records, but for the CPU requests.\<close>

record trace_summary =
  su_total :: int
  su_last_arrival :: int
  su_burst_min :: int
  su_burst_median :: int
  su_burst_max :: int
  su_burst_mean :: rat
  su_nice :: "(int \<times> int \<times> int) list"

definition summarize_trace :: "trace_record list \<Rightarrow> trace_summary option" where
  "summarize_trace records =
     (if records = [] then None
      else let bursts = map tr_burst records; nices = map tr_nice records in Some \<lparr>
        su_total = int (length records),
        su_last_arrival = tr_arrival (last records),
        su_burst_min = Min (set bursts),
        su_burst_median = sort bursts ! (length bursts div 2),
        su_burst_max = Max (set bursts),
        su_burst_mean = of_int (sum_list bursts) / of_nat (length bursts),
        su_nice = map (\<lambda>n. (n, the (map_of cfs_weights n), int (count_list nices n))) (sorted_set nices)\<rparr>)"

lemma sum_count_list: "set xs \<subseteq> set ks \<Longrightarrow> distinct ks \<Longrightarrow> sum_list (map (\<lambda>k. int (count_list xs k)) ks) = int (length xs)"
proof (induction xs)
  case (Cons x xs)
  have "sum_list (map (\<lambda>k. int (count_list (x # xs) k)) ks)
      = sum_list (map (\<lambda>k. (if k = x then 1 else 0) + int (count_list xs k)) ks)"
    by (rule arg_cong [of _ _ sum_list]) simp
  also have "\<dots> = 1 + int (length xs)"
    using Cons by (simp add: sum_list_addf sum_list_distinct_conv_sum_set)
  finally show ?case by simp
qed simp

text \<open>
  In a summary the records per nice value add up to the total, and minimum, median and
  maximum of the bursts are bursts of records, in this order.
\<close>

theorem summarize_trace_consistent:
  assumes "summarize_trace records = Some su"
  shows "sum_list (map (\<lambda>(n, w, c). c) (su_nice su)) = su_total su
    \<and> {su_burst_min su, su_burst_median su, su_burst_max su} \<subseteq> tr_burst ` set records
    \<and> su_burst_min su \<le> su_burst_median su \<and> su_burst_median su \<le> su_burst_max su"
proof -
  let ?bs = "map tr_burst records" and ?ns = "map tr_nice records"
  from assms have su: "records \<noteq> []" "su_total su = int (length records)" "su_burst_min su = Min (set ?bs)"
    "su_burst_max su = Max (set ?bs)" "su_burst_median su = sort ?bs ! (length ?bs div 2)"
    "su_nice su = map (\<lambda>n. (n, the (map_of cfs_weights n), int (count_list ?ns n))) (sorted_set ?ns)"
    by (auto simp: summarize_trace_def Let_def split: if_splits)
  have "su_burst_median su \<in> set (sort ?bs)"
    using su(1) unfolding su(5) by (intro nth_mem) simp
  then have median: "su_burst_median su \<in> set ?bs" by simp
  moreover have "Min (set ?bs) \<in> set ?bs" "Max (set ?bs) \<in> set ?bs" using su(1) by (auto intro!: Min_in Max_in)
  moreover have "Min (set ?bs) \<le> su_burst_median su" "su_burst_median su \<le> Max (set ?bs)" using median by simp_all
  moreover have "sum_list (map (\<lambda>n. int (count_list ?ns n)) (sorted_set ?ns)) = int (length records)"
    by (subst sum_count_list) (auto simp: sorted_set_def)
  ultimately show ?thesis by (simp add: su comp_def)
qed

theorem summarize_trace_consistent_witness:
  "\<exists>su. summarize_trace [sample_record] = Some su \<and> sum_list (map (\<lambda>(n, w, c). c) (su_nice su)) = 1"
proof -
  obtain su where *: "summarize_trace [sample_record] = Some su" "su_total su = 1"
    by (simp add: summarize_trace_def Let_def)
  from summarize_trace_consistent [OF *(1)] * show ?thesis by simp
qed

text \<open>\<open>int(args.time_window * 1e9)\<close>; a window of 0 is no window.\<close>

definition window_ns :: "pyfloat option \<Rightarrow> int option gres" where
  "window_ns w = (case w of None \<Rightarrow> Inr None
     | Some f \<Rightarrow> if f = Fin 0 then Inr None
         else bind_res (float_to_int (case f of Fin r \<Rightarrow> float_of_rat (r * 10 ^ 9) | _ \<Rightarrow> f)) (\<lambda>n. Inr (Some n)))"

text \<open>
  \<open>main\<close> up to the lines of the output file, \<open>None\<close> for an input file that does not
  exist, which ends the program with exit code 1.
\<close>

definition extract_main ::
  "(json \<Rightarrow> string gres) \<Rightarrow> json option list option list \<Rightarrow> int option \<Rightarrow> pyfloat option \<Rightarrow> bool \<Rightarrow> string list gres"
where
  "extract_main fmt inputs max_tasks time_window no_normalize =
     bind_res (window_ns time_window) (\<lambda>window.
     if None \<in> set inputs then Inl (Fail ())
     else bind_res (extract_tasks (map the inputs) max_tasks window) (\<lambda>(records, m).
       write_csv fmt (if no_normalize then records else normalize_arrival_times records)))"

text \<open>
  When the program writes its output, all input files exist and the output is the header
  and one line per extracted task, at most as many as asked for; and unless the shift is turned
  off, the first line starts at time 0.
\<close>

theorem extract_main_output:
  assumes "extract_main fmt inputs max_tasks time_window no_normalize = Inr out"
  shows "None \<notin> set inputs \<and> hd out = csv_header
    \<and> (\<exists>records m window. window_ns time_window = Inr window
        \<and> extract_tasks (map the inputs) max_tasks window = Inr (records, m)
        \<and> length out = 1 + length records
        \<and> (\<forall>n. max_tasks = Some n \<longrightarrow> 0 < n \<longrightarrow> int (length out) \<le> 1 + n)
        \<and> (\<not> no_normalize \<longrightarrow> records \<noteq> [] \<longrightarrow> hd (split_on (CHR '','') (out ! 1)) = ''0''))"
proof -
  from assms obtain window records m where w: "window_ns time_window = Inr window" "None \<notin> set inputs"
    "extract_tasks (map the inputs) max_tasks window = Inr (records, m)"
    "write_csv fmt (if no_normalize then records else normalize_arrival_times records) = Inr out"
    by (auto simp: extract_main_def bind_res_Inr split: if_splits)
  let ?rs = "if no_normalize then records else normalize_arrival_times records"
  from w(4) obtain ls where ls: "map_res (csv_line fmt) ?rs = Inr ls" "out = csv_header # ls"
    by (auto simp: write_csv_def bind_res_Inr)
  then have all: "list_all2 (\<lambda>r l. csv_line fmt r = Inr l) ?rs ls" by (simp add: map_res_Inr)
  have len: "length ?rs = length records"
    by (simp add: normalize_arrival_times_def split: list.splits)
  with all have out: "length out = 1 + length records" by (simp add: ls list_all2_lengthD [symmetric])
  have limit: "int (length out) \<le> 1 + n" if "max_tasks = Some n" "0 < n" for n
    using extract_limit [OF w(3) [unfolded that(1)] that(2)] out by simp
  have "hd (split_on (CHR '','') (out ! 1)) = ''0''" if nn: "\<not> no_normalize" "records \<noteq> []"
  proof -
    from nn obtain r rs where rs: "records = r # rs" by (cases records) auto
    with nn obtain r' rs' where rs': "?rs = r' # rs'" "tr_arrival r' = 0"
      by (simp add: normalize_arrival_times_def)
    with all obtain l ls' where l: "ls = l # ls'" "csv_line fmt r' = Inr l" by (auto simp: list_all2_Cons1)
    have zero: "dec_int 0 = ''0''" by code_simp
    from l obtain cpus where "l = ''0'' @ CHR '','' # join '','' [dec_int (tr_burst r'), dec_int (tr_io r'),
        dec_int (tr_nice r'), dec_int (tr_weight r'), dec_int (tr_class r'), cpus]"
      by (auto simp: csv_line_def bind_res_Inr rs'(2) zero)
    then show ?thesis by (simp add: ls l(1) split_on_append)
  qed
  with w out limit ls(2) show ?thesis by (auto simp: ls(2))
qed

theorem extract_main_output_witness:
  "\<exists>out. extract_main (\<lambda>_. Inr ''0.000000'') (map Some sample_files) (Some 1) None False = Inr out \<and> hd out = csv_header"
proof -
  have "(case extract_main (\<lambda>_. Inr ''0.000000'') (map Some sample_files) (Some 1) None False of Inr _ \<Rightarrow> True | Inl _ \<Rightarrow> False)"
    by code_simp
  then obtain out where *: "extract_main (\<lambda>_. Inr ''0.000000'') (map Some sample_files) (Some 1) None False = Inr out"
    by (auto split: sum.splits)
  from extract_main_output [OF *] * show ?thesis by blast
qed

text \<open>
  The window keeps a submission at its very end, where its documentation says that the time
  has to be less, and it is no window at all when it is shorter than a nanosecond.
\<close>

theorem time_window_boundary:
  "(\<exists>e. read_event (Some 5000) (the (sample_line ''0'' 5000)) = Inr (Some e))
   \<and> read_event (Some 5000) (the (sample_line ''0'' 5001)) = Inr None
   \<and> window_ns (Some (Fin (1 / 10 ^ 10))) = Inr (Some 0)
   \<and> (\<forall>kind t. \<not> out_of_window (Some 0) kind t)"
proof (intro conjI)
  have "(case read_event (Some 5000) (the (sample_line ''0'' 5000)) of Inr (Some _) \<Rightarrow> True | _ \<Rightarrow> False)" by code_simp
  then show "\<exists>e. read_event (Some 5000) (the (sample_line ''0'' 5000)) = Inr (Some e)"
    by (auto split: sum.splits option.splits)
  show "read_event (Some 5000) (the (sample_line ''0'' 5001)) = Inr None" by code_simp
  show "window_ns (Some (Fin (1 / 10 ^ 10))) = Inr (Some 0)" by code_simp
qed (simp add: out_of_window_def)

end
