(* ===== verification/AlibabaSubset.thy ===== *)
theory AlibabaSubset
  imports PyString "HOL-Library.Multiset" "HOL-Library.FuncSet"
begin

text \<open>
  \<open>real-time-workloads/alibaba_v2018/make_subset.py\<close>: a small subset of a huge CSV input, either
  its first rows or a uniform sample by reservoir sampling, read row by row.

  The random numbers are the parameter \<open>draw\<close>: \<open>draw n\<close> is what
  \<open>random.randint(1, n)\<close> gives for the \<open>n\<close>-th row, a number from 1 to \<open>n\<close>; each \<open>n\<close> is
  drawn at most once. The seed, the delimiter and the progress messages are left out.
\<close>

type_synonym row = "string list"

datatype mode = Random | Head

record subset_args =
  sa_size :: int
  sa_mode :: mode
  sa_max_lines :: "int option"
  sa_no_header :: bool

record subset_state =
  ss_sampled :: "row list"
  ss_scanned :: int

definition looks_like_header :: "row \<Rightarrow> bool" where
  "looks_like_header row = list_ex (list_ex is_alpha) row"

text \<open>One row of the reservoir: fill it, then replace a random member.\<close>

definition reservoir_step :: "int \<Rightarrow> (int \<Rightarrow> int) \<Rightarrow> row \<Rightarrow> subset_state \<Rightarrow> subset_state" where
  "reservoir_step k draw row s =
     (let n = ss_scanned s + 1; sampled = ss_sampled s
      in \<lparr>ss_sampled =
            (if int (length sampled) < k then sampled @ [row]
             else let j = draw n in if j \<le> k then sampled[nat (j - 1) := row] else sampled),
          ss_scanned = n\<rparr>)"

fun sample_rows :: "subset_args \<Rightarrow> (int \<Rightarrow> int) \<Rightarrow> row list \<Rightarrow> subset_state \<Rightarrow> subset_state" where
  "sample_rows a draw [] s = s"
| "sample_rows a draw (row # rows) s =
     (if (case sa_max_lines a of None \<Rightarrow> False | Some m \<Rightarrow> m \<le> ss_scanned s) then s
      else case sa_mode a of
          Head \<Rightarrow>
            if int (length (ss_sampled s)) < sa_size a
            then sample_rows a draw rows \<lparr>ss_sampled = ss_sampled s @ [row], ss_scanned = ss_scanned s + 1\<rparr>
            else s\<lparr>ss_scanned := ss_scanned s + 1\<rparr>
        | Random \<Rightarrow> sample_rows a draw rows (reservoir_step (sa_size a) draw row s))"

record subset_result =
  sr_header :: "row option"
  sr_rows :: "row list"
  sr_scanned :: int

text \<open>\<open>None\<close> is exit code 1; the input is \<open>None\<close> if it does not exist.\<close>

definition first_is_header :: "subset_args \<Rightarrow> row \<Rightarrow> bool" where
  "first_is_header a first \<longleftrightarrow> \<not> sa_no_header a \<and> looks_like_header first"

definition make_subset :: "subset_args \<Rightarrow> (int \<Rightarrow> int) \<Rightarrow> row list option \<Rightarrow> subset_result option" where
  "make_subset a draw input =
     (if sa_size a \<le> 0 then None
      else case input of
          None \<Rightarrow> None
        | Some [] \<Rightarrow> None
        | Some (first # rows) \<Rightarrow>
            let start = (if first_is_header a first then \<lparr>ss_sampled = [], ss_scanned = 0\<rparr>
                         else \<lparr>ss_sampled = [first], ss_scanned = 1\<rparr>);
                s = sample_rows a draw rows start
            in Some \<lparr>sr_header = (if first_is_header a first then Some first else None),
                     sr_rows = ss_sampled s, sr_scanned = ss_scanned s\<rparr>)"

text \<open>The lines of the output file.\<close>

definition output_rows :: "subset_result \<Rightarrow> row list" where
  "output_rows r = (case sr_header r of None \<Rightarrow> [] | Some h \<Rightarrow> [h]) @ sr_rows r"


section \<open>The first rows\<close>

definition cap :: "int option \<Rightarrow> nat \<Rightarrow> row list \<Rightarrow> row list" where
  "cap max_lines done rows = (case max_lines of None \<Rightarrow> rows | Some m \<Rightarrow> take (nat m - done) rows)"

lemma sample_rows_head:
  "sa_mode a = Head \<Longrightarrow> ss_scanned s = int (length (ss_sampled s)) \<Longrightarrow>
     ss_sampled (sample_rows a draw rows s) =
       ss_sampled s @ take (nat (sa_size a) - length (ss_sampled s)) (cap (sa_max_lines a) (length (ss_sampled s)) rows)"
proof (induction rows arbitrary: s)
  case (Cons row rows)
  let ?k = "length (ss_sampled s)"
  show ?case
  proof (cases "(case sa_max_lines a of None \<Rightarrow> False | Some m \<Rightarrow> m \<le> ss_scanned s) \<or> sa_size a \<le> int ?k")
    case True
    with Cons.prems show ?thesis by (auto simp: cap_def split: option.splits)
  next
    case False
    then have "?k < nat (sa_size a)" by auto
    then have "nat (sa_size a) - ?k = Suc (nat (sa_size a) - Suc ?k)" by (rule Suc_diff_Suc [symmetric])
    moreover have "cap (sa_max_lines a) ?k (row # rows) = row # cap (sa_max_lines a) (Suc ?k) rows"
    proof (cases "sa_max_lines a")
      case (Some m)
      with False Cons.prems have "?k < nat m" by auto
      then have "nat m - ?k = Suc (nat m - Suc ?k)" by (rule Suc_diff_Suc [symmetric])
      with Some show ?thesis by (simp add: cap_def)
    qed (simp add: cap_def)
    ultimately show ?thesis
      using False Cons.prems Cons.IH [of "\<lparr>ss_sampled = ss_sampled s @ [row], ss_scanned = ss_scanned s + 1\<rparr>"]
      by (auto split: option.splits)
  qed
qed (simp add: cap_def split: option.splits)

text \<open>The rows that count as data: all but a header.\<close>

definition data_rows :: "subset_args \<Rightarrow> row list \<Rightarrow> row list" where
  "data_rows a input = (if first_is_header a (hd input) then tl input else input)"

text \<open>
  In head mode the subset is the first rows of the data, as many as asked for or as the
  limit on the scanned rows allows; only the first row of a file without a header is taken
  whatever the limit.
\<close>

theorem head_subset:
  assumes "sa_mode a = Head" and "0 < sa_size a" and "input \<noteq> []"
  shows "\<exists>r. make_subset a draw (Some input) = Some r
    \<and> sr_rows r = take (nat (sa_size a)) (case sa_max_lines a of
        None \<Rightarrow> data_rows a input
      | Some m \<Rightarrow> take (if first_is_header a (hd input) then nat m else max 1 (nat m)) (data_rows a input))"
proof -
  obtain first rows where input: "input = first # rows" using assms(3) by (cases input) auto
  show ?thesis
  proof (cases "first_is_header a first")
    case True
    with assms sample_rows_head [OF assms(1), of "\<lparr>ss_sampled = [], ss_scanned = 0\<rparr>" draw rows] input
    show ?thesis by (auto simp: make_subset_def data_rows_def cap_def Let_def split: option.splits)
  next
    case False
    have one: "max (Suc 0) m - Suc 0 = m - Suc 0" for m by simp
    from False assms sample_rows_head [OF assms(1), of "\<lparr>ss_sampled = [first], ss_scanned = 1\<rparr>" draw rows] input
    show ?thesis
      by (auto simp: make_subset_def data_rows_def cap_def Let_def one take_Cons' split: option.splits)
  qed
qed

theorem head_subset_witness:
  "\<exists>r. make_subset \<lparr>sa_size = 1, sa_mode = Head, sa_max_lines = None, sa_no_header = False\<rparr> (\<lambda>n. n)
       (Some [[''name''], [''1''], [''2'']]) = Some r
    \<and> sr_rows r = take 1 (data_rows \<lparr>sa_size = 1, sa_mode = Head, sa_max_lines = None, sa_no_header = False\<rparr>
       [[''name''], [''1''], [''2'']])"
  using head_subset [of "\<lparr>sa_size = 1, sa_mode = Head, sa_max_lines = None, sa_no_header = False\<rparr>"
      "[[''name''], [''1''], [''2'']]" "\<lambda>n. n"] by simp

text \<open>
  A row with a letter anywhere passes for a header: the first row of a file without one is
  then copied to the top of the subset and never sampled, unless the header is turned off.
\<close>

theorem letters_pass_for_header:
  assumes "0 < sa_size a" and "\<not> sa_no_header a" and "cell \<in> set first" and "c \<in> set cell" and "is_alpha c"
  shows "\<exists>r. make_subset a draw (Some (first # rows)) = Some r \<and> sr_header r = Some first
    \<and> hd (output_rows r) = first
    \<and> sr_rows r = ss_sampled (sample_rows a draw rows \<lparr>ss_sampled = [], ss_scanned = 0\<rparr>)"
proof -
  have "first_is_header a first"
    using assms by (auto simp: first_is_header_def looks_like_header_def list_ex_iff)
  with assms(1) show ?thesis by (simp add: make_subset_def Let_def output_rows_def)
qed

theorem letters_pass_for_header_witness:
  "\<exists>r. make_subset \<lparr>sa_size = 1, sa_mode = Head, sa_max_lines = None, sa_no_header = False\<rparr> (\<lambda>n. n)
       (Some [[''1'', ''Terminated''], [''2'', ''Terminated'']]) = Some r \<and> sr_header r = Some [''1'', ''Terminated'']"
proof -
  have "is_alpha (CHR ''T'')" by code_simp
  from letters_pass_for_header [of "\<lparr>sa_size = 1, sa_mode = Head, sa_max_lines = None, sa_no_header = False\<rparr>"
      "''Terminated''" "[''1'', ''Terminated'']", OF _ _ _ _ this, of "\<lambda>n. n" "[[''2'', ''Terminated'']]"]
  show ?thesis by auto
qed


section \<open>The reservoir\<close>

lemma sample_rows_random:
  "sa_mode a = Random \<Longrightarrow> sample_rows a draw rows s
     = fold (reservoir_step (sa_size a) draw)
         (case sa_max_lines a of None \<Rightarrow> rows | Some m \<Rightarrow> take (nat (m - ss_scanned s)) rows) s"
proof (induction rows arbitrary: s)
  case (Cons row rows)
  have n: "ss_scanned (reservoir_step (sa_size a) draw row s) = ss_scanned s + 1"
    by (simp add: reservoir_step_def Let_def)
  show ?case
  proof (cases "sa_max_lines a")
    case None
    with Cons show ?thesis by simp
  next
    case (Some m)
    show ?thesis
    proof (cases "m \<le> ss_scanned s")
      case False
      then have "nat (m - ss_scanned s) = Suc (nat (m - (ss_scanned s + 1)))" by simp
      with False Some Cons n show ?thesis by simp
    qed (simp add: Some)
  qed
qed (simp split: option.splits)

text \<open>What the reservoir is after some rows.\<close>

definition reservoir :: "int \<Rightarrow> (int \<Rightarrow> int) \<Rightarrow> row list \<Rightarrow> subset_state" where
  "reservoir k draw rows = fold (reservoir_step k draw) rows \<lparr>ss_sampled = [], ss_scanned = 0\<rparr>"

lemma reservoir_snoc: "reservoir k draw (rows @ [row]) = reservoir_step k draw row (reservoir k draw rows)"
  by (simp add: reservoir_def)

lemma reservoir_scanned [simp]: "ss_scanned (reservoir k draw rows) = int (length rows)"
  by (induction rows rule: rev_induct) (simp_all add: reservoir_snoc reservoir_step_def Let_def, simp add: reservoir_def)

lemma reservoir_length:
  "0 \<le> k \<Longrightarrow> length (ss_sampled (reservoir k draw rows)) = min (nat k) (length rows)"
proof (induction rows rule: rev_induct)
  case (snoc row rows)
  then show ?case by (auto simp: reservoir_snoc reservoir_step_def Let_def min_def)
qed (simp add: reservoir_def)

lemma mset_update_subseteq: "j < length xs \<Longrightarrow> mset xs \<subseteq># M \<Longrightarrow> mset (xs[j := x]) \<subseteq># add_mset x M"
proof -
  assume "j < length xs" "mset xs \<subseteq># M"
  then have "mset (xs[j := x]) = add_mset x (mset xs - {#xs ! j#})" by (simp add: mset_update)
  also have "\<dots> \<subseteq># add_mset x M" using \<open>mset xs \<subseteq># M\<close> by (auto intro: subset_mset.order_trans [OF diff_subset_eq_self])
  finally show ?thesis .
qed

text \<open>Only numbers after the first \<open>k\<close> rows matter.\<close>

lemma reservoir_in:
  assumes "0 < k" and "\<And>i. k < i \<Longrightarrow> i \<le> int (length rows) \<Longrightarrow> 1 \<le> draw i"
  shows "mset (ss_sampled (reservoir k draw rows)) \<subseteq># mset rows"
  using assms(2)
proof (induction rows rule: rev_induct)
  case (snoc row rows)
  let ?xs = "ss_sampled (reservoir k draw rows)"
  have IH: "mset ?xs \<subseteq># mset rows" by (rule snoc.IH) (use snoc.prems in simp)
  show ?case
  proof (cases "int (length ?xs) < k")
    case True
    with IH show ?thesis by (simp add: reservoir_snoc reservoir_step_def Let_def)
  next
    case False
    let ?j = "draw (int (length rows) + 1)"
    from False assms(1) have "k \<le> int (length rows)" by (simp add: reservoir_length)
    then have "1 \<le> ?j" by (intro snoc.prems) simp_all
    then have "nat (?j - 1) < length ?xs" if "?j \<le> k" using that False by simp
    with mset_update_subseteq [OF _ IH, of "nat (?j - 1)" row] False IH show ?thesis
      by (auto simp: reservoir_snoc reservoir_step_def Let_def intro: subset_mset.order_trans)
  qed
qed (simp add: reservoir_def)

lemma distinct_of_sub:
  assumes "mset xs \<subseteq># mset ys" and "distinct ys"
  shows "distinct xs"
  unfolding distinct_count_atmost_1
proof
  fix a
  have "count (mset xs) a \<le> count (mset ys) a" using assms(1) by (rule mset_subset_eq_count)
  also have "\<dots> \<le> 1" using assms(2) by (simp add: distinct_count_atmost_1)
  finally have "count (mset xs) a \<le> 1" .
  moreover have "count (mset xs) a = 0 \<longleftrightarrow> a \<notin> set xs" by (simp add: count_mset_0_iff)
  ultimately show "count (mset xs) a = (if a \<in> set xs then 1 else 0)"
    by (cases "count (mset xs) a") (auto simp del: count_mset_0_iff)
qed

lemma make_subset_random:
  assumes "sa_mode a = Random" and "0 < sa_size a" and "sa_max_lines a = None" and "input \<noteq> []"
  shows "make_subset a draw (Some input) = Some \<lparr>
      sr_header = (if first_is_header a (hd input) then Some (hd input) else None),
      sr_rows = ss_sampled (reservoir (sa_size a) draw (data_rows a input)),
      sr_scanned = int (length (data_rows a input))\<rparr>"
proof -
  obtain first rows where input: "input = first # rows" using assms(4) by (cases input) auto
  have start: "reservoir_step (sa_size a) draw first \<lparr>ss_sampled = [], ss_scanned = 0\<rparr> = \<lparr>ss_sampled = [first], ss_scanned = 1\<rparr>"
    using assms(2) by (simp add: reservoir_step_def)
  have "ss_scanned (fold (reservoir_step (sa_size a) draw) xs s) = ss_scanned s + int (length xs)" for xs s
    by (induction xs arbitrary: s) (simp_all add: reservoir_step_def Let_def)
  with start show ?thesis
    using assms(2,3) sample_rows_random [OF assms(1)]
    by (simp add: make_subset_def Let_def input data_rows_def reservoir_def)
qed

text \<open>
  In random mode the subset holds as many rows as asked for, or all there are (up to the
  limit) if they are fewer; its rows are rows of the data, none more often than there; and the
  position that a drawn number names is always inside the reservoir.
\<close>

theorem random_subset:
  assumes "sa_mode a = Random" and "0 < sa_size a" and "input \<noteq> []" and "\<forall>n\<ge>1. 1 \<le> draw n \<and> draw n \<le> n"
    and "sa_max_lines a = None"
  shows "\<exists>r. make_subset a draw (Some input) = Some r
    \<and> length (sr_rows r) = min (nat (sa_size a)) (length (data_rows a input))
    \<and> mset (sr_rows r) \<subseteq># mset (data_rows a input)
    \<and> sr_scanned r = int (length (data_rows a input))
    \<and> (\<forall>rows n. sa_size a \<le> int (length rows) \<longrightarrow> draw n \<le> sa_size a \<longrightarrow> 1 \<le> n
        \<longrightarrow> nat (draw n - 1) < length (ss_sampled (reservoir (sa_size a) draw rows)))"
proof -
  let ?k = "sa_size a"
  note eq = make_subset_random [OF assms(1,2,5,3), of draw]
  have draw: "1 \<le> draw n" if "1 \<le> n" for n using assms(4) that by blast
  have "nat (draw n - 1) < length (ss_sampled (reservoir ?k draw rows))"
    if "?k \<le> int (length rows)" "draw n \<le> ?k" "1 \<le> n" for rows n
    using that assms(2) draw [OF that(3)] by (simp add: reservoir_length)
  with eq reservoir_length [of ?k draw "data_rows a input"] reservoir_in [OF assms(2), of "data_rows a input" draw] draw assms(2)
  show ?thesis by simp
qed

theorem random_subset_witness:
  "\<exists>r. make_subset \<lparr>sa_size = 2, sa_mode = Random, sa_max_lines = None, sa_no_header = True\<rparr> (\<lambda>n. 1)
     (Some [[''1''], [''2''], [''3'']]) = Some r \<and> length (sr_rows r) = 2"
proof -
  let ?a = "\<lparr>sa_size = 2, sa_mode = Random, sa_max_lines = None, sa_no_header = True\<rparr>"
  have "length (data_rows ?a [[''1''], [''2''], [''3'']]) = 3" by (simp add: data_rows_def first_is_header_def)
  with random_subset [of ?a "[[''1''], [''2''], [''3'']]" "\<lambda>n. 1"] show ?thesis by auto
qed

section \<open>Uniformity\<close>

text \<open>All that the random numbers can be: a number from 1 to \<open>i\<close> for every row \<open>i\<close> after the \<open>k\<close>-th.\<close>

definition draws :: "int \<Rightarrow> int \<Rightarrow> (int \<Rightarrow> int) set" where
  "draws k n = PiE {k + 1..n} (\<lambda>i. {1..i})"

lemma draws_finite [simp]: "finite (draws k n)"
  by (simp add: draws_def finite_PiE)

lemma draws_step:
  assumes "k \<le> n"
  shows "draws k (n + 1) = (\<lambda>(j, d). d(n + 1 := j)) ` ({1..n + 1} \<times> draws k n)"
    and "inj_on (\<lambda>(j, d). d(n + 1 := j)) ({1..n + 1} \<times> draws k n)"
proof -
  have "{k + 1..n + 1} = insert (n + 1) {k + 1..n}" using assms by auto
  then show "draws k (n + 1) = (\<lambda>(j, d). d(n + 1 := j)) ` ({1..n + 1} \<times> draws k n)"
    by (simp add: draws_def PiE_insert_eq)
  show "inj_on (\<lambda>(j, d). d(n + 1 := j)) ({1..n + 1} \<times> draws k n)"
    unfolding draws_def by (rule inj_combinator [of _ _ "\<lambda>i. {1..i}"]) simp
qed

lemma count_draws:
  assumes "k \<le> n"
  shows "card {d \<in> draws k (n + 1). Q d} = (\<Sum>d\<in>draws k n. card {j \<in> {1..n + 1}. Q (d(n + 1 := j))})"
proof -
  let ?f = "\<lambda>(j, d). d(n + 1 := j)"
  let ?P = "SIGMA d:draws k n. {j \<in> {1..n + 1}. Q (d(n + 1 := j))}"
  have "{d \<in> draws k (n + 1). Q d} = ?f ` prod.swap ` ?P"
    unfolding draws_step(1) [OF assms] by force
  moreover have "card (?f ` prod.swap ` ?P) = card (prod.swap ` ?P)"
    by (rule card_image, rule inj_on_subset [OF draws_step(2) [OF assms]]) auto
  moreover have "card (prod.swap ` ?P) = card ?P" by (rule card_image) simp
  moreover have "card ?P = (\<Sum>d\<in>draws k n. card {j \<in> {1..n + 1}. Q (d(n + 1 := j))})"
    by (rule card_SigmaI) (auto intro: finite_subset [of _ "{1..n + 1}"])
  ultimately show ?thesis by (simp only:)
qed

lemma reservoir_cong:
  "(\<And>i. 1 \<le> i \<Longrightarrow> i \<le> int (length rows) \<Longrightarrow> draw i = draw' i) \<Longrightarrow> reservoir k draw rows = reservoir k draw' rows"
proof (induction rows rule: rev_induct)
  case (snoc row rows)
  then have "reservoir k draw rows = reservoir k draw' rows" by simp
  moreover have "draw (int (length rows) + 1) = draw' (int (length rows) + 1)" using snoc.prems by simp
  ultimately show ?case by (simp add: reservoir_snoc reservoir_step_def Let_def)
qed (simp add: reservoir_def)

lemma reservoir_fill: "int (length rows) \<le> k \<Longrightarrow> ss_sampled (reservoir k draw rows) = rows"
  by (induction rows rule: rev_induct) (simp_all add: reservoir_snoc reservoir_step_def Let_def, simp add: reservoir_def)

text \<open>Of the numbers for the next row exactly one removes a given row from the reservoir.\<close>

lemma set_update_distinct:
  "distinct xs \<Longrightarrow> i < length xs \<Longrightarrow> y \<noteq> x \<Longrightarrow> x \<in> set (xs[i := y]) \<longleftrightarrow> x \<in> set xs \<and> xs ! i \<noteq> x"
  by (auto simp: in_set_conv_nth nth_list_update nth_eq_iff_index_eq)

lemma count_keep:
  assumes "distinct xs" and "int (length xs) = k" and "k \<le> n" and "x \<noteq> row"
  shows "card {j \<in> {1..n + 1}. x \<in> set (if j \<le> k then xs[nat (j - 1) := row] else xs)}
    = (if x \<in> set xs then nat n else 0)"
proof (cases "x \<in> set xs")
  case True
  then obtain i where i: "i < length xs" "xs ! i = x" by (auto simp: in_set_conv_nth)
  have "{j \<in> {1..n + 1}. x \<in> set (if j \<le> k then xs[nat (j - 1) := row] else xs)} = {1..n + 1} - {int i + 1}"
  proof (intro set_eqI iffI)
    fix j assume j: "j \<in> {j \<in> {1..n + 1}. x \<in> set (if j \<le> k then xs[nat (j - 1) := row] else xs)}"
    have "j \<noteq> int i + 1"
    proof
      assume "j = int i + 1"
      with j i assms show False by (simp add: set_update_distinct)
    qed
    with j show "j \<in> {1..n + 1} - {int i + 1}" by simp
  next
    fix j assume j: "j \<in> {1..n + 1} - {int i + 1}"
    have "x \<in> set (xs[nat (j - 1) := row])" if "j \<le> k"
    proof -
      from that j assms have "nat (j - 1) < length xs" "nat (j - 1) \<noteq> i" by auto
      with i assms(1) have "xs ! nat (j - 1) \<noteq> x" by (metis nth_eq_iff_index_eq)
      with \<open>nat (j - 1) < length xs\<close> assms True show ?thesis by (simp add: set_update_distinct)
    qed
    with j True show "j \<in> {j \<in> {1..n + 1}. x \<in> set (if j \<le> k then xs[nat (j - 1) := row] else xs)}" by simp
  qed
  moreover have "int i + 1 \<in> {1..n + 1}" using i assms by simp
  ultimately show ?thesis using True assms by (simp add: card_Diff_singleton)
next
  case False
  then have "x \<notin> set (if j \<le> k then xs[nat (j - 1) := row] else xs)" for j
    using assms(4) set_update_subset_insert [of xs "nat (j - 1)" row] by auto
  with False show ?thesis by simp
qed

lemma count_new:
  assumes "int (length xs) = k" and "0 < k" and "k \<le> n" and "row \<notin> set xs"
  shows "card {j \<in> {1..n + 1}. row \<in> set (if j \<le> k then xs[nat (j - 1) := row] else xs)} = nat k"
proof -
  have "{j \<in> {1..n + 1}. row \<in> set (if j \<le> k then xs[nat (j - 1) := row] else xs)} = {1..k}"
    using assms by (auto simp: set_update_memI)
  then show ?thesis by simp
qed

lemma reservoir_uniform:
  assumes "0 < k" and "k \<le> int (length rows)" and "distinct rows" and "x \<in> set rows"
  shows "card {d \<in> draws k (int (length rows)). x \<in> set (ss_sampled (reservoir k d rows))} * length rows
    = nat k * card (draws k (int (length rows)))"
  using assms(2-4)
proof (induction rows rule: rev_induct)
  case (snoc row rows)
  let ?n = "int (length rows)"
  let ?S = "\<lambda>d rows. set (ss_sampled (reservoir k d rows))"
  show ?case
  proof (cases "k \<le> ?n")
    case False
    with snoc.prems have k: "k = ?n + 1" by simp
    have "?S d (rows @ [row]) = set (rows @ [row])" for d using k by (subst reservoir_fill) auto
    with snoc.prems k show ?thesis by (simp add: add.commute nat_add_distrib)
  next
    case True
    have same: "reservoir k (d(?n + 1 := j)) rows = reservoir k d rows" for d j
      by (rule reservoir_cong) simp
    have len: "int (length (ss_sampled (reservoir k d rows))) = k" for d
      using True assms(1) by (simp add: reservoir_length)
    have sub: "mset (ss_sampled (reservoir k d rows)) \<subseteq># mset rows" if "d \<in> draws k ?n" for d
      by (rule reservoir_in) (use that assms(1) in \<open>auto simp: draws_def PiE_def Pi_def\<close>)
    have step: "?S (d(?n + 1 := j)) (rows @ [row])
        = set (if j \<le> k then (ss_sampled (reservoir k d rows))[nat (j - 1) := row] else ss_sampled (reservoir k d rows))" for d j
      using len [of d] by (simp add: reservoir_snoc reservoir_step_def Let_def same)
    have total: "card (draws k (?n + 1)) = (length rows + 1) * card (draws k ?n)"
    proof -
      have "{j \<in> {1..?n + 1}. True} = {1..?n + 1}" by auto
      then have "card {j \<in> {1..?n + 1}. True} = length rows + 1" by (simp add: nat_add_distrib)
      moreover have "{d \<in> draws k (?n + 1). True} = draws k (?n + 1)" by simp
      ultimately show ?thesis
        using count_draws [OF True, of "\<lambda>_. True"] by (simp only: sum_constant mult.commute) simp
    qed
    show ?thesis
    proof (cases "x = row")
      case x: True
      have new: "row \<notin> set (ss_sampled (reservoir k d rows))" if "d \<in> draws k ?n" for d
        using set_mset_mono [OF sub [OF that]] snoc.prems by auto
      have "card {d \<in> draws k (?n + 1). x \<in> ?S d (rows @ [row])} = (\<Sum>d\<in>draws k ?n. nat k)"
        unfolding count_draws [OF True] step x
        by (rule sum.cong [OF refl]) (rule count_new [OF len assms(1) True new])
      then show ?thesis using total by (simp add: add.commute algebra_simps)
    next
      case x: False
      with snoc.prems have x_in: "x \<in> set rows" by simp
      have dist: "distinct (ss_sampled (reservoir k d rows))" if "d \<in> draws k ?n" for d
        using sub [OF that] snoc.prems(2) by (simp add: distinct_of_sub)
      have "card {d \<in> draws k (?n + 1). x \<in> ?S d (rows @ [row])} = (\<Sum>d\<in>draws k ?n. if x \<in> ?S d rows then length rows else 0)"
        unfolding count_draws [OF True] step
        by (rule sum.cong [OF refl]) (subst count_keep [OF dist len True x], simp_all)
      also have "\<dots> = card {d \<in> draws k ?n. x \<in> ?S d rows} * length rows"
        by (simp add: sum.If_cases Int_def)
      also have "\<dots> = nat k * card (draws k ?n)"
        using snoc.IH [OF True _ x_in] snoc.prems by simp
      finally show ?thesis using total by (simp add: add.commute algebra_simps)
    qed
  qed
qed simp

text \<open>
  C3. The random subset is uniform: if the data rows are distinct and there are at least as
  many as asked for, then every one of them is in the subset for the same share of all possible
  sequences of random numbers, namely the size of the subset over the number of rows.
\<close>

theorem random_subset_uniform:
  assumes "sa_mode a = Random" and "0 < sa_size a" and "sa_max_lines a = None" and "input \<noteq> []"
    and "distinct (data_rows a input)" and "sa_size a \<le> int (length (data_rows a input))"
    and "x \<in> set (data_rows a input)"
  shows "card {d \<in> draws (sa_size a) (int (length (data_rows a input))).
        \<exists>r. make_subset a d (Some input) = Some r \<and> x \<in> set (sr_rows r)} * length (data_rows a input)
    = nat (sa_size a) * card (draws (sa_size a) (int (length (data_rows a input))))
    \<and> 0 < card (draws (sa_size a) (int (length (data_rows a input))))"
proof -
  have "(\<exists>r. make_subset a d (Some input) = Some r \<and> x \<in> set (sr_rows r))
      \<longleftrightarrow> x \<in> set (ss_sampled (reservoir (sa_size a) d (data_rows a input)))" for d
    by (simp add: make_subset_random [OF assms(1-4)])
  moreover have "draws (sa_size a) n \<noteq> {}" for n
    using assms(2) by (auto simp: draws_def PiE_eq_empty_iff)
  ultimately show ?thesis using reservoir_uniform [OF assms(2,6,5,7)] by (simp add: card_gt_0_iff)
qed

theorem random_subset_uniform_witness:
  "card {d \<in> draws 1 2. \<exists>r. make_subset \<lparr>sa_size = 1, sa_mode = Random, sa_max_lines = None, sa_no_header = True\<rparr> d
      (Some [[''1''], [''2'']]) = Some r \<and> [''1''] \<in> set (sr_rows r)} * 2 = card (draws 1 2)"
proof -
  let ?a = "\<lparr>sa_size = 1, sa_mode = Random, sa_max_lines = None, sa_no_header = True\<rparr>"
  have "data_rows ?a [[''1''], [''2'']] = [[''1''], [''2'']]" by (simp add: data_rows_def first_is_header_def)
  with random_subset_uniform [of ?a "[[''1''], [''2'']]" "[''1'']"] show ?thesis by simp
qed

end
