(* ===== verification/Pipeline.thy ===== *)
theory Pipeline
  imports Runner Aggregate
begin

text \<open>
  From the runner to the aggregation: the execution summary as the JSON document that
  \<open>write_summary\<close> of \<open>run_suite.py\<close> leaves in the directory of manifests, and what
  \<open>load_execution_summary_index\<close> and the main loop of \<open>aggregate_results.py\<close> make of it.

  The document is written with sorted keys. The time stamp is a parameter.
\<close>

section \<open>The document\<close>

fun status_text :: "case_status \<Rightarrow> string" where
  "status_text Planned = ''planned''"
| "status_text Pending = ''pending''"
| "status_text Ok = ''ok''"
| "status_text Failed = ''failed''"

definition opt_member :: "string \<Rightarrow> json option \<Rightarrow> (string \<times> json) list" where
  "opt_member k v = (case v of None \<Rightarrow> [] | Some x \<Rightarrow> [(k, x)])"

definition case_json :: "case_result \<Rightarrow> json" where
  "case_json r = JObj ([
     (''case_index'', JInt (int (cr_case_index r))),
     (''command'', JList (map JStr (cr_command r))),
     (''experiments'', JList (cr_experiments r)),
     (''log_path'', JStr (cr_log_path r))]
   @ opt_member ''return_code'' (map_option JInt (cr_return_code r)) @ [
     (''run_id'', JStr (cr_run_id r)),
     (''status'', JStr (status_text (cr_status r)))])"

definition summary_json :: "string \<Rightarrow> exec_summary \<Rightarrow> json" where
  "summary_json now s = JObj ([
     (''benchmark_version'', x_benchmark_version s),
     (''binary'', JStr (x_binary s)),
     (''cases'', JList (map case_json (x_cases s))),
     (''dry_run'', JBool (x_dry_run s)),
     (''failed'', JInt (int (x_failed s)))]
   @ opt_member ''failed_case_index'' (map_option (JInt \<circ> int) (x_failed_case_index s))
   @ opt_member ''failed_run_id'' (map_option JStr (x_failed_run_id s)) @ [
     (''generated_at_utc'', JStr now),
     (''ok'', JInt (int (x_ok s))),
     (''planned_only'', JInt (int (x_planned_only s)))]
   @ opt_member ''stopped_early'' (if x_stopped_early s then Some (JBool True) else None) @ [
     (''suite_id'', x_suite_id s),
     (''summary_schema_version'', JStr ''suite-run.v1''),
     (''total_cases'', JInt (int (x_total_cases s)))])"

text \<open>What is read of it.\<close>

lemma map_of_opt_member [simp]:
  "k \<noteq> k' \<Longrightarrow> map_of (opt_member k v @ kvs) k' = map_of kvs k'"
  by (simp add: opt_member_def split: option.split)

lemma case_json_members [simp]:
  "py_get (case_json r) ''run_id'' d = (Inr (JStr (cr_run_id r)) :: json ires)"
  "py_get (case_json r) ''experiments'' d = (Inr (JList (cr_experiments r)) :: json ires)"
  "py_get (case_json r) ''status'' d = (Inr (JStr (status_text (cr_status r))) :: json ires)"
  "py_get (case_json r) ''log_path'' d = (Inr (JStr (cr_log_path r)) :: json ires)"
  by (simp_all add: case_json_def dget_def del: map_of_append)

definition result_meta :: "string \<Rightarrow> case_result \<Rightarrow> exec_meta" where
  "result_meta path r = \<lparr>em_experiments = cr_experiments r, em_status = JStr (status_text (cr_status r)),
     em_log_path = JStr (cr_log_path r), em_summary_path = path\<rparr>"

lemma index_case_json:
  "cr_run_id r \<noteq> [] \<Longrightarrow> index_case path (JStr sid) (case_json r) out
     = Inr (AList.update (JStr sid, JStr (cr_run_id r)) (result_meta path r) out)"
  by (simp add: index_case_def result_meta_def)

lemma index_cases_json:
  assumes "\<forall>r\<in>set rs. cr_run_id r \<noteq> []" and "distinct (map cr_run_id rs)"
  shows "\<exists>out'. fold_res (index_case path (JStr sid)) (map case_json rs) out = Inr out'
    \<and> (\<forall>r\<in>set rs. map_of out' (JStr sid, JStr (cr_run_id r)) = Some (result_meta path r))
    \<and> (\<forall>k. k \<notin> (\<lambda>r. (JStr sid, JStr (cr_run_id r))) ` set rs \<longrightarrow> map_of out' k = map_of out k)"
  using assms
proof (induction rs arbitrary: out)
  case (Cons r rs)
  let ?out = "AList.update (JStr sid, JStr (cr_run_id r)) (result_meta path r) out"
  from Cons.IH [of ?out] Cons.prems obtain out' where out': "fold_res (index_case path (JStr sid)) (map case_json rs) ?out = Inr out'"
    "\<forall>r\<in>set rs. map_of out' (JStr sid, JStr (cr_run_id r)) = Some (result_meta path r)"
    "\<forall>k. k \<notin> (\<lambda>r. (JStr sid, JStr (cr_run_id r))) ` set rs \<longrightarrow> map_of out' k = map_of ?out k" by auto
  moreover have "(JStr sid, JStr (cr_run_id r)) \<notin> (\<lambda>r. (JStr sid, JStr (cr_run_id r))) ` set rs"
    using Cons.prems(2) by auto
  ultimately show ?case using Cons.prems(1)
    by (intro exI [of _ out']) (auto simp: index_case_json update_conv')
qed simp

lemma summary_json_members:
  "summary_json now s = JObj kvs \<Longrightarrow> dget kvs ''suite_id'' d = x_suite_id s"
  "summary_json now s = JObj kvs \<Longrightarrow> dget kvs ''cases'' d = JList (map case_json (x_cases s))"
  by (auto simp: summary_json_def dget_def simp del: map_of_append)

lemma index_summary_json:
  assumes "x_suite_id s = JStr sid" and "sid \<noteq> []"
    and "\<forall>r\<in>set (x_cases s). cr_run_id r \<noteq> []" and "distinct (map cr_run_id (x_cases s))"
  shows "\<exists>out'. index_summary (path, Some (summary_json now s)) out = Inr out'
    \<and> (\<forall>r\<in>set (x_cases s). map_of out' (JStr sid, JStr (cr_run_id r)) = Some (result_meta path r))"
proof -
  obtain kvs where kvs: "summary_json now s = JObj kvs" by (simp add: summary_json_def)
  from summary_json_members [OF kvs] assms(1,2)
  have "index_summary (path, Some (summary_json now s)) out
      = fold_res (index_case path (JStr sid)) (map case_json (x_cases s)) out"
    by (simp add: kvs index_summary_def)
  with index_cases_json [OF assms(3,4)] show ?thesis by metis
qed

text \<open>A summary of another suite does not touch the entries of this one.\<close>

definition of_suite :: "json \<Rightarrow> json_file \<Rightarrow> bool" where
  "of_suite v file \<longleftrightarrow> (\<exists>p kvs. file = (p, Some (JObj kvs)) \<and> dget kvs ''suite_id'' (JStr []) = v)"

lemma index_case_other:
  assumes "index_case path v c out = Inr out'" and "v \<noteq> JStr sid"
  shows "map_of out' (JStr sid, k) = map_of out (JStr sid, k)"
  using assms by (auto simp: index_case_def res_simps update_conv' split: if_splits)

lemma index_cases_other:
  "fold_res (index_case path v) cs out = Inr out' \<Longrightarrow> v \<noteq> JStr sid
     \<Longrightarrow> map_of out' (JStr sid, k) = map_of out (JStr sid, k)"
  by (induction cs arbitrary: out) (auto simp: res_simps dest: index_case_other)

lemma index_summary_other:
  assumes "index_summary file out = Inr out'" and "\<not> of_suite (JStr sid) file"
  shows "map_of out' (JStr sid, k) = map_of out (JStr sid, k)"
  using assms
  by (auto simp: index_summary_def of_suite_def Let_def res_simps
      split: prod.splits option.splits json.splits if_splits intro: index_cases_other)

lemma index_summaries_other:
  "fold_res index_summary files out = Inr out' \<Longrightarrow> \<forall>f\<in>set files. \<not> of_suite (JStr sid) f
     \<Longrightarrow> map_of out' (JStr sid, k) = map_of out (JStr sid, k)"
  by (induction files arbitrary: out) (auto simp: res_simps dest: index_summary_other)


section \<open>From the plan to the enriched metrics\<close>

text \<open>Joined ids are strings, so sorting kept them.\<close>

lemma sorted_ids_set:
  assumes "sorted_ids ids = Inr (map JStr names)"
  shows "set (map JStr names) = set ids"
proof -
  from assms obtain hs where hs: "map_res hash_key ids = (Inr hs :: json list ires)" by (auto simp: sorted_ids_def res_simps)
  have all: "map JStr (map (\<lambda>v. the (str_value v)) us) = us" if "list_all (\<lambda>v. str_value v \<noteq> None) us" for us
    using that by (induction us) (auto simp: str_value_def split: json.splits)
  have "set (map JStr names) = set (remdups hs)"
  proof (cases "list_all (\<lambda>v. str_value v \<noteq> None) (remdups hs)")
    case True
    with assms hs have "map JStr names = map JStr (sorted_set (map (\<lambda>v. the (str_value v)) (remdups hs)))"
      unfolding sorted_ids_def Let_def hs bind_res_simps if_P [OF True] by simp
    then have "set (map JStr names) = set (map JStr (map (\<lambda>v. the (str_value v)) (remdups hs)))"
      by (simp only: set_map sorted_set_simps(1))
    then show ?thesis unfolding all [OF True] .
  next
    case False
    with assms hs have "map JStr names = sort_key (\<lambda>v. the (num_value v)) (remdups hs) \<or> map JStr names = remdups hs"
      by (simp add: sorted_ids_def Let_def split: if_splits)
    then show ?thesis using set_sort by metis
  qed
  then have set_hs: "set hs = JStr ` set names" by simp
  have rel: "list_all2 (\<lambda>v h. hash_key v = (Inr h :: json ires)) ids hs" using hs by (simp add: map_res_Inr)
  have "\<forall>h\<in>set hs. \<exists>n. h = JStr n" using set_hs by blast
  with rel have "ids = hs"
    by (induction rule: list_all2_induct) auto
  with set_hs show ?thesis by simp
qed

lemma executed_case:
  assumes "execute_plan os v plan w = (Inr s, w')" and "c \<in> set (take (length (x_cases s)) plan)"
  shows "\<exists>res\<in>set (x_cases s). cr_run_id res = c_run_id c \<and> cr_experiments res = c_experiments c"
proof -
  from execute_planD [OF assms(1)] obtain s1 where s: "s = count_cases s1" and inv: "exec_inv v plan [] s1" by blast
  let ?n = "length (x_cases s1)"
  have n: "?n \<le> length plan" and ids: "map cr_run_id (x_cases s1) = take ?n (map c_run_id plan)"
    and exps: "map cr_experiments (x_cases s1) = take ?n (map c_experiments plan)"
    using inv by (simp_all add: exec_inv_def Let_def)
  from assms(2) s obtain i where i: "i < ?n" "c = plan ! i" by (auto simp: in_set_conv_nth)
  have "cr_run_id (x_cases s1 ! i) = c_run_id c" "cr_experiments (x_cases s1 ! i) = c_experiments c"
    using arg_cong [OF ids, of "\<lambda>l. l ! i"] arg_cong [OF exps, of "\<lambda>l. l ! i"] i n by simp_all
  with i s show ?thesis by (intro bexI [of _ "x_cases s1 ! i"]) simp_all
qed

lemma executed_ids:
  assumes "build_run_plan rp env exps = Inr plan" and "execute_plan os v plan w = (Inr s, w')"
  shows "distinct (map cr_run_id (x_cases s))" and "\<forall>r\<in>set (x_cases s). cr_run_id r \<noteq> []"
    and "py_getitem (v_suite v) ''suite_id'' = (Inr (x_suite_id s) :: json result)"
proof -
  from execute_planD [OF assms(2)] obtain s1 where s: "s = count_cases s1" and inv: "exec_inv v plan [] s1" by blast
  then have ids: "map cr_run_id (x_cases s) = take (length (x_cases s)) (map c_run_id plan)"
    by (simp add: exec_inv_def Let_def)
  with plan_case_ids(2) [OF assms(1)] show "distinct (map cr_run_id (x_cases s))" by simp
  have "cr_run_id r \<noteq> []" if "r \<in> set (x_cases s)" for r
  proof -
    from that have "cr_run_id r \<in> set (map cr_run_id (x_cases s))" by simp
    then have "cr_run_id r \<in> set (map c_run_id plan)" unfolding ids by (rule in_set_takeD)
    then obtain c where "c \<in> set plan" "cr_run_id r = c_run_id c" by auto
    with plan_case_ids(1) [OF assms(1)] sanitize_id_nonempty show ?thesis by metis
  qed
  then show "\<forall>r\<in>set (x_cases s). cr_run_id r \<noteq> []" ..
  show "py_getitem (v_suite v) ''suite_id'' = (Inr (x_suite_id s) :: json result)"
    using inv s by (simp add: exec_inv_def Let_def)
qed

lemma run_meta_recorded:
  assumes "run_meta_of rp idx specs mf row = Inr r"
    and "first_text row ''SuiteId'' = sid" and "sid \<noteq> []"
    and "first_text row ''RunId'' = run_id" and "run_id \<noteq> []"
    and "map_of idx (JStr sid, JStr run_id) = Some e" and "em_experiments e \<noteq> []"
  shows "rm_suite_id r = sid \<and> rm_run_id r = run_id \<and> rm_exec r = e
    \<and> set (map JStr (rm_experiment_ids r)) = set (em_experiments e)"
proof -
  from assms obtain ids where "sorted_ids (em_experiments e) = Inr ids" "id_strings ids = Inr (rm_experiment_ids r)"
    "rm_suite_id r = sid" "rm_run_id r = run_id" "rm_exec r = e"
    by (auto simp: run_meta_of_def meta_text_def res_simps)
  moreover from this have "ids = map JStr (rm_experiment_ids r)" using id_strings_Inr by blast
  ultimately show ?thesis using sorted_ids_set by blast
qed

text \<open>
  C6. The experiments for which a run was planned are those that its results are attributed to:
  for every case that an execution got to, the aggregation finds the entry of the case in the
  summary that the runner wrote, whatever other summaries there are, and gives the rows of its
  metrics file exactly the experiments of the case.
\<close>

theorem planned_experiments_reach_metrics:
  assumes plan: "build_run_plan rp env exps = Inr plan"
    and run: "execute_plan os v plan w = (Inr s, w')"
    and idx: "load_execution_summary_index (pre @ (path, Some (summary_json now s)) # post) = Inr idx"
    and post: "\<forall>f\<in>set post. \<not> of_suite (x_suite_id s) f"
    and c: "c \<in> set (take (length (x_cases s)) plan)"
    and row: "JStr (first_text row ''SuiteId'') = x_suite_id s" "first_text row ''SuiteId'' \<noteq> []"
      "first_text row ''RunId'' = c_run_id c"
    and meta: "run_meta_of rp idx specs mf row = Inr r"
  shows "rm_experiment_ids r \<noteq> [] \<and> set (map JStr (rm_experiment_ids r)) = set (c_experiments c)
    \<and> (\<exists>res\<in>set (x_cases s). cr_run_id res = rm_run_id r \<and> rm_exec r = result_meta path res)"
proof -
  obtain res where res: "res \<in> set (x_cases s)" "cr_run_id res = c_run_id c" "cr_experiments res = c_experiments c"
    using executed_case [OF run c] by blast
  have cs: "c_experiments c \<noteq> []" using plan_experiments_nonempty [OF plan in_set_takeD [OF c]] .
  have sid: "x_suite_id s = JStr (first_text row ''SuiteId'')" using row(1) by simp
  from idx obtain o1 o2 where o2: "index_summary (path, Some (summary_json now s)) o1 = Inr o2"
    and rest: "fold_res index_summary post o2 = Inr idx"
    by (auto simp: load_execution_summary_index_def fold_res_append res_simps)
  from index_summary_json [OF sid row(2) executed_ids(2,1) [OF plan run], of path now o1] o2 res(1)
  have "map_of o2 (JStr (first_text row ''SuiteId''), JStr (cr_run_id res)) = Some (result_meta path res)" by auto
  with index_summaries_other [OF rest, of "first_text row ''SuiteId''"] post sid res(2)
  have "map_of idx (JStr (first_text row ''SuiteId''), JStr (c_run_id c)) = Some (result_meta path res)" by simp
  moreover have "c_run_id c \<noteq> []" using executed_ids(2) [OF plan run] res(1,2) by metis
  ultimately have "rm_run_id r = c_run_id c \<and> rm_exec r = result_meta path res
      \<and> set (map JStr (rm_experiment_ids r)) = set (em_experiments (result_meta path res))"
    using run_meta_recorded [OF meta refl row(2,3)] cs res(3) by (simp add: result_meta_def)
  with res cs show ?thesis by (auto simp: result_meta_def)
qed

text \<open>A run that stops at its first case, and the metrics of that case.\<close>

definition first_row :: csv_row where
  "first_row = [(''SuiteId'', Some ''demo''), (''RunId'', Some first_run_id)]"

lemma case_res_True: "(case x of Inl e \<Rightarrow> False | Inr s \<Rightarrow> P s) \<longleftrightarrow> (\<exists>s. x = Inr s \<and> P s)"
  by (cases x) auto

theorem planned_experiments_reach_metrics_witness:
  "\<exists>s w' idx r. execute_plan (sample_os first_run_id) (sample_exec_env False) sample_plan [] = (Inr s, w')
    \<and> load_execution_summary_index [(''p'', Some (summary_json ''now'' s))] = Inr idx
    \<and> run_meta_of (\<lambda>_. []) idx [] sample_metrics_file first_row = Inr r
    \<and> set (map JStr (rm_experiment_ids r)) = {JStr ''e1'', JStr ''e2''}"
proof -
  have "(case execute_plan (sample_os first_run_id) (sample_exec_env False) sample_plan [] of
      (Inr s, w') \<Rightarrow> (case load_execution_summary_index [(''p'', Some (summary_json ''now'' s))] of
          Inr idx \<Rightarrow> (case run_meta_of (\<lambda>_. []) idx [] sample_metrics_file first_row of
              Inr r \<Rightarrow> x_suite_id s = JStr ''demo'' \<and> length (x_cases s) = 1 | Inl _ \<Rightarrow> False)
        | Inl _ \<Rightarrow> False)
    | (Inl _, _) \<Rightarrow> False)" by code_simp
  then obtain s w' idx r where s: "execute_plan (sample_os first_run_id) (sample_exec_env False) sample_plan [] = (Inr s, w')"
    and idx: "load_execution_summary_index ([] @ (''p'', Some (summary_json ''now'' s)) # []) = Inr idx"
    and r: "run_meta_of (\<lambda>_. []) idx [] sample_metrics_file first_row = Inr r"
    and m: "x_suite_id s = JStr ''demo''" "length (x_cases s) = 1"
    unfolding case_res_True case_prod_beta by (metis append_Nil prod.collapse)
  have row: "first_text first_row ''SuiteId'' = ''demo''" "first_text first_row ''RunId'' = first_run_id" by code_simp+
  have c: "hd sample_plan \<in> set (take (length (x_cases s)) sample_plan)" "c_run_id (hd sample_plan) = first_run_id"
    "c_experiments (hd sample_plan) = [JStr ''e1'', JStr ''e2'']"
    by (simp_all add: m sample_plan_def sample_case_def first_run_id_def)
  have "set (map JStr (rm_experiment_ids r)) = set (c_experiments (hd sample_plan))"
    by (rule planned_experiments_reach_metrics [OF sample_plan_built s idx _ c(1) _ _ _ r, THEN conjunct2, THEN conjunct1])
       (simp_all add: m row c)
  with s idx r c(3) show ?thesis by auto
qed

end
