(* ===== verification/Supplement.thy ===== *)
theory Supplement
  imports AnalysisFiles TaskStats
begin

text \<open>
  \<open>scripts/aggregate_results.py\<close>, the end of the program: the four supplemental CSV files with
  their dictionaries, \<open>write_rows\<close>, which takes the header from the first row and writes nothing
  when there is no row, the summary text, and the program as a whole as a function on the contents
  of the analysis directory. Numbers computed from the tasks are exact cells.
\<close>

section \<open>The rows as dictionaries\<close>

datatype out_cell = Val json | Ratio rat | Root real

type_synonym sup_row = "(string \<times> out_cell) list"

definition text_cell :: "string \<Rightarrow> out_cell" where
  "text_cell s = Val (JStr s)"

definition int_cell :: "int \<Rightarrow> out_cell" where
  "int_cell n = Val (JInt n)"

text \<open>The members that the rows of a run start with.\<close>

definition label_dict :: "run_label \<Rightarrow> sup_row" where
  "label_dict l = (case l_key l of
     (suite, run, seed, repl, num_tasks, cores, topology, balancer, work_stealing, stop_time, scheduler, workload) \<Rightarrow>
       [(''SuiteId'', text_cell suite), (''RunId'', text_cell run), (''Seed'', int_cell seed),
        (''Replication'', int_cell repl), (''NumTasks'', int_cell num_tasks), (''Cores'', int_cell cores),
        (''Topology'', Val (cell_value topology)), (''Balancer'', Val (cell_value balancer)),
        (''WorkStealing'', Val (cell_value work_stealing)), (''StopTime'', Val (JFloat stop_time)),
        (''Scheduler'', Val (cell_value scheduler)), (''Workload'', Val (cell_value workload)),
        (''ExperimentIds'', text_cell (l_experiments l))] @ map (\<lambda>(k, v). (k, int_cell v)) (l_flags l))"

definition allocation_dict :: "alloc_row \<Rightarrow> sup_row" where
  "allocation_dict r = label_dict (a_label r) @
     [(''CompletedRatioFromTasks'', Ratio (a_completed_ratio r)), (''TotalAllocatedCPU'', Ratio (a_total_alloc r)),
      (''TotalWeight'', Ratio (a_total_weight r)), (''ShareMAE'', Ratio (a_share_mae r)),
      (''ShareTV'', Ratio (a_share_tv r)), (''ProportionalJain'', Ratio (a_jain r)),
      (''WeightVsSlowdownCorr'', Root (a_slowdown_corr r)), (''WeightVsResponseCorr'', Root (a_response_corr r))]"

definition nice_dict :: "nice_row \<Rightarrow> sup_row" where
  "nice_dict r = label_dict (n_label r) @
     [(''Nice'', int_cell (n_nice r)), (''TaskCount'', int_cell (n_count r)),
      (''ObservedShare'', Ratio (n_obs_share r)), (''ExpectedWeightShare'', Ratio (n_exp_share r)),
      (''ShareDelta'', Ratio (n_share_delta r)), (''AvgResponseTime'', Ratio (n_avg_response r)),
      (''AvgWaitTime'', Ratio (n_avg_wait r)), (''AvgTurnaroundTime'', Ratio (n_avg_turnaround r)),
      (''AvgSlowdown'', Ratio (n_avg_slowdown r))]"

definition chars_dict :: "char_row \<Rightarrow> sup_row" where
  "chars_dict r = label_dict (c_label r) @
     [(''ArrivalSpan'', Ratio (c_arrival_span r)), (''InterArrivalMean'', Ratio (c_inter_arrival_mean r)),
      (''InterArrivalCV'', Root (c_inter_arrival_cv r)), (''ExecutionMean'', Ratio (c_execution_mean r)),
      (''ExecutionCV'', Root (c_execution_cv r)), (''WeightMean'', Ratio (c_weight_mean r)),
      (''WeightCV'', Root (c_weight_cv r)), (''NiceStdDev'', Root (c_nice_stddev r)),
      (''UniqueNice'', int_cell (c_unique_nice r))]"

text \<open>The flags of a metrics row are looked up by their names, with \<open>KeyError\<close> for a missing one.\<close>

definition flag_cell :: "metrics_row \<Rightarrow> string \<Rightarrow> (string \<times> out_cell) ires" where
  "flag_cell row k = (case map_of (m_flags row) k of None \<Rightarrow> Inl (KeyErr k) | Some v \<Rightarrow> Inr (k, int_cell v))"

definition fairness_dict :: "fairness_row \<Rightarrow> sup_row ires" where
  "fairness_dict r =
     (let row = f_row r in
      bind_res (map_res (flag_cell row) [''Exp1'', ''Exp2'', ''Exp3'', ''Exp4'', ''Exp5'', ''Exp6'']) (\<lambda>flags.
      Inr ([(''SuiteId'', text_cell (m_suite_id row)), (''RunId'', text_cell (m_run_id row)),
        (''Seed'', int_cell (m_seed row)), (''Replication'', int_cell (m_replication row)),
        (''NumTasks'', int_cell (m_num_tasks row)), (''Cores'', int_cell (m_cores row)),
        (''Topology'', Val (cell_value (m_topology row))), (''Balancer'', Val (cell_value (m_balancer row))),
        (''WorkStealing'', Val (cell_value (m_work_stealing row))), (''StopTime'', Val (JFloat (m_stop_time row))),
        (''Scheduler'', Val (cell_value (m_scheduler row))), (''Workload'', Val (cell_value (m_workload row))),
        (''WorkloadType'', text_cell (m_workload_type row)), (''ExperimentIds'', text_cell (m_experiment_ids row))]
       @ flags @
       [(''Throughput'', Val (JFloat (m_throughput row))), (''MeanRT'', Val (JFloat (m_mean_rt row))),
        (''ThroughputDeltaVsMLFQ'', Val (JFloat (f_throughput_delta r))),
        (''MeanRTDeltaVsMLFQ'', Val (JFloat (f_mean_rt_delta r))),
        (''ExecutionCV'', Root (f_execution_cv r)), (''InterArrivalCV'', Root (f_inter_arrival_cv r)),
        (''WeightCV'', Root (f_weight_cv r)), (''UniqueNice'', int_cell (f_unique_nice r))])))"


section \<open>Writing\<close>

datatype content = Table "out_cell list list" | Lines "string list"

text \<open>The files of the analysis directory; \<open>write_rows\<close> leaves a file as it is if there are no rows.\<close>

type_synonym files = "string \<Rightarrow> content option"

definition write_rows :: "string \<Rightarrow> sup_row list \<Rightarrow> files \<Rightarrow> files ires" where
  "write_rows name rows fs = (case rows of [] \<Rightarrow> Inr fs
     | first # _ \<Rightarrow> bind_res (write_dicts text_cell (map fst first) rows) (\<lambda>ls. Inr (fs(name \<mapsto> Table ls))))"

definition save_analysis :: "analysis_files \<Rightarrow> files \<Rightarrow> files" where
  "save_analysis a fs = fs(''metrics_enriched.csv'' \<mapsto> Table (map (map Val) (af_metrics a)),
     ''run_index.csv'' \<mapsto> Table (map (map Val) (af_index a)),
     ''quality_checks.csv'' \<mapsto> Table (map (map Val) (af_quality a)))"

definition dataset_summary :: "nat \<Rightarrow> nat \<Rightarrow> nat \<Rightarrow> nat \<Rightarrow> nat \<Rightarrow> string list" where
  "dataset_summary metrics_files task_files rows tasks quality = [
     ''Structured metrics files: '' @ dec_nat metrics_files,
     ''Structured task files: '' @ dec_nat task_files,
     ''Aggregate rows: '' @ dec_nat rows,
     ''Task rows: '' @ dec_nat tasks,
     ''Quality check rows: '' @ dec_nat quality,
     ''Generated canonical files:'', ''- metrics_enriched.csv'', ''- run_index.csv'', ''- quality_checks.csv'',
     ''Generated supplemental files:'', ''- weighted_allocation_summary.csv'', ''- nice_bucket_allocation.csv'',
     ''- workload_characteristics.csv'', ''- fairness_vs_characteristics.csv'']"

definition write_supplement :: "aggregate \<Rightarrow> analysis \<Rightarrow> files \<Rightarrow> files ires" where
  "write_supplement g an fs =
     bind_res (write_rows ''weighted_allocation_summary.csv'' (map allocation_dict (an_alloc an)) fs) (\<lambda>fs1.
     bind_res (write_rows ''nice_bucket_allocation.csv'' (map nice_dict (an_nice an)) fs1) (\<lambda>fs2.
     bind_res (write_rows ''workload_characteristics.csv'' (map chars_dict (an_chars an)) fs2) (\<lambda>fs3.
     bind_res (map_res fairness_dict (fairness_vs_chars (g_metrics g) (an_chars an))) (\<lambda>rows.
     write_rows ''fairness_vs_characteristics.csv'' rows fs3))))"

text \<open>The whole program; \<open>None\<close> if a task has a number that is not finite.\<close>

definition aggregate_program ::
  "(json \<Rightarrow> string) \<Rightarrow> exec_index \<Rightarrow> (json \<times> suite_spec) list \<Rightarrow> metrics_file list \<Rightarrow> task_file list
     \<Rightarrow> files \<Rightarrow> files ires option"
where
  "aggregate_program rp idx specs mfs tfs fs =
     (case bind_res (aggregate_metrics rp idx specs mfs) (\<lambda>g. bind_res (write_analysis g) (\<lambda>a. Inr (g, a))) of
        Inl e \<Rightarrow> Some (Inl e)
      | Inr (g, a) \<Rightarrow> map_option (\<lambda>an.
          bind_res (write_supplement g an (save_analysis a fs)) (\<lambda>fs'.
          Inr (fs'(''dataset_summary.txt'' \<mapsto> Lines (dataset_summary (length mfs) (length tfs)
            (length (g_metrics g)) (length (read_tasks tfs)) (length (g_quality g)))))))
        (analyse_tasks (g_experiments g) tfs))"


section \<open>Every row fits the first one\<close>

definition label_fields :: "string list" where
  "label_fields = [''SuiteId'', ''RunId'', ''Seed'', ''Replication'', ''NumTasks'', ''Cores'', ''Topology'',
     ''Balancer'', ''WorkStealing'', ''StopTime'', ''Scheduler'', ''Workload'', ''ExperimentIds'',
     ''Exp1'', ''Exp2'', ''Exp3'', ''Exp4'', ''Exp5'', ''Exp6'']"

text \<open>The columns of the four files, for the statements.\<close>

definition allocation_fields :: "string list" where
  "allocation_fields = label_fields @ [''CompletedRatioFromTasks'', ''TotalAllocatedCPU'', ''TotalWeight'',
     ''ShareMAE'', ''ShareTV'', ''ProportionalJain'', ''WeightVsSlowdownCorr'', ''WeightVsResponseCorr'']"

definition nice_fields :: "string list" where
  "nice_fields = label_fields @ [''Nice'', ''TaskCount'', ''ObservedShare'', ''ExpectedWeightShare'', ''ShareDelta'',
     ''AvgResponseTime'', ''AvgWaitTime'', ''AvgTurnaroundTime'', ''AvgSlowdown'']"

definition chars_fields :: "string list" where
  "chars_fields = label_fields @ [''ArrivalSpan'', ''InterArrivalMean'', ''InterArrivalCV'', ''ExecutionMean'',
     ''ExecutionCV'', ''WeightMean'', ''WeightCV'', ''NiceStdDev'', ''UniqueNice'']"

definition fairness_fields :: "string list" where
  "fairness_fields = [''SuiteId'', ''RunId'', ''Seed'', ''Replication'', ''NumTasks'', ''Cores'', ''Topology'',
     ''Balancer'', ''WorkStealing'', ''StopTime'', ''Scheduler'', ''Workload'', ''WorkloadType'', ''ExperimentIds'',
     ''Exp1'', ''Exp2'', ''Exp3'', ''Exp4'', ''Exp5'', ''Exp6'', ''Throughput'', ''MeanRT'', ''ThroughputDeltaVsMLFQ'',
     ''MeanRTDeltaVsMLFQ'', ''ExecutionCV'', ''InterArrivalCV'', ''WeightCV'', ''UniqueNice'']"

lemma flags_of_keys: "map fst (flags_of e) = [''Exp1'', ''Exp2'', ''Exp3'', ''Exp4'', ''Exp5'', ''Exp6'']"
proof -
  have "\<exists>flags. experiment_flags (map JStr ss) = Inr flags" for ss by (simp add: experiment_flags_exact)
  then obtain flags where "experiment_flags (map JStr (if e = ''none'' then [] else split_on (CHR '';'') e)) = Inr flags"
    by blast
  then have "experiment_flags (if e = ''none'' then [] else map JStr (split_on (CHR '';'') e)) = Inr flags"
    by (cases "e = ''none''") simp_all
  with experiment_flags_keys [OF this] show ?thesis unfolding flags_of_def by simp
qed

definition labelled :: "run_label \<Rightarrow> bool" where
  "labelled l \<longleftrightarrow> map fst (l_flags l) = [''Exp1'', ''Exp2'', ''Exp3'', ''Exp4'', ''Exp5'', ''Exp6'']"

lemma label_dict_fields: "labelled l \<Longrightarrow> map fst (label_dict l) = label_fields"
  by (simp add: labelled_def label_dict_def label_fields_def comp_def case_prod_unfold split: prod.split)

definition labelled_analysis :: "analysis \<Rightarrow> bool" where
  "labelled_analysis an \<longleftrightarrow> (\<forall>r\<in>set (an_alloc an). labelled (a_label r)) \<and> (\<forall>r\<in>set (an_nice an). labelled (n_label r))
     \<and> (\<forall>r\<in>set (an_chars an). labelled (c_label r))"

lemma analyse_run_labelled: "analyse_run exps run an = Some an' \<Longrightarrow> labelled_analysis an \<Longrightarrow> labelled_analysis an'"
  by (auto simp: analyse_run_def labelled_analysis_def labelled_def run_label_of_def flags_of_keys allocation_row_def
      nice_rows_def nice_row_of_def workload_row_def Let_def split: if_splits)

lemma analyse_runs_labelled: "analyse_runs exps runs an = Some an' \<Longrightarrow> labelled_analysis an \<Longrightarrow> labelled_analysis an'"
proof (induction runs arbitrary: an)
  case (Cons run runs)
  then show ?case by (auto simp: bind_eq_Some_conv dest: analyse_run_labelled)
qed simp

lemma rows_fields:
  "labelled (a_label r) \<Longrightarrow> map fst (allocation_dict r) = allocation_fields"
  "labelled (n_label r') \<Longrightarrow> map fst (nice_dict r') = nice_fields"
  "labelled (c_label r'') \<Longrightarrow> map fst (chars_dict r'') = chars_fields"
  by (simp_all add: allocation_dict_def nice_dict_def chars_dict_def label_dict_fields allocation_fields_def
      nice_fields_def chars_fields_def)

lemma fields_distinct:
  "distinct allocation_fields" "distinct nice_fields" "distinct chars_fields" "distinct fairness_fields"
  by code_simp+

text \<open>What \<open>write_rows\<close> leaves, when all rows have the same members.\<close>

definition replaced :: "string \<Rightarrow> string list \<Rightarrow> sup_row list \<Rightarrow> files \<Rightarrow> files" where
  "replaced name header rows fs =
     (if rows = [] then fs else fs(name \<mapsto> Table (map text_cell header # map (map snd) rows)))"

lemma write_rows_fits:
  assumes "\<forall>row\<in>set rows. map fst row = header" and "distinct header"
  shows "write_rows name rows fs = Inr (replaced name header rows fs)"
  using write_dicts_fits [OF assms, of text_cell] assms(1)
  by (cases rows) (simp_all add: write_rows_def replaced_def)

lemma flag_cells:
  "map fst (m_flags row) = [''Exp1'', ''Exp2'', ''Exp3'', ''Exp4'', ''Exp5'', ''Exp6'']
     \<Longrightarrow> map_res (flag_cell row) [''Exp1'', ''Exp2'', ''Exp3'', ''Exp4'', ''Exp5'', ''Exp6'']
       = Inr (map (\<lambda>(k, v). (k, int_cell v)) (m_flags row))"
proof -
  assume keys: "map fst (m_flags row) = [''Exp1'', ''Exp2'', ''Exp3'', ''Exp4'', ''Exp5'', ''Exp6'']"
  then have "distinct (map fst (m_flags row))" by simp
  then have "flag_cell row k = Inr (k, int_cell (the (map_of (m_flags row) k)))" if "k \<in> set (map fst (m_flags row))" for k
    using that by (auto simp: flag_cell_def)
  then have "map_res (flag_cell row) (map fst (m_flags row))
      = Inr (map (\<lambda>k. (k, int_cell (the (map_of (m_flags row) k)))) (map fst (m_flags row)))"
    by (rule map_res_total)
  also have "map (\<lambda>k. (k, int_cell (the (map_of (m_flags row) k)))) (map fst (m_flags row))
      = map (\<lambda>(k, v). (k, int_cell v)) (m_flags row)"
    using \<open>distinct (map fst (m_flags row))\<close> by auto
  finally show ?thesis unfolding keys .
qed

lemma fairness_dict_fits:
  assumes "map fst (m_flags (f_row r)) = [''Exp1'', ''Exp2'', ''Exp3'', ''Exp4'', ''Exp5'', ''Exp6'']"
  shows "\<exists>d. fairness_dict r = Inr d \<and> map fst d = fairness_fields"
  using flag_cells [OF assms] assms
  by (simp add: fairness_dict_def Let_def fairness_fields_def comp_def case_prod_unfold del: map_res.simps)

lemma fairness_dicts_fit:
  assumes "flags_complete g"
  shows "\<exists>rows. map_res fairness_dict (fairness_vs_chars (g_metrics g) chars) = Inr rows
    \<and> (\<forall>row\<in>set rows. map fst row = fairness_fields) \<and> length rows = length (fairness_vs_chars (g_metrics g) chars)"
proof -
  let ?fs = "fairness_vs_chars (g_metrics g) chars"
  have "map fst (m_flags (f_row r)) = [''Exp1'', ''Exp2'', ''Exp3'', ''Exp4'', ''Exp5'', ''Exp6'']" if "r \<in> set ?fs" for r
    using that assms by (auto simp: fairness_vs_chars_def fairness_row_of_def Let_def flags_complete_def)
  then obtain d where d: "\<And>r. r \<in> set ?fs \<Longrightarrow> fairness_dict r = Inr (d r) \<and> map fst (d r) = fairness_fields"
    using fairness_dict_fits by metis
  then have "map_res fairness_dict ?fs = Inr (map d ?fs)" by (intro map_res_total) simp
  with d show ?thesis by auto
qed


section \<open>The files of a run\<close>

definition supplement_names :: "string list" where
  "supplement_names = [''weighted_allocation_summary.csv'', ''nice_bucket_allocation.csv'',
     ''workload_characteristics.csv'', ''fairness_vs_characteristics.csv'']"


lemma analyse_runs_defined:
  "list_all (\<lambda>run. list_all finite_task (snd run)) runs \<Longrightarrow> \<exists>an'. analyse_runs exps runs an = Some an'"
  by (induction runs arbitrary: an) (auto simp: analyse_run_def Let_def)


text \<open>
  Without metrics and tasks the summary names four supplemental files as generated, but the
  files are those of an earlier run, or do not exist.
\<close>

theorem stale_supplement:
  "\<exists>fs' ls. aggregate_program rp idx specs [] [] fs = Some (Inr fs')
    \<and> fs' ''dataset_summary.txt'' = Some (Lines ls)
    \<and> list_all (\<lambda>name. fs' name = fs name \<and> ''- '' @ name \<in> set ls) supplement_names"
proof -
  obtain g where g: "aggregate_metrics rp idx specs [] = Inr g" "g_metrics g = []"
    by (simp add: aggregate_metrics_def aggregate_start_def)
  have tasks: "read_tasks [] = []" "tasks_by_run [] = []" by (simp_all add: read_tasks_def tasks_by_run_def group_by_def)
  have an: "analyse_tasks (g_experiments g) [] = Some \<lparr>an_alloc = [], an_nice = [], an_chars = []\<rparr>"
    by (simp add: analyse_tasks_def tasks)
  have fair: "fairness_vs_chars [] [] = []" by (simp add: fairness_vs_chars_def)
  obtain a where a: "write_analysis g = Inr a"
    using analysis_written [OF aggregate_flags_complete [OF g(1)]] by blast
  show ?thesis
    by (simp add: aggregate_program_def g an a fair write_supplement_def write_rows_def save_analysis_def tasks)
       (simp add: supplement_names_def dataset_summary_def)
qed

end
