(* ===== verification/Figures.thy ===== *)
theory Figures
  imports PyValue "HOL-Library.Sublist"
begin

text \<open>
  \<open>scripts/plot_publication_figures.py\<close>: the figures of the publication.

  The script computes little itself: it calls pandas, seaborn and matplotlib. These libraries are
  a parameter, the record \<open>library\<close>. The operations on data frames are functions that may raise;
  a drawing call is an event with the name and the arguments that the script passes, and the
  script is modelled as the sequence of its events. Whether a call raises, and whether the axes
  have a legend, may depend on the events before it. \<open>'f\<close> is the type of data frames.
\<close>

section \<open>Library calls as events\<close>

datatype 'f arg =
    Txt string | Num rat | Flag bool | Items "'f arg list" | Dict "(string \<times> 'f arg) list"
  | Frame 'f | Axes nat | Handles nat | Labels nat | Json json

type_synonym 'f kwargs = "(string \<times> 'f arg) list"

text \<open>A function of a module, a method of the current figure or of its axes, a directory, a file.\<close>

datatype 'f event =
    Call string "'f arg list" "'f kwargs"
  | OnFigure string "'f arg list" "'f kwargs"
  | OnAxes nat string "'f arg list" "'f kwargs"
  | MakeDir string
  | WriteText string string

text \<open>\<open>Fail\<close> is \<open>SystemExit\<close> with its message.\<close>

type_synonym 'a pres = "(string exn, 'a) res"

record 'f library =
  lib_import :: "string option"
  lib_exists :: "string \<Rightarrow> bool"
  lib_read :: "string \<Rightarrow> 'f pres"
  lib_rows :: "'f \<Rightarrow> json list"
  lib_set_column :: "'f \<Rightarrow> string \<Rightarrow> string list \<Rightarrow> 'f pres"
  lib_map_column :: "'f \<Rightarrow> string \<Rightarrow> (string \<times> string) list \<Rightarrow> string \<Rightarrow> 'f pres"
  lib_where :: "'f \<Rightarrow> string \<Rightarrow> string \<Rightarrow> 'f pres"
  lib_method :: "string \<Rightarrow> 'f \<Rightarrow> 'f arg list \<Rightarrow> 'f kwargs \<Rightarrow> 'f pres"
  lib_raises :: "'f event list \<Rightarrow> 'f event \<Rightarrow> string exn option"
  lib_legend :: "'f event list \<Rightarrow> nat \<Rightarrow> bool"

type_synonym 'f action = "'f event list \<Rightarrow> string exn option \<times> 'f event list"

definition emit :: "'f library \<Rightarrow> 'f event \<Rightarrow> 'f action" where
  "emit L e tr = (case lib_raises L tr e of Some x \<Rightarrow> (Some x, tr) | None \<Rightarrow> (None, tr @ [e]))"

fun steps :: "'f action list \<Rightarrow> 'f action" where
  "steps [] tr = (None, tr)"
| "steps (m # ms) tr = (case m tr of (Some x, tr') \<Rightarrow> (Some x, tr') | (None, tr') \<Rightarrow> steps ms tr')"

definition given :: "'a pres \<Rightarrow> ('a \<Rightarrow> 'f action) \<Rightarrow> 'f action" where
  "given r k tr = (case r of Inl e \<Rightarrow> (Some e, tr) | Inr x \<Rightarrow> k x tr)"

lemma given_simps [simp]: "given (Inl e) k tr = (Some e, tr)" "given (Inr y) k tr = k y tr"
  by (simp_all add: given_def)

definition call :: "'f library \<Rightarrow> string \<Rightarrow> 'f arg list \<Rightarrow> 'f kwargs \<Rightarrow> 'f action" where
  "call L name args kws = emit L (Call name args kws)"

definition on_fig :: "'f library \<Rightarrow> string \<Rightarrow> 'f arg list \<Rightarrow> 'f kwargs \<Rightarrow> 'f action" where
  "on_fig L name args kws = emit L (OnFigure name args kws)"

definition on_ax :: "'f library \<Rightarrow> nat \<Rightarrow> string \<Rightarrow> 'f arg list \<Rightarrow> 'f kwargs \<Rightarrow> 'f action" where
  "on_ax L i name args kws = emit L (OnAxes i name args kws)"

text \<open>Removing the legend of axes: only if there is one, or with an \<open>AttributeError\<close> if there is none.\<close>

definition drop_legend_if_any :: "'f library \<Rightarrow> nat \<Rightarrow> 'f action" where
  "drop_legend_if_any L i tr =
     (if lib_legend L tr i then on_ax L i ''get_legend().remove'' [] [] tr else (None, tr))"

definition drop_legend :: "'f library \<Rightarrow> nat \<Rightarrow> 'f action" where
  "drop_legend L i tr =
     (if lib_legend L tr i then on_ax L i ''get_legend().remove'' [] [] tr else (Some AttrErr, tr))"

definition texts :: "string list \<Rightarrow> 'f arg" where
  "texts ss = Items (map Txt ss)"


section \<open>Constants and helpers of the script\<close>

definition scheduler_order :: "string list" where
  "scheduler_order = [''CFS'', ''EEVDF'', ''MLFQ'', ''Stride'']"

definition fair_scheduler_order :: "string list" where
  "fair_scheduler_order = [''CFS'', ''EEVDF'', ''Stride'']"

definition workload_order :: "string list" where
  "workload_order = [''Server'', ''Desktop'', ''AlibabaTraceV2018'', ''GoogleTraceV3'']"

definition scenario_order :: "string list" where
  "scenario_order = [''SQSS-1c'', ''SQMS-4c'', ''MQMS-4c-WS-on'', ''MQMS-4c-WS-off'']"

definition palette :: "'f arg" where
  "palette = Dict [(''CFS'', Txt ''#0072B2''), (''EEVDF'', Txt ''#D55E00''), (''MLFQ'', Txt ''#009E73''),
     (''Stride'', Txt ''#CC79A7'')]"

definition scenario_label :: "(json \<Rightarrow> string) \<Rightarrow> json \<Rightarrow> string pres" where
  "scenario_label rp row =
     bind_res (py_getitem row ''Topology'') (\<lambda>t.
     bind_res (Inr (py_lower (py_strip (py_str rp t)))) (\<lambda>topology.
     bind_res (bind_res (py_getitem row ''Cores'') py_int) (\<lambda>cores.
     bind_res (py_get row ''WorkStealing'' (JStr ''na'')) (\<lambda>w.
     bind_res (Inr (py_lower (py_strip (py_str rp w)))) (\<lambda>ws.
     Inr (if topology = ''sq'' \<and> cores = 1 then ''SQSS-1c''
          else if topology = ''sq'' \<and> cores = 4 then ''SQMS-4c''
          else if topology = ''mq'' \<and> cores = 4 \<and> ws = ''on'' then ''MQMS-4c-WS-on''
          else if topology = ''mq'' \<and> cores = 4 \<and> ws = ''off'' then ''MQMS-4c-WS-off''
          else py_upper topology @ ''-'' @ dec_int cores @ ''c-'' @ ws))))))"

definition setup_style :: "'f library \<Rightarrow> 'f action" where
  "setup_style L = steps [
     call L ''sns.set_theme'' [] [(''style'', Txt ''whitegrid''), (''context'', Txt ''paper'')],
     call L ''plt.rcParams.update'' [Dict [
       (''figure.dpi'', Num 120), (''savefig.dpi'', Num 300), (''font.family'', Txt ''DejaVu Sans''),
       (''axes.titlesize'', Num 11), (''axes.labelsize'', Num 10), (''legend.fontsize'', Num 9),
       (''xtick.labelsize'', Num 9), (''ytick.labelsize'', Num 9)]] []]"

definition in_dir :: "string \<Rightarrow> string \<Rightarrow> string" where
  "in_dir d name = d @ ''/'' @ name"

definition read_csv :: "'f library \<Rightarrow> string \<Rightarrow> string \<Rightarrow> 'f pres" where
  "read_csv L dir name =
     (if lib_exists L (in_dir dir name) then lib_read L (in_dir dir name)
      else Inl (Fail (''Required file missing: '' @ in_dir dir name)))"

text \<open>The formats that are left when they are stripped, lowered, and the blank ones skipped.\<close>

definition clean_formats :: "string list \<Rightarrow> string list" where
  "clean_formats fmts = filter (\<lambda>f. f \<noteq> []) (map (\<lambda>f. py_lower (py_strip f)) fmts)"

definition save_format :: "'f library \<Rightarrow> string \<Rightarrow> string \<Rightarrow> int \<Rightarrow> string \<Rightarrow> 'f action" where
  "save_format L out stem dpi fmt =
     on_fig L ''savefig'' [Txt (in_dir out (stem @ ''.'' @ fmt))]
       ((''bbox_inches'', Txt ''tight'') #
        (if fmt \<in> set [''png'', ''jpg'', ''jpeg'', ''tif'', ''tiff''] then [(''dpi'', Num (of_int dpi))] else []))"

definition save_figure :: "'f library \<Rightarrow> string \<Rightarrow> string \<Rightarrow> string list \<Rightarrow> int \<Rightarrow> 'f action" where
  "save_figure L out stem fmts dpi = steps [
     emit L (MakeDir out),
     steps (map (save_format L out stem dpi) (clean_formats fmts)),
     call L ''plt.close'' [] []]"

definition finalize_with_top_legend :: "'f library \<Rightarrow> string \<Rightarrow> nat \<Rightarrow> int \<Rightarrow> 'f action" where
  "finalize_with_top_legend L title i ncol = steps [
     on_fig L ''suptitle'' [Txt title] [(''y'', Num 0.99)],
     on_fig L ''legend'' [Handles i, Labels i]
       [(''loc'', Txt ''upper center''), (''bbox_to_anchor'', Items [Num 0.5, Num 0.955]),
        (''ncol'', Num (of_int ncol)), (''frameon'', Flag False)],
     on_fig L ''tight_layout'' [] [(''rect'', Items [Num 0, Num 0, Num 1, Num 0.86])]]"

definition add_scenario_column :: "'f library \<Rightarrow> (json \<Rightarrow> string) \<Rightarrow> 'f \<Rightarrow> 'f pres" where
  "add_scenario_column L rp df =
     bind_res (map_res (scenario_label rp) (lib_rows L df)) (\<lambda>labels. lib_set_column L df ''Scenario'' labels)"

text \<open>The output directory, the formats and the resolution are passed through all figures.\<close>

record target =
  out_dir :: string
  out_formats :: "string list"
  out_dpi :: int

definition save :: "'f library \<Rightarrow> target \<Rightarrow> string \<Rightarrow> 'f action" where
  "save L t stem = save_figure L (out_dir t) stem (out_formats t) (out_dpi t)"

section \<open>The figures\<close>

text \<open>RQ1: one panel per workload, first the throughput, then its difference to the baseline.\<close>

definition rq1_throughput_panel :: "'f library \<Rightarrow> 'f \<Rightarrow> nat \<Rightarrow> string \<Rightarrow> 'f action" where
  "rq1_throughput_panel L m i workload = given (lib_where L m ''Workload'' workload) (\<lambda>sub. steps [
     call L ''sns.barplot'' [] [(''data'', Frame sub), (''x'', Txt ''Scenario''), (''y'', Txt ''Throughput''),
       (''hue'', Txt ''Scheduler''), (''order'', texts scenario_order), (''hue_order'', texts scheduler_order),
       (''palette'', palette), (''ci'', Num 95), (''ax'', Axes i)],
     on_ax L i ''set_title'' [Txt workload] [],
     on_ax L i ''set_xlabel'' [Txt []] [],
     on_ax L i ''set_ylabel'' [Txt ''Throughput (tasks/s)''] [],
     on_ax L i ''tick_params'' [] [(''axis'', Txt ''x''), (''rotation'', Num 20)],
     if i \<noteq> 0 then drop_legend_if_any L i else steps []])"

definition rq1_throughput :: "'f library \<Rightarrow> 'f \<Rightarrow> target \<Rightarrow> 'f action" where
  "rq1_throughput L m t = steps [
     call L ''plt.subplots'' [Num 2, Num 2] [(''figsize'', Items [Num 16, Num 10]), (''sharey'', Flag False)],
     steps (map (\<lambda>(i, w). rq1_throughput_panel L m i w) (enumerate 0 workload_order)),
     on_ax L 0 ''get_legend_handles_labels'' [] [],
     finalize_with_top_legend L ''RQ1: Throughput by Scheduler Across Workloads and Scenarios'' 0 4,
     save L t ''rq1_throughput_by_scheduler'']"

definition rq1_delta_panel :: "'f library \<Rightarrow> 'f \<Rightarrow> nat \<Rightarrow> string \<Rightarrow> 'f action" where
  "rq1_delta_panel L f i workload = given (lib_where L f ''Workload'' workload) (\<lambda>sub. steps [
     call L ''sns.barplot'' [] [(''data'', Frame sub), (''x'', Txt ''Scenario''),
       (''y'', Txt ''ThroughputDeltaVsMLFQ''), (''hue'', Txt ''Scheduler''), (''order'', texts scenario_order),
       (''hue_order'', texts fair_scheduler_order), (''palette'', palette), (''ci'', Num 95), (''ax'', Axes i)],
     on_ax L i ''axhline'' [Num 0] [(''color'', Txt ''black''), (''linewidth'', Num 1), (''alpha'', Num 0.7)],
     on_ax L i ''set_title'' [Txt workload] [],
     on_ax L i ''set_xlabel'' [Txt []] [],
     on_ax L i ''set_ylabel'' [Txt ''Throughput Delta vs MLFQ (tasks/s)''] [],
     on_ax L i ''tick_params'' [] [(''axis'', Txt ''x''), (''rotation'', Num 20)],
     if i \<noteq> 0 then drop_legend_if_any L i else steps []])"

definition rq1_delta :: "'f library \<Rightarrow> 'f \<Rightarrow> target \<Rightarrow> 'f action" where
  "rq1_delta L f t = steps [
     call L ''plt.subplots'' [Num 2, Num 2] [(''figsize'', Items [Num 16, Num 10]), (''sharey'', Flag False)],
     steps (map (\<lambda>(i, w). rq1_delta_panel L f i w) (enumerate 0 workload_order)),
     on_ax L 0 ''get_legend_handles_labels'' [] [],
     finalize_with_top_legend L ''RQ1: Throughput Gain/Loss vs MLFQ'' 0 3,
     save L t ''rq1_throughput_delta_vs_mlfq'']"

definition plot_rq1_throughput ::
  "'f library \<Rightarrow> (json \<Rightarrow> string) \<Rightarrow> 'f \<Rightarrow> 'f \<Rightarrow> target \<Rightarrow> 'f action"
where
  "plot_rq1_throughput L rp metrics fairness_chars t =
     given (add_scenario_column L rp metrics) (\<lambda>m. steps [
       rq1_throughput L m t,
       given (add_scenario_column L rp fairness_chars) (\<lambda>f. rq1_delta L f t)])"

text \<open>RQ2: a heat map per scenario, and two lines over the nice values.\<close>

definition rq2_heatmap_panel :: "'f library \<Rightarrow> 'f \<Rightarrow> nat \<Rightarrow> string \<Rightarrow> 'f action" where
  "rq2_heatmap_panel L w i scenario =
     given (bind_res (lib_where L w ''Scenario'' scenario) (\<lambda>sub.
            bind_res (lib_method L ''pivot_table'' sub [] [(''index'', Txt ''Scheduler''),
              (''columns'', Txt ''Workload''), (''values'', Txt ''WeightVsSlowdownCorr''), (''aggfunc'', Txt ''mean'')])
            (\<lambda>p. lib_method L ''reindex'' p [] [(''index'', texts scheduler_order), (''columns'', texts workload_order)])))
     (\<lambda>pivot. steps [
       call L ''sns.heatmap'' [Frame pivot] [(''cmap'', Txt ''coolwarm''), (''center'', Num 0), (''annot'', Flag True),
         (''fmt'', Txt ''.2f''), (''linewidths'', Num 0.5), (''cbar'', Flag (i = 0)), (''ax'', Axes i)],
       on_ax L i ''set_title'' [Txt scenario] [],
       on_ax L i ''set_xlabel'' [Txt []] [],
       on_ax L i ''set_ylabel'' [Txt []] []])"

definition rq2_heatmap :: "'f library \<Rightarrow> 'f \<Rightarrow> target \<Rightarrow> 'f action" where
  "rq2_heatmap L w t = steps [
     call L ''plt.subplots'' [Num 2, Num 2] [(''figsize'', Items [Num 16, Num 10])],
     steps (map (\<lambda>(i, s). rq2_heatmap_panel L w i s) (enumerate 0 scenario_order)),
     on_fig L ''suptitle'' [Txt ''RQ2: Weight-vs-Slowdown Correlation (lower is better)''] [(''y'', Num 0.99)],
     on_fig L ''tight_layout'' [] [(''rect'', Items [Num 0, Num 0, Num 1, Num 0.95])],
     save L t ''rq2_weight_slowdown_correlation_heatmap'']"

definition rq2_slowdown :: "'f library \<Rightarrow> 'f \<Rightarrow> target \<Rightarrow> 'f action" where
  "rq2_slowdown L n t = steps [
     call L ''plt.subplots'' [] [(''figsize'', Items [Num 11, Num 6])],
     call L ''sns.lineplot'' [] [(''data'', Frame n), (''x'', Txt ''Nice''), (''y'', Txt ''AvgSlowdown''),
       (''hue'', Txt ''Scheduler''), (''hue_order'', texts scheduler_order), (''palette'', palette),
       (''marker'', Txt ''o''), (''ax'', Axes 0)],
     on_ax L 0 ''set_title'' [Txt ''RQ2: Nice-Bucket Average Slowdown''] [],
     on_ax L 0 ''set_xlabel'' [Txt ''Nice Value''] [],
     on_ax L 0 ''set_ylabel'' [Txt ''Average Slowdown (Turnaround / Execution)''] [],
     on_ax L 0 ''legend'' [] [(''title'', Txt ''Scheduler''), (''frameon'', Flag False)],
     on_fig L ''tight_layout'' [] [(''rect'', Items [Num 0, Num 0, Num 1, Num 0.97])],
     save L t ''rq2_nice_bucket_slowdown'']"

definition rq2_share_delta :: "'f library \<Rightarrow> 'f \<Rightarrow> target \<Rightarrow> 'f action" where
  "rq2_share_delta L n t = steps [
     call L ''plt.subplots'' [] [(''figsize'', Items [Num 11, Num 6])],
     call L ''sns.lineplot'' [] [(''data'', Frame n), (''x'', Txt ''Nice''), (''y'', Txt ''ShareDelta''),
       (''hue'', Txt ''Scheduler''), (''hue_order'', texts scheduler_order), (''palette'', palette),
       (''marker'', Txt ''o''), (''ax'', Axes 0)],
     on_ax L 0 ''axhline'' [Num 0] [(''color'', Txt ''black''), (''linewidth'', Num 1), (''alpha'', Num 0.7)],
     on_ax L 0 ''set_title'' [Txt ''RQ2: CPU Share Calibration by Nice Bucket''] [],
     on_ax L 0 ''set_xlabel'' [Txt ''Nice Value''] [],
     on_ax L 0 ''set_ylabel'' [Txt ''Observed Share - Expected Weight Share''] [],
     on_ax L 0 ''legend'' [] [(''title'', Txt ''Scheduler''), (''frameon'', Flag False)],
     on_fig L ''tight_layout'' [] [(''rect'', Items [Num 0, Num 0, Num 1, Num 0.97])],
     save L t ''rq2_nice_bucket_share_delta'']"

definition plot_rq2_weighted_behavior ::
  "'f library \<Rightarrow> (json \<Rightarrow> string) \<Rightarrow> 'f \<Rightarrow> 'f \<Rightarrow> target \<Rightarrow> 'f action"
where
  "plot_rq2_weighted_behavior L rp weighted_alloc nice_bucket t =
     given (add_scenario_column L rp weighted_alloc) (\<lambda>w. steps [
       rq2_heatmap L w t,
       given (bind_res (lib_method L ''groupby'' nice_bucket [texts [''Scheduler'', ''Nice'']] [(''as_index'', Flag False)])
         (\<lambda>g. lib_method L ''agg'' g [] [(''AvgSlowdown'', texts [''AvgSlowdown'', ''mean'']),
            (''ShareDelta'', texts [''ShareDelta'', ''mean''])]))
       (\<lambda>n. steps [rq2_slowdown L n t, rq2_share_delta L n t])])"

text \<open>RQ3: two box plots side by side, and the completion ratio.\<close>

definition workload_type_labels :: "(string \<times> string) list" where
  "workload_type_labels = [(''synthetic'', ''Synthetic''), (''real_trace'', ''Real Trace'')]"

definition label_workload_types :: "'f library \<Rightarrow> 'f \<Rightarrow> 'f pres" where
  "label_workload_types L m = lib_map_column L m ''WorkloadType'' workload_type_labels ''WorkloadTypeLabel''"

definition rq3_boxes :: "'f library \<Rightarrow> 'f \<Rightarrow> target \<Rightarrow> 'f action" where
  "rq3_boxes L m t = steps [
     call L ''plt.subplots'' [Num 1, Num 2] [(''figsize'', Items [Num 15, Num 5])],
     call L ''sns.boxplot'' [] [(''data'', Frame m), (''x'', Txt ''Scheduler''), (''y'', Txt ''Throughput''),
       (''hue'', Txt ''WorkloadTypeLabel''), (''order'', texts scheduler_order), (''ax'', Axes 0)],
     on_ax L 0 ''set_title'' [Txt ''Throughput Distribution''] [],
     on_ax L 0 ''set_xlabel'' [Txt []] [],
     on_ax L 0 ''set_ylabel'' [Txt ''Throughput (tasks/s)''] [],
     call L ''sns.boxplot'' [] [(''data'', Frame m), (''x'', Txt ''Scheduler''), (''y'', Txt ''MeanRT''),
       (''hue'', Txt ''WorkloadTypeLabel''), (''order'', texts scheduler_order), (''ax'', Axes 1)],
     on_ax L 1 ''set_title'' [Txt ''Mean Response Time Distribution''] [],
     on_ax L 1 ''set_xlabel'' [Txt []] [],
     on_ax L 1 ''set_ylabel'' [Txt ''Mean Response Time''] [],
     on_ax L 1 ''set_yscale'' [Txt ''log''] [],
     steps (map (\<lambda>i. on_ax L i ''tick_params'' [] [(''axis'', Txt ''x''), (''rotation'', Num 20)]) [0, 1]),
     on_ax L 0 ''get_legend_handles_labels'' [] [],
     drop_legend L 0,
     drop_legend L 1,
     finalize_with_top_legend L ''RQ3: Synthetic vs Real-Trace Performance'' 0 2,
     save L t ''rq3_synthetic_vs_real'']"

definition rq3_completion :: "'f library \<Rightarrow> 'f \<Rightarrow> target \<Rightarrow> 'f action" where
  "rq3_completion L cr t = steps [
     call L ''plt.subplots'' [] [(''figsize'', Items [Num 12, Num 6])],
     call L ''sns.barplot'' [] [(''data'', Frame cr), (''x'', Txt ''Workload''), (''y'', Txt ''CompletionRatio''),
       (''hue'', Txt ''Scheduler''), (''hue_order'', texts scheduler_order), (''palette'', palette), (''ax'', Axes 0)],
     on_ax L 0 ''set_ylim'' [Num 0, Num 1.05] [],
     on_ax L 0 ''set_title'' [Txt ''RQ3: Completion Ratio by Workload and Scheduler''] [],
     on_ax L 0 ''set_xlabel'' [Txt []] [],
     on_ax L 0 ''set_ylabel'' [Txt ''Completion Ratio''] [],
     on_ax L 0 ''legend'' [] [(''title'', Txt ''Scheduler''), (''frameon'', Flag False)],
     on_fig L ''tight_layout'' [] [(''rect'', Items [Num 0, Num 0, Num 1, Num 0.97])],
     save L t ''rq3_completion_ratio'']"

definition plot_rq3_synth_vs_real :: "'f library \<Rightarrow> 'f \<Rightarrow> target \<Rightarrow> 'f action" where
  "plot_rq3_synth_vs_real L metrics t =
     given (label_workload_types L metrics) (\<lambda>m. steps [
       rq3_boxes L m t,
       given (bind_res (lib_method L ''groupby'' m [texts [''Workload'', ''Scheduler'']] [(''as_index'', Flag False)]) (\<lambda>g.
              bind_res (lib_method L ''__getitem__'' g [Txt ''CompletionRatio''] []) (\<lambda>c.
              bind_res (lib_method L ''mean'' c [] []) (\<lambda>a.
              lib_method L ''sort_values'' a [texts [''Workload'', ''Scheduler'']] []))))
       (\<lambda>cr. rq3_completion L cr t)])"

text \<open>RQ4: four scatter plots of the differences over characteristics of the workload.\<close>

definition scatter_specs :: "(string \<times> string \<times> string \<times> string) list" where
  "scatter_specs = [
     (''ExecutionCV'', ''MeanRTDeltaVsMLFQ'', ''Execution CV'', ''Mean RT Delta vs MLFQ''),
     (''InterArrivalCV'', ''MeanRTDeltaVsMLFQ'', ''Inter-arrival CV'', ''Mean RT Delta vs MLFQ''),
     (''WeightCV'', ''MeanRTDeltaVsMLFQ'', ''Weight CV'', ''Mean RT Delta vs MLFQ''),
     (''ExecutionCV'', ''ThroughputDeltaVsMLFQ'', ''Execution CV'', ''Throughput Delta vs MLFQ'')]"

fun rq4_panel :: "'f library \<Rightarrow> 'f \<Rightarrow> nat \<Rightarrow> string \<times> string \<times> string \<times> string \<Rightarrow> 'f action" where
  "rq4_panel L f i (x_col, y_col, x_label, y_label) = steps [
     call L ''sns.scatterplot'' [] [(''data'', Frame f), (''x'', Txt x_col), (''y'', Txt y_col),
       (''hue'', Txt ''Scheduler''), (''hue_order'', texts fair_scheduler_order), (''style'', Txt ''WorkloadType''),
       (''palette'', palette), (''alpha'', Num 0.8), (''s'', Num 60), (''ax'', Axes i)],
     on_ax L i ''axhline'' [Num 0] [(''color'', Txt ''black''), (''linewidth'', Num 1), (''alpha'', Num 0.7)],
     on_ax L i ''set_xlabel'' [Txt x_label] [],
     on_ax L i ''set_ylabel'' [Txt y_label] [],
     if i \<noteq> 0 then drop_legend L i else steps []]"

definition plot_rq4_characteristics :: "'f library \<Rightarrow> 'f \<Rightarrow> target \<Rightarrow> 'f action" where
  "plot_rq4_characteristics L f t = steps [
     call L ''plt.subplots'' [Num 2, Num 2] [(''figsize'', Items [Num 14, Num 10])],
     steps (map (\<lambda>(i, spec). rq4_panel L f i spec) (enumerate 0 scatter_specs)),
     on_ax L 0 ''get_legend_handles_labels'' [] [],
     finalize_with_top_legend L ''RQ4: When Fairness Helps or Hurts'' 0 4,
     save L t ''rq4_workload_characteristics_scatter'']"

text \<open>RQ5: context switches and preemptions.\<close>

definition overhead_metrics :: "string list" where
  "overhead_metrics = [''ContextSwitchesPerTask'', ''PreemptionsPerTask'']"

definition metric_label :: "(string \<times> string) list" where
  "metric_label = [(''ContextSwitchesPerTask'', ''Context Switches / Completed Task''),
     (''PreemptionsPerTask'', ''Preemptions / Completed Task'')]"

definition rq5_panel :: "'f library \<Rightarrow> 'f \<Rightarrow> nat \<Rightarrow> string \<Rightarrow> 'f action" where
  "rq5_panel L melted i metric = given (lib_where L melted ''Metric'' metric) (\<lambda>sub. steps [
     call L ''sns.barplot'' [] [(''data'', Frame sub), (''x'', Txt ''Scheduler''), (''y'', Txt ''Value''),
       (''hue'', Txt ''WorkloadTypeLabel''), (''order'', texts scheduler_order), (''ci'', Num 95), (''ax'', Axes i)],
     given (case map_of metric_label metric of Some l \<Rightarrow> Inr l | None \<Rightarrow> Inl (KeyErr metric))
       (\<lambda>l. on_ax L i ''set_title'' [Txt l] []),
     on_ax L i ''set_xlabel'' [Txt []] [],
     on_ax L i ''set_ylabel'' [Txt ''Count per Completed Task''] [],
     on_ax L i ''set_yscale'' [Txt ''log''] [],
     on_ax L i ''tick_params'' [] [(''axis'', Txt ''x''), (''rotation'', Num 20)],
     if i \<noteq> 0 then drop_legend L i else steps []])"

definition rq5_bars :: "'f library \<Rightarrow> 'f \<Rightarrow> target \<Rightarrow> 'f action" where
  "rq5_bars L melted t = steps [
     call L ''plt.subplots'' [Num 1, Num 2] [(''figsize'', Items [Num 16, Num 5])],
     steps (map (\<lambda>(i, metric). rq5_panel L melted i metric) (enumerate 0 overhead_metrics)),
     on_ax L 0 ''get_legend_handles_labels'' [] [],
     finalize_with_top_legend L ''RQ5: Scheduling Overhead'' 0 2,
     save L t ''rq5_overhead_bars'']"

definition rq5_tradeoff :: "'f library \<Rightarrow> 'f \<Rightarrow> target \<Rightarrow> 'f action" where
  "rq5_tradeoff L m t = steps [
     call L ''plt.subplots'' [] [(''figsize'', Items [Num 10, Num 7])],
     call L ''sns.scatterplot'' [] [(''data'', Frame m), (''x'', Txt ''ContextSwitchesPerTask''), (''y'', Txt ''MeanRT''),
       (''hue'', Txt ''Scheduler''), (''hue_order'', texts scheduler_order), (''style'', Txt ''Workload''),
       (''palette'', palette), (''alpha'', Num 0.75), (''s'', Num 70), (''ax'', Axes 0)],
     on_ax L 0 ''set_xscale'' [Txt ''log''] [],
     on_ax L 0 ''set_yscale'' [Txt ''log''] [],
     on_ax L 0 ''set_title'' [Txt ''RQ5: Overhead vs Latency Tradeoff''] [],
     on_ax L 0 ''set_xlabel'' [Txt ''Context Switches per Completed Task (log scale)''] [],
     on_ax L 0 ''set_ylabel'' [Txt ''Mean Response Time (log scale)''] [],
     on_ax L 0 ''legend'' [] [(''frameon'', Flag False), (''ncol'', Num 2)],
     on_fig L ''tight_layout'' [] [(''rect'', Items [Num 0, Num 0, Num 1, Num 0.97])],
     save L t ''rq5_overhead_vs_latency_tradeoff'']"

definition plot_rq5_overhead :: "'f library \<Rightarrow> 'f \<Rightarrow> target \<Rightarrow> 'f action" where
  "plot_rq5_overhead L metrics t =
     given (label_workload_types L metrics) (\<lambda>m.
     given (bind_res (lib_method L ''melt'' m [] [(''id_vars'', texts [''Scheduler'', ''WorkloadTypeLabel'']),
              (''value_vars'', texts overhead_metrics), (''var_name'', Txt ''Metric''), (''value_name'', Txt ''Value'')])
            (\<lambda>melted. lib_map_column L melted ''Metric'' metric_label ''MetricLabel''))
     (\<lambda>melted. steps [rq5_bars L melted t, rq5_tradeoff L m t]))"


section \<open>The index and the program\<close>

definition index_lines :: "string list" where
  "index_lines = [
     ''# Figure Index'',
     [],
     ''- `rq1_throughput_by_scheduler`'',
     ''- `rq1_throughput_delta_vs_mlfq`'',
     ''- `rq2_weight_slowdown_correlation_heatmap`'',
     ''- `rq2_nice_bucket_slowdown`'',
     ''- `rq2_nice_bucket_share_delta`'',
     ''- `rq3_synthetic_vs_real`'',
     ''- `rq3_completion_ratio`'',
     ''- `rq4_workload_characteristics_scatter`'',
     ''- `rq5_overhead_bars`'',
     ''- `rq5_overhead_vs_latency_tradeoff`'',
     [],
     ''Each figure is emitted in every requested format (for example, png and pdf).'']"

definition write_index :: "'f library \<Rightarrow> string \<Rightarrow> 'f action" where
  "write_index L dir = emit L (WriteText (in_dir dir ''figure_index.md'') (join [CHR 0x0A] index_lines))"

definition import_plotting_stack :: "'f library \<Rightarrow> 'f action" where
  "import_plotting_stack L tr = (case lib_import L of Some msg \<Rightarrow> (Some (Fail msg), tr) | None \<Rightarrow> (None, tr))"

text \<open>\<open>[f.strip() for f in args.formats.split(",") if f.strip()]\<close>\<close>

definition split_formats :: "string \<Rightarrow> string list" where
  "split_formats s = filter (\<lambda>f. f \<noteq> []) (map py_strip (split_on (CHR '','') s))"

definition figures_main ::
  "'f library \<Rightarrow> (json \<Rightarrow> string) \<Rightarrow> string \<Rightarrow> string \<Rightarrow> string \<Rightarrow> int \<Rightarrow> 'f action"
where
  "figures_main L rp analysis_dir output_dir formats dpi =
     (let t = \<lparr>out_dir = output_dir, out_formats = split_formats formats, out_dpi = dpi\<rparr>
      in steps [
        import_plotting_stack L,
        setup_style L,
        given (read_csv L analysis_dir ''metrics_enriched.csv'') (\<lambda>metrics.
        given (read_csv L analysis_dir ''weighted_allocation_summary.csv'') (\<lambda>weighted_alloc.
        given (read_csv L analysis_dir ''nice_bucket_allocation.csv'') (\<lambda>nice_bucket.
        given (read_csv L analysis_dir ''fairness_vs_characteristics.csv'') (\<lambda>fairness_chars. steps [
          plot_rq1_throughput L rp metrics fairness_chars t,
          plot_rq2_weighted_behavior L rp weighted_alloc nice_bucket t,
          plot_rq3_synth_vs_real L metrics t,
          plot_rq4_characteristics L fairness_chars t,
          plot_rq5_overhead L metrics t,
          write_index L output_dir]))))])"

section \<open>What an action leaves behind\<close>

text \<open>
  A projection picks the events one is interested in. An action \<open>emits\<close> a list under a projection
  if an execution leaves a prefix of the list, all of it if the action completes. The rules below
  derive this for the actions of the script, piece by piece.
\<close>

definition seen :: "('f event \<Rightarrow> 'a option) \<Rightarrow> 'f event list \<Rightarrow> 'a list" where
  "seen p evs = concat (map (\<lambda>e. case p e of None \<Rightarrow> [] | Some x \<Rightarrow> [x]) evs)"

lemma seen_simps [simp]:
  "seen p [] = []"
  "seen p (xs @ ys) = seen p xs @ seen p ys"
  "seen p [e] = (case p e of None \<Rightarrow> [] | Some x \<Rightarrow> [x])"
  by (simp_all add: seen_def)

definition emits :: "('f event \<Rightarrow> 'a option) \<Rightarrow> 'a list \<Rightarrow> 'f action \<Rightarrow> bool" where
  "emits p xs m \<longleftrightarrow> (\<forall>tr x tr'. m tr = (x, tr') \<longrightarrow>
     (\<exists>evs. tr' = tr @ evs \<and> prefix (seen p evs) xs \<and> (x = None \<longrightarrow> seen p evs = xs)))"

named_theorems emits_rules "what the actions of the script emit"

lemma emits_emit: "xs = (case p e of None \<Rightarrow> [] | Some x \<Rightarrow> [x]) \<Longrightarrow> emits p xs (emit L e)"
  unfolding emits_def emit_def by (auto split: option.splits)

lemma emits_Nil [emits_rules]: "emits p [] (steps [])"
  by (simp add: emits_def)

lemma emits_Cons:
  assumes "emits p xs m" and "emits p ys (steps ms)"
  shows "emits p (xs @ ys) (steps (m # ms))"
  unfolding emits_def
proof (intro allI impI)
  fix tr x tr'
  assume run: "steps (m # ms) tr = (x, tr')"
  obtain x1 tr1 where m: "m tr = (x1, tr1)" by force
  with assms(1) obtain e1 where e1: "tr1 = tr @ e1" "prefix (seen p e1) xs" "x1 = None \<longrightarrow> seen p e1 = xs"
    unfolding emits_def by blast
  show "\<exists>evs. tr' = tr @ evs \<and> prefix (seen p evs) (xs @ ys) \<and> (x = None \<longrightarrow> seen p evs = xs @ ys)"
  proof (cases x1)
    case None
    with run m have "steps ms tr1 = (x, tr')" by simp
    with assms(2) obtain e2 where "tr' = tr1 @ e2" "prefix (seen p e2) ys" "x = None \<longrightarrow> seen p e2 = ys"
      unfolding emits_def by blast
    with e1 None show ?thesis by (intro exI [of _ "e1 @ e2"]) simp
  next
    case (Some err)
    with run m e1 show ?thesis by (intro exI [of _ e1]) (auto intro: prefix_prefix)
  qed
qed

lemma emits_quiet: "emits p [] m \<Longrightarrow> emits p ys (steps ms) \<Longrightarrow> emits p ys (steps (m # ms))"
  using emits_Cons [of p "[]"] by simp

lemma emits_last: "emits p xs m \<Longrightarrow> emits p xs (steps [m])"
  using emits_Cons [OF _ emits_Nil] by fastforce

lemma emits_steps: "list_all (emits p []) ms \<Longrightarrow> emits p [] (steps ms)"
  by (induction ms) (auto intro: emits_Nil emits_quiet)

lemma emits_then: "emits p xs m \<Longrightarrow> list_all (emits p []) ms \<Longrightarrow> emits p xs (steps (m # ms))"
  using emits_Cons [of p xs m "[]" ms] emits_steps [of p ms] by simp

lemma emits_concat: "(\<And>x. x \<in> set xs \<Longrightarrow> emits p (f x) (m x)) \<Longrightarrow> emits p (concat (map f xs)) (steps (map m xs))"
  by (induction xs) (auto intro: emits_Nil emits_Cons)

lemma emits_quiet_loop: "(\<And>x. x \<in> set xs \<Longrightarrow> emits p [] (m x)) \<Longrightarrow> emits p [] (steps (map m xs))"
  by (rule emits_steps) (simp add: list_all_iff)

lemma emits_given: "(\<And>y. emits p xs (k y)) \<Longrightarrow> emits p xs (given r k)"
  unfolding emits_def given_def by (auto split: sum.splits)

lemma emits_if: "emits p xs m \<Longrightarrow> emits p xs n \<Longrightarrow> emits p xs (if b then m else n)"
  by simp

text \<open>The files that are written, and the figures that are opened and closed.\<close>

fun produced :: "'f event \<Rightarrow> (string + string \<times> string) option" where
  "produced (OnFigure n args kws) = (if n = ''savefig'' then (case args of [Txt p] \<Rightarrow> Some (Inl p) | _ \<Rightarrow> None) else None)"
| "produced (WriteText p t) = Some (Inr (p, t))"
| "produced _ = None"

fun figure_mark :: "'f event \<Rightarrow> bool option" where
  "figure_mark (Call n args kws) =
     (if n = ''plt.subplots'' then Some True else if n = ''plt.close'' then Some False else None)"
| "figure_mark _ = None"

lemma emits_calls:
  "emits produced [] (call L n args kws)"
  "emits produced [] (on_ax L i n args kws)"
  "n \<noteq> ''savefig'' \<Longrightarrow> emits produced [] (on_fig L n args kws)"
  "emits figure_mark [] (on_ax L i n args kws)"
  "emits figure_mark [] (on_fig L n args kws)"
  "n \<noteq> ''plt.subplots'' \<Longrightarrow> n \<noteq> ''plt.close'' \<Longrightarrow> emits figure_mark [] (call L n args kws)"
  "emits figure_mark [True] (call L ''plt.subplots'' args kws)"
  "emits figure_mark [False] (call L ''plt.close'' args kws)"
  by (simp_all add: call_def on_ax_def on_fig_def emits_emit)

lemma emits_legends:
  "emits produced [] (drop_legend_if_any L i)" "emits produced [] (drop_legend L i)"
  "emits figure_mark [] (drop_legend_if_any L i)" "emits figure_mark [] (drop_legend L i)"
  using emits_calls(2,4) [of L i "''get_legend().remove''" "[]" "[]"]
  by (auto simp: emits_def drop_legend_if_any_def drop_legend_def)

lemma emits_top_legend:
  "emits produced [] (finalize_with_top_legend L title i n)"
  "emits figure_mark [] (finalize_with_top_legend L title i n)"
  unfolding finalize_with_top_legend_def by (rule emits_steps; simp add: emits_calls)+

definition stem_files :: "target \<Rightarrow> string \<Rightarrow> (string + string \<times> string) list" where
  "stem_files t stem = map (\<lambda>f. Inl (in_dir (out_dir t) (stem @ ''.'' @ f))) (clean_formats (out_formats t))"

lemma emits_save:
  "emits produced (stem_files t stem) (save L t stem)"
  "emits figure_mark [False] (save L t stem)"
proof -
  have "emits produced [Inl (in_dir d (stem @ ''.'' @ f))] (save_format L d stem dpi f)" for d dpi f
    by (simp add: save_format_def on_fig_def emits_emit)
  then have "emits produced (concat (map (\<lambda>f. [Inl (in_dir d (stem @ ''.'' @ f))]) fs)) (steps (map (save_format L d stem dpi) fs))" for d dpi fs
    by (rule emits_concat)
  then have "emits produced (map (\<lambda>f. Inl (in_dir d (stem @ ''.'' @ f))) fs) (steps (map (save_format L d stem dpi) fs))" for d dpi fs
    by (simp add: concat_map_singleton)
  then show "emits produced (stem_files t stem) (save L t stem)"
    unfolding save_def save_figure_def stem_files_def
    by (intro emits_quiet [OF emits_emit] emits_then) (simp_all add: emits_calls)
  show "emits figure_mark [False] (save L t stem)"
    unfolding save_def save_figure_def
    by (intro emits_quiet emits_last emits_calls(8) emits_quiet_loop)
       (simp_all add: emits_emit save_format_def emits_calls)
qed

lemmas quiet_simps = emits_calls emits_legends emits_top_legend emits_if emits_Nil

text \<open>Panels write nothing and open no figure.\<close>

lemma emits_panels:
  "emits produced [] (rq1_throughput_panel L m i w)" "emits figure_mark [] (rq1_throughput_panel L m i w)"
  "emits produced [] (rq1_delta_panel L m i w)" "emits figure_mark [] (rq1_delta_panel L m i w)"
  "emits produced [] (rq2_heatmap_panel L m i w)" "emits figure_mark [] (rq2_heatmap_panel L m i w)"
  "emits produced [] (rq4_panel L m i spec)" "emits figure_mark [] (rq4_panel L m i spec)"
  "emits produced [] (rq5_panel L m i w)" "emits figure_mark [] (rq5_panel L m i w)"
  unfolding rq1_throughput_panel_def rq1_delta_panel_def rq2_heatmap_panel_def rq5_panel_def
  by (cases spec; (rule emits_given)?; simp add: quiet_simps emits_steps emits_given)+

lemma emits_loops:
  "(\<And>i y. emits p [] (g i y)) \<Longrightarrow> emits p [] (steps (map (\<lambda>(i, y). g i y) (enumerate n xs)))"
  "(\<And>y. emits p [] (h y)) \<Longrightarrow> emits p [] (steps (map h ys))"
  by (rule emits_quiet_loop, force)+

lemma emits_open: "emits p [True] m \<Longrightarrow> emits p [False] (steps ms) \<Longrightarrow> emits p [True, False] (steps (m # ms))"
  using emits_Cons [of p "[True]" m "[False]"] by simp

text \<open>Every figure writes the files of its name, and is opened and closed once.\<close>

lemma emits_figures:
  "emits produced (stem_files t ''rq1_throughput_by_scheduler'') (rq1_throughput L m t)"
  "emits produced (stem_files t ''rq1_throughput_delta_vs_mlfq'') (rq1_delta L m t)"
  "emits produced (stem_files t ''rq2_weight_slowdown_correlation_heatmap'') (rq2_heatmap L m t)"
  "emits produced (stem_files t ''rq2_nice_bucket_slowdown'') (rq2_slowdown L m t)"
  "emits produced (stem_files t ''rq2_nice_bucket_share_delta'') (rq2_share_delta L m t)"
  "emits produced (stem_files t ''rq3_synthetic_vs_real'') (rq3_boxes L m t)"
  "emits produced (stem_files t ''rq3_completion_ratio'') (rq3_completion L m t)"
  "emits produced (stem_files t ''rq4_workload_characteristics_scatter'') (plot_rq4_characteristics L m t)"
  "emits produced (stem_files t ''rq5_overhead_bars'') (rq5_bars L m t)"
  "emits produced (stem_files t ''rq5_overhead_vs_latency_tradeoff'') (rq5_tradeoff L m t)"
  unfolding rq1_throughput_def rq1_delta_def rq2_heatmap_def rq2_slowdown_def rq2_share_delta_def
    rq3_boxes_def rq3_completion_def plot_rq4_characteristics_def rq5_bars_def rq5_tradeoff_def
  by ((rule emits_quiet, simp add: quiet_simps emits_panels emits_loops emits_steps)+,
      rule emits_last, rule emits_save(1))+

lemma marks_figures:
  "emits figure_mark [True, False] (rq1_throughput L m t)"
  "emits figure_mark [True, False] (rq1_delta L m t)"
  "emits figure_mark [True, False] (rq2_heatmap L m t)"
  "emits figure_mark [True, False] (rq2_slowdown L m t)"
  "emits figure_mark [True, False] (rq2_share_delta L m t)"
  "emits figure_mark [True, False] (rq3_boxes L m t)"
  "emits figure_mark [True, False] (rq3_completion L m t)"
  "emits figure_mark [True, False] (plot_rq4_characteristics L m t)"
  "emits figure_mark [True, False] (rq5_bars L m t)"
  "emits figure_mark [True, False] (rq5_tradeoff L m t)"
  unfolding rq1_throughput_def rq1_delta_def rq2_heatmap_def rq2_slowdown_def rq2_share_delta_def
    rq3_boxes_def rq3_completion_def plot_rq4_characteristics_def rq5_bars_def rq5_tradeoff_def
  by (rule emits_open, rule emits_calls(7),
      (rule emits_quiet, simp add: quiet_simps emits_panels emits_loops emits_steps)+,
      rule emits_last, rule emits_save(2))+

section \<open>The output of the script\<close>

text \<open>The figures by name, as the index lists them.\<close>

definition figure_stems :: "string list" where
  "figure_stems = [''rq1_throughput_by_scheduler'', ''rq1_throughput_delta_vs_mlfq'',
     ''rq2_weight_slowdown_correlation_heatmap'', ''rq2_nice_bucket_slowdown'', ''rq2_nice_bucket_share_delta'',
     ''rq3_synthetic_vs_real'', ''rq3_completion_ratio'', ''rq4_workload_characteristics_scatter'',
     ''rq5_overhead_bars'', ''rq5_overhead_vs_latency_tradeoff'']"

definition index_text :: "string list \<Rightarrow> string" where
  "index_text stems = join [CHR 0x0A] ([''# Figure Index'', []] @ map (\<lambda>s. ''- `'' @ s @ ''`'') stems
     @ [[], ''Each figure is emitted in every requested format (for example, png and pdf).''])"

lemma index_lines_text: "join [CHR 0x0A] index_lines = index_text figure_stems"
  by (simp add: index_lines_def index_text_def figure_stems_def)

lemma emits_setup:
  "emits produced [] (setup_style L)" "emits figure_mark [] (setup_style L)"
  "emits p [] (import_plotting_stack L)"
  unfolding setup_style_def
  by (simp_all add: emits_steps emits_calls) (simp add: emits_def import_plotting_stack_def split: option.split)

lemma emits_plots:
  "emits produced (concat (map (stem_files t) (take 2 figure_stems))) (plot_rq1_throughput L rp m f t)"
  "emits produced (concat (map (stem_files t) (take 3 (drop 2 figure_stems)))) (plot_rq2_weighted_behavior L rp w n t)"
  "emits produced (concat (map (stem_files t) (take 2 (drop 5 figure_stems)))) (plot_rq3_synth_vs_real L m t)"
  "emits produced (concat (map (stem_files t) (take 1 (drop 7 figure_stems)))) (plot_rq4_characteristics L f t)"
  "emits produced (concat (map (stem_files t) (drop 8 figure_stems))) (plot_rq5_overhead L m t)"
  unfolding figure_stems_def plot_rq1_throughput_def plot_rq2_weighted_behavior_def plot_rq3_synth_vs_real_def
    plot_rq5_overhead_def
  by (simp_all) (intro emits_given emits_Cons emits_last emits_figures)+

lemma marks_plots:
  "emits figure_mark (concat (replicate 2 [True, False])) (plot_rq1_throughput L rp m f t)"
  "emits figure_mark (concat (replicate 3 [True, False])) (plot_rq2_weighted_behavior L rp w n t)"
  "emits figure_mark (concat (replicate 2 [True, False])) (plot_rq3_synth_vs_real L m t)"
  "emits figure_mark (concat (replicate 2 [True, False])) (plot_rq5_overhead L m t)"
proof -
  have eq: "concat (replicate 2 [True, False]) = [True, False] @ [True, False]"
    "concat (replicate 3 [True, False]) = [True, False] @ [True, False] @ [True, False]"
    by (simp_all add: numeral_2_eq_2 numeral_3_eq_3)
  show "emits figure_mark (concat (replicate 2 [True, False])) (plot_rq1_throughput L rp m f t)"
    "emits figure_mark (concat (replicate 3 [True, False])) (plot_rq2_weighted_behavior L rp w n t)"
    "emits figure_mark (concat (replicate 2 [True, False])) (plot_rq3_synth_vs_real L m t)"
    "emits figure_mark (concat (replicate 2 [True, False])) (plot_rq5_overhead L m t)"
    unfolding eq plot_rq1_throughput_def plot_rq2_weighted_behavior_def plot_rq3_synth_vs_real_def plot_rq5_overhead_def
    by (intro emits_given emits_Cons emits_last marks_figures)+
qed

definition main_output :: "string \<Rightarrow> string \<Rightarrow> (string + string \<times> string) list" where
  "main_output dir formats =
     concat (map (stem_files \<lparr>out_dir = dir, out_formats = split_formats formats, out_dpi = 0\<rparr>) figure_stems)
     @ [Inr (in_dir dir ''figure_index.md'', index_text figure_stems)]"

lemma emits_main:
  "emits produced (main_output dir formats) (figures_main L rp adir dir formats dpi)"
  "emits figure_mark (concat (replicate 10 [True, False])) (figures_main L rp adir dir formats dpi)"
proof -
  let ?t = "\<lparr>out_dir = dir, out_formats = split_formats formats, out_dpi = dpi\<rparr>"
  have files: "stem_files \<lparr>out_dir = dir, out_formats = split_formats formats, out_dpi = 0\<rparr> = stem_files ?t"
    by (simp add: stem_files_def fun_eq_iff)
  have out: "main_output dir formats =
      concat (map (stem_files ?t) (take 2 figure_stems)) @ concat (map (stem_files ?t) (take 3 (drop 2 figure_stems)))
      @ concat (map (stem_files ?t) (take 2 (drop 5 figure_stems))) @ concat (map (stem_files ?t) (take 1 (drop 7 figure_stems)))
      @ concat (map (stem_files ?t) (drop 8 figure_stems))
      @ [Inr (in_dir dir ''figure_index.md'', index_text figure_stems)]"
    by (simp add: main_output_def files figure_stems_def)
  have index: "emits produced [Inr (in_dir dir ''figure_index.md'', index_text figure_stems)] (write_index L dir)"
    "emits figure_mark [] (write_index L dir)"
    by (simp_all add: write_index_def emits_emit index_lines_text)
  show "emits produced (main_output dir formats) (figures_main L rp adir dir formats dpi)"
    unfolding out figures_main_def Let_def
    by (intro emits_quiet [OF emits_setup(3)] emits_quiet [OF emits_setup(1)] emits_last emits_given
        emits_Cons emits_plots index)
  have ten: "concat (replicate 10 [True, False]) = concat (replicate 2 [True, False]) @ concat (replicate 3 [True, False])
      @ concat (replicate 2 [True, False]) @ [True, False] @ concat (replicate 2 [True, False]) @ []"
    by code_simp
  show "emits figure_mark (concat (replicate 10 [True, False])) (figures_main L rp adir dir formats dpi)"
    unfolding ten figures_main_def Let_def
    by (intro emits_quiet [OF emits_setup(3)] emits_quiet [OF emits_setup(2)] emits_last emits_given
        emits_Cons marks_plots marks_figures index)
qed

text \<open>
  C31. However a run of the script ends, it has saved a prefix of the files that the index lists,
  in the order of the index and each in every cleaned format, and the index is written last and
  only if all of them are there; figures are opened and closed one after the other. When the run
  completes, exactly the ten figures of the index exist and none is left open.
\<close>

theorem figures_match_index:
  assumes "figures_main L rp analysis_dir dir formats dpi [] = (x, tr)"
  shows "prefix (seen produced tr) (main_output dir formats)
    \<and> prefix (seen figure_mark tr) (concat (replicate 10 [True, False]))
    \<and> (x = None \<longrightarrow> seen produced tr = main_output dir formats
        \<and> seen figure_mark tr = concat (replicate 10 [True, False]))"
proof -
  have run: "emits p xs (figures_main L rp analysis_dir dir formats dpi) \<Longrightarrow>
      prefix (seen p tr) xs \<and> (x = None \<longrightarrow> seen p tr = xs)" for xs :: "'b list" and p
    using assms unfolding emits_def by fastforce
  have run': "emits p xs (figures_main L rp analysis_dir dir formats dpi) \<Longrightarrow>
      prefix (seen p tr) xs \<and> (x = None \<longrightarrow> seen p tr = xs)" for xs :: "bool list" and p
    using assms unfolding emits_def by fastforce
  from run [OF emits_main(1)] run' [OF emits_main(2)] show ?thesis by blast
qed

text \<open>
  Without one of the four analysis files nothing is drawn or written: the script exits with the
  name of the first missing file.
\<close>

theorem missing_analysis_file:
  assumes "lib_import L = None" and "\<And>tr e. lib_raises L tr e = None"
    and "\<And>p. lib_exists L p \<Longrightarrow> \<exists>df. lib_read L p = Inr df"
    and "names = [''metrics_enriched.csv'', ''weighted_allocation_summary.csv'', ''nice_bucket_allocation.csv'',
      ''fairness_vs_characteristics.csv'']"
    and "find (\<lambda>n. \<not> lib_exists L (in_dir analysis_dir n)) names = Some n"
  shows "\<exists>tr. figures_main L rp analysis_dir dir formats dpi []
      = (Some (Fail (''Required file missing: '' @ in_dir analysis_dir n)), tr)
    \<and> seen produced tr = [] \<and> seen figure_mark tr = []"
proof -
  obtain tr where tr: "setup_style L [] = (None, tr)" "seen produced tr = []" "seen figure_mark tr = []"
    by (simp add: setup_style_def call_def emit_def assms(2) seen_def)
  have there: "\<exists>df. read_csv L analysis_dir k = Inr df" if "lib_exists L (in_dir analysis_dir k)" for k
    using assms(3) [OF that] that by (auto simp: read_csv_def)
  have gone: "read_csv L analysis_dir n = Inl (Fail (''Required file missing: '' @ in_dir analysis_dir n))"
    using assms(5) by (auto simp: read_csv_def find_Some_iff)
  let ?a = "''metrics_enriched.csv''" and ?b = "''weighted_allocation_summary.csv''"
    and ?c = "''nice_bucket_allocation.csv''" and ?d = "''fairness_vs_characteristics.csv''"
  have "n = ?a \<or> n = ?b \<and> lib_exists L (in_dir analysis_dir ?a)
      \<or> n = ?c \<and> lib_exists L (in_dir analysis_dir ?a) \<and> lib_exists L (in_dir analysis_dir ?b)
      \<or> n = ?d \<and> lib_exists L (in_dir analysis_dir ?a) \<and> lib_exists L (in_dir analysis_dir ?b)
        \<and> lib_exists L (in_dir analysis_dir ?c)"
    using assms(5) unfolding assms(4) by (simp split: if_splits)
  then have "figures_main L rp analysis_dir dir formats dpi []
      = (Some (Fail (''Required file missing: '' @ in_dir analysis_dir n)), tr)"
    using gone there [of ?a] there [of ?b] there [of ?c] unfolding figures_main_def Let_def
    by (elim disjE conjE) (clarsimp simp: import_plotting_stack_def assms(1) tr(1) given_simps)+
  with tr show ?thesis by blast
qed

section \<open>Completion\<close>

text \<open>
  Libraries that work as documented on complete analysis files: no call raises, the columns that
  are asked for exist, and the plots with a hue have a legend.
\<close>

definition works :: "(json \<Rightarrow> string) \<Rightarrow> string \<Rightarrow> 'f library \<Rightarrow> bool" where
  "works rp adir L \<longleftrightarrow> lib_import L = None \<and> (\<forall>tr e. lib_raises L tr e = None) \<and> (\<forall>tr i. lib_legend L tr i)
     \<and> (\<forall>n\<in>set [''metrics_enriched.csv'', ''weighted_allocation_summary.csv'', ''nice_bucket_allocation.csv'',
          ''fairness_vs_characteristics.csv'']. lib_exists L (in_dir adir n) \<and> (\<exists>df. lib_read L (in_dir adir n) = Inr df))
     \<and> (\<forall>df. \<forall>row\<in>set (lib_rows L df). \<exists>l. scenario_label rp row = Inr l)
     \<and> (\<forall>df c ls. \<exists>df'. lib_set_column L df c ls = Inr df')
     \<and> (\<forall>df c m c'. \<exists>df'. lib_map_column L df c m c' = Inr df')
     \<and> (\<forall>df c v. \<exists>df'. lib_where L df c v = Inr df')
     \<and> (\<forall>n df args kws. \<exists>df'. lib_method L n df args kws = Inr df')"

definition finishes :: "'f action \<Rightarrow> bool" where
  "finishes m \<longleftrightarrow> (\<forall>tr. fst (m tr) = None)"

lemma finishes_steps_all: "list_all finishes ms \<Longrightarrow> finishes (steps ms)"
proof (induction ms)
  case (Cons m ms)
  then show ?case by (auto simp: finishes_def split: prod.split option.split) (metis fst_conv option.distinct(1))
qed (simp add: finishes_def)

lemma finishes_given: "\<exists>x. r = Inr x \<Longrightarrow> (\<And>x. finishes (k x)) \<Longrightarrow> finishes (given r k)"
  by (auto simp: finishes_def given_def)

lemma works_emit: "works rp adir L \<Longrightarrow> finishes (emit L e)"
  by (simp add: works_def finishes_def emit_def)

lemma works_calls:
  assumes "works rp adir L"
  shows "finishes (call L n args kws)" "finishes (on_fig L n args kws)" "finishes (on_ax L i n args kws)"
    "finishes (drop_legend L i)" "finishes (drop_legend_if_any L i)"
  using works_emit [OF assms] assms
  by (simp_all add: call_def on_fig_def on_ax_def) (simp_all add: finishes_def drop_legend_def drop_legend_if_any_def works_def on_ax_def emit_def)

lemma works_top_legend: "works rp adir L \<Longrightarrow> finishes (finalize_with_top_legend L title i n)"
  unfolding finalize_with_top_legend_def by (rule finishes_steps_all) (simp add: works_calls)

lemma works_save: "works rp adir L \<Longrightarrow> finishes (save L t stem)"
  unfolding save_def save_figure_def save_format_def
  by (intro finishes_steps_all) (simp add: works_calls works_emit list_all_iff finishes_steps_all)

lemma works_frames:
  assumes "works rp adir L"
  shows "\<exists>df'. lib_where L df c v = Inr df'" "\<exists>df'. lib_method L n df args kws = Inr df'"
    "\<exists>df'. label_workload_types L df = Inr df'" "\<exists>df'. lib_map_column L df c m c' = Inr df'"
    "\<exists>df'. add_scenario_column L rp df = Inr df'"
proof -
  have "\<exists>ls. map_res (scenario_label rp) rows = Inr ls" if "\<forall>row\<in>set rows. \<exists>l. scenario_label rp row = Inr l" for rows
    using that by (induction rows) auto
  then show "\<exists>df'. add_scenario_column L rp df = Inr df'"
    using assms unfolding add_scenario_column_def works_def by (metis bind_res_simps(2))
qed (use assms in \<open>simp_all add: works_def label_workload_types_def\<close>)

lemma works_methods: "works rp adir L \<Longrightarrow> \<exists>x. r = Inr x \<Longrightarrow> \<exists>y. bind_res r (\<lambda>df. lib_method L n df args kws) = Inr y"
  "works rp adir L \<Longrightarrow> \<exists>x. r = Inr x \<Longrightarrow> \<exists>y. bind_res r (\<lambda>df. lib_map_column L df c m c') = Inr y"
  using works_frames(2,4) by fastforce+

text \<open>Nested calls of methods, seen from the left.\<close>

lemma bind_res_nested: "bind_res r (\<lambda>x. bind_res (f x) g) = bind_res (bind_res r f) g"
  by (cases r) simp_all

lemmas works_rules = works_calls works_emit works_top_legend works_save works_frames finishes_given

lemma works_panels:
  assumes "works rp adir L"
  shows "finishes (rq1_throughput_panel L m i w)" "finishes (rq1_delta_panel L m i w)"
    "finishes (rq2_heatmap_panel L m i w)" "finishes (rq4_panel L m i spec)"
    "w \<in> set overhead_metrics \<Longrightarrow> finishes (rq5_panel L m i w)"
proof -
  note act = works_calls [OF assms] finishes_steps_all
  have nil: "finishes (steps [])" by (simp add: finishes_def)
  show "finishes (rq1_throughput_panel L m i w)" "finishes (rq1_delta_panel L m i w)"
    unfolding rq1_throughput_panel_def rq1_delta_panel_def
    by (rule finishes_given, rule works_frames(1) [OF assms], simp add: nil act)+
  show "finishes (rq2_heatmap_panel L m i w)"
    unfolding rq2_heatmap_panel_def bind_res_nested
    by (rule finishes_given, intro works_methods(1) [OF assms] works_frames(1) [OF assms], simp add: act)
  show "finishes (rq4_panel L m i spec)"
    by (cases spec) (simp add: nil act)
  have "\<exists>l. map_of metric_label w = Some l" if "w \<in> set overhead_metrics"
    using that by (auto simp: overhead_metrics_def metric_label_def)
  then show "finishes (rq5_panel L m i w)" if "w \<in> set overhead_metrics"
    using that unfolding rq5_panel_def
    by (intro finishes_given works_frames(1) [OF assms]) (auto simp: nil act intro!: finishes_steps_all finishes_given)
qed

lemma works_figures:
  assumes "works rp adir L"
  shows "finishes (rq1_throughput L m t)" "finishes (rq1_delta L m t)" "finishes (rq2_heatmap L m t)"
    "finishes (rq2_slowdown L m t)" "finishes (rq2_share_delta L m t)" "finishes (rq3_boxes L m t)"
    "finishes (rq3_completion L m t)" "finishes (plot_rq4_characteristics L m t)" "finishes (rq5_bars L m t)"
    "finishes (rq5_tradeoff L m t)"
proof -
  note act = works_calls [OF assms] works_top_legend [OF assms] works_save [OF assms] works_panels [OF assms]
    finishes_steps_all list_all_iff
  have loop: "finishes (steps (map (\<lambda>(i, y). g i y) (enumerate n xs)))" if "\<And>i y. y \<in> set xs \<Longrightarrow> finishes (g i y)"
    for g :: "nat \<Rightarrow> 'b \<Rightarrow> 'a action" and n xs
    using that by (intro finishes_steps_all) (auto simp: list_all_iff in_set_enumerate_eq)
  have loop': "finishes (steps (map (\<lambda>(i, y). g i y) (enumerate n xs)))" if "\<And>i y. y \<in> set xs \<Longrightarrow> finishes (g i y)"
    for g :: "nat \<Rightarrow> string \<Rightarrow> 'a action" and n xs
    using that by (intro finishes_steps_all) (auto simp: list_all_iff in_set_enumerate_eq)
  show "finishes (rq1_throughput L m t)" "finishes (rq1_delta L m t)" "finishes (rq2_heatmap L m t)"
    "finishes (rq5_bars L m t)"
    unfolding rq1_throughput_def rq1_delta_def rq2_heatmap_def rq5_bars_def
    by (rule finishes_steps_all, simp add: act(1-12) loop')+
  show "finishes (rq2_slowdown L m t)" "finishes (rq2_share_delta L m t)" "finishes (rq3_boxes L m t)"
    "finishes (rq3_completion L m t)" "finishes (rq5_tradeoff L m t)"
    unfolding rq2_slowdown_def rq2_share_delta_def rq3_boxes_def rq3_completion_def rq5_tradeoff_def
    by (rule finishes_steps_all, simp add: act)+
  show "finishes (plot_rq4_characteristics L m t)"
    unfolding plot_rq4_characteristics_def by (rule finishes_steps_all) (simp add: act(1-11) loop)
qed

lemma works_main:
  assumes "works rp adir L"
  shows "finishes (figures_main L rp adir dir formats dpi)"
proof -
  note act = works_figures [OF assms] finishes_steps_all
  have read: "\<exists>df. read_csv L adir n = Inr df"
    if "n \<in> set [''metrics_enriched.csv'', ''weighted_allocation_summary.csv'', ''nice_bucket_allocation.csv'',
      ''fairness_vs_characteristics.csv'']" for n
    using assms that unfolding works_def read_csv_def by (metis (no_types, lifting))
  have style: "finishes (setup_style L)" "finishes (import_plotting_stack L)" "finishes (write_index L dir)"
    unfolding setup_style_def write_index_def
    by (simp_all add: finishes_steps_all works_calls [OF assms] works_emit [OF assms])
       (use assms in \<open>simp add: finishes_def import_plotting_stack_def works_def\<close>)
  have "finishes (plot_rq1_throughput L rp m f t)" for m f t
    unfolding plot_rq1_throughput_def
    by (intro finishes_given works_frames(5) [OF assms]) (simp add: act finishes_given works_frames(5) [OF assms])
  moreover have "finishes (plot_rq2_weighted_behavior L rp w n t)" for w n t
    unfolding plot_rq2_weighted_behavior_def
    by (intro finishes_given works_frames(5) [OF assms])
       (simp add: act finishes_given works_methods(1) [OF assms] works_frames(2) [OF assms])
  moreover have "finishes (plot_rq3_synth_vs_real L m t)" for m t
    unfolding plot_rq3_synth_vs_real_def bind_res_nested
    by (intro finishes_given works_frames(3) [OF assms])
       (simp add: act finishes_given works_methods(1) [OF assms] works_frames(2) [OF assms])
  moreover have "finishes (plot_rq5_overhead L m t)" for m t
    unfolding plot_rq5_overhead_def
    by (intro finishes_given works_frames(3) [OF assms] works_methods(2) [OF assms] works_frames(2) [OF assms])
       (simp add: act)
  ultimately show ?thesis
    unfolding figures_main_def Let_def
    by (intro finishes_steps_all) (simp add: style act finishes_given read)
qed

text \<open>
  With libraries that work as documented, and analysis files whose rows have a topology and
  an integral number of cores, the script completes: every figure of the index is saved in every
  format, and then the index itself.
\<close>

theorem figures_complete:
  assumes "works rp analysis_dir L"
  shows "\<exists>tr. figures_main L rp analysis_dir dir formats dpi [] = (None, tr)
    \<and> seen produced tr = main_output dir formats"
proof -
  obtain tr where tr: "figures_main L rp analysis_dir dir formats dpi [] = (None, tr)"
    using works_main [OF assms] unfolding finishes_def by (metis prod.collapse)
  with emits_main(1) [of dir formats L rp analysis_dir dpi] show ?thesis unfolding emits_def by fastforce
qed

text \<open>A library that only says yes; frames are the text of what was asked for.\<close>

definition sample_library :: "string library" where
  "sample_library = \<lparr>lib_import = None, lib_exists = (\<lambda>p. True), lib_read = Inr,
     lib_rows = (\<lambda>df. [JObj [(''Topology'', JStr ''SQ''), (''Cores'', JInt 4)]]),
     lib_set_column = (\<lambda>df c ls. Inr (df @ c)), lib_map_column = (\<lambda>df c m c'. Inr (df @ c')),
     lib_where = (\<lambda>df c v. Inr (df @ v)), lib_method = (\<lambda>n df args kws. Inr (df @ n)),
     lib_raises = (\<lambda>tr e. None), lib_legend = (\<lambda>tr i. True)\<rparr>"

theorem figures_complete_witness:
  "\<exists>tr. figures_main sample_library (\<lambda>_. []) ''analysis'' ''out'' ''png, PDF'' 300 [] = (None, tr)
    \<and> seen produced tr ! 1 = Inl ''out/rq1_throughput_by_scheduler.pdf''"
proof -
  have "scenario_label (\<lambda>_. []) (JObj [(''Topology'', JStr ''SQ''), (''Cores'', JInt 4)]) = Inr ''SQMS-4c''"
    by code_simp
  then have "works (\<lambda>_. []) ''analysis'' sample_library" by (simp add: works_def sample_library_def)
  from figures_complete [OF this, of "''out''" "''png, PDF''" 300]
  obtain tr where "figures_main sample_library (\<lambda>_. []) ''analysis'' ''out'' ''png, PDF'' 300 [] = (None, tr)"
    "seen produced tr = main_output ''out'' ''png, PDF''" by blast
  moreover have "main_output ''out'' ''png, PDF'' ! 1 = Inl ''out/rq1_throughput_by_scheduler.pdf''" by code_simp
  ultimately show ?thesis by auto
qed

text \<open>The same library without the file of the fairness analysis stops before the first figure.\<close>

theorem figures_match_index_witness:
  "\<exists>x tr. figures_main (sample_library\<lparr>lib_raises := \<lambda>tr e. if length tr = 40 then Some TypeErr else None\<rparr>)
      (\<lambda>_. []) ''analysis'' ''out'' ''png'' 300 [] = (x, tr)
    \<and> prefix (seen produced tr) (main_output ''out'' ''png'')"
  using figures_match_index
    [of "sample_library\<lparr>lib_raises := \<lambda>tr e. if length tr = 40 then Some TypeErr else None\<rparr>" "\<lambda>_. []"
      "''analysis''" "''out''" "''png''" 300]
  by (metis prod.collapse)

section \<open>Scenarios that no panel shows\<close>

text \<open>
  A single queue with another number of cores than 1 or 4 has a label of its own, which is not one
  of the scenarios that the panels of RQ1 and RQ2 ask for.
\<close>

theorem unlisted_scenarios:
  assumes "scenario_label rp row = Inr label" and "(py_getitem row ''Topology'' :: json pres) = Inr (JStr ''SQ'')"
    and "(py_getitem row ''Cores'' :: json pres) = Inr (JInt n)" and "n \<noteq> 1" and "n \<noteq> 4"
  shows "label \<notin> set scenario_order"
proof -
  have sq: "py_lower (py_strip ''SQ'') = ''sq''" "py_upper ''sq'' = ''SQ''" by code_simp+
  obtain w where "label = ''SQ'' @ ''-'' @ dec_int n @ ''c-'' @ w"
    using assms(1,4,5) by (auto simp: scenario_label_def assms(2,3) bind_res_Inr sq)
  then show ?thesis by (simp add: scenario_order_def)
qed

theorem unlisted_scenarios_witness:
  "\<exists>label. scenario_label (\<lambda>_. []) (JObj [(''Topology'', JStr ''SQ''), (''Cores'', JInt 2)]) = Inr label
    \<and> label \<notin> set scenario_order"
proof -
  have "scenario_label (\<lambda>_. []) (JObj [(''Topology'', JStr ''SQ''), (''Cores'', JInt 2)]) = Inr ''SQ-2c-na''" by code_simp
  from unlisted_scenarios [OF this, of 2] this show ?thesis by simp
qed

end
