(* ===== verification/ReportLayout.thy ===== *)
theory ReportLayout
  imports Figures RunMatching
begin

text \<open>
  \<open>benchmark/report/layout.py\<close>: what the plot modules of the report share. As in \<open>Figures\<close> the
  program is the sequence of its library calls. Its data frames are also read: the record
  \<open>report_library\<close> adds the operations of pandas for this, with values as JSON values (a blank
  cell is \<open>JFloat NaN\<close>) and \<open>Inl\<close> for what they raise. A plot module also returns a value, so
  that programs here have results.
\<close>

section \<open>Frames and programs with results\<close>

record 'f report_library =
  rl_base :: "'f library"
  rl_repr :: "json \<Rightarrow> string"
  rl_empty :: "'f \<Rightarrow> bool"
  rl_columns :: "'f \<Rightarrow> string list"
  rl_no_frame :: 'f
  rl_no_rows :: "'f \<Rightarrow> 'f"
  rl_keep :: "'f \<Rightarrow> bool list \<Rightarrow> 'f"
  rl_texts :: "'f \<Rightarrow> string \<Rightarrow> string list"
  rl_equal :: "'f \<Rightarrow> string \<Rightarrow> json \<Rightarrow> bool list pres"
  rl_unique :: "'f \<Rightarrow> string \<Rightarrow> json list pres"
  rl_present :: "'f \<Rightarrow> string \<Rightarrow> json list pres"
  rl_first :: "'f \<Rightarrow> string \<Rightarrow> json pres"
  rl_numbers :: "'f \<Rightarrow> string \<Rightarrow> pyfloat list pres"
  rl_ylim :: "'f event list \<Rightarrow> nat \<Rightarrow> pyfloat \<times> pyfloat"
  rl_axes :: "'f event list \<Rightarrow> nat"
  rl_is_log :: "'f event list \<Rightarrow> nat \<Rightarrow> bool"
  rl_log_error :: "'f event list \<Rightarrow> bool"

text \<open>
  \<open>rl_texts\<close> is \<open>df[c].fillna("").astype(str)\<close>, \<open>rl_equal\<close> is \<open>df[c] == v\<close>, \<open>rl_keep\<close> is
  \<open>df[mask].copy()\<close>, \<open>rl_unique\<close> is \<open>df[c].unique()\<close>, \<open>rl_present\<close> the same after \<open>dropna()\<close>,
  \<open>rl_first\<close> is \<open>df[[..]].iloc[0][c]\<close>, \<open>rl_numbers\<close> is \<open>pd.to_numeric(df[c], errors="coerce")\<close>,
  and \<open>rl_log_error\<close> says whether the \<open>ValueError\<close> of \<open>tight_layout\<close> is about logarithmic axes.
\<close>

type_synonym ('f, 'a) prog = "'f event list \<Rightarrow> 'a pres \<times> 'f event list"

definition result :: "'f action \<Rightarrow> 'a \<Rightarrow> ('f, 'a) prog" where
  "result m v tr = (case m tr of (Some e, tr') \<Rightarrow> (Inl e, tr') | (None, tr') \<Rightarrow> (Inr v, tr'))"

definition run_then :: "('f, 'a) prog \<Rightarrow> ('a \<Rightarrow> ('f, 'b) prog) \<Rightarrow> ('f, 'b) prog" where
  "run_then p k tr = (case p tr of (Inl e, tr') \<Rightarrow> (Inl e, tr') | (Inr v, tr') \<Rightarrow> k v tr')"

definition pure :: "'a pres \<Rightarrow> ('f, 'a) prog" where
  "pure r tr = (r, tr)"

definition chain :: "'f report_library \<Rightarrow> (string \<times> 'f arg list \<times> 'f kwargs) list \<Rightarrow> 'f \<Rightarrow> 'f pres" where
  "chain R ms df = fold_res (\<lambda>(name, args, kws) f. lib_method (rl_base R) name f args kws) ms df"

definition where_eq :: "'f report_library \<Rightarrow> 'f \<Rightarrow> string \<Rightarrow> json \<Rightarrow> 'f pres" where
  "where_eq R df c v = bind_res (rl_equal R df c v) (\<lambda>mask. Inr (rl_keep R df mask))"


section \<open>Python: sorting, joining and thousands separators\<close>

fun number_of :: "json \<Rightarrow> pyfloat option" where
  "number_of (JInt n) = Some (Fin (of_int n))"
| "number_of (JBool b) = Some (Fin (if b then 1 else 0))"
| "number_of (JFloat f) = Some f"
| "number_of _ = None"

fun text_of :: "json \<Rightarrow> string option" where
  "text_of (JStr s) = Some s"
| "text_of _ = None"

text \<open>\<open>sorted(vs)\<close> of numbers or of strings; other lists with two elements raise \<open>TypeError\<close>.\<close>

definition py_sorted :: "json list \<Rightarrow> json list pres" where
  "py_sorted vs =
     (if length vs \<le> 1 then Inr vs
      else if list_all (\<lambda>v. text_of v \<noteq> None) vs then Inr (sort_key (\<lambda>v. the (text_of v)) vs)
      else if list_all (\<lambda>v. number_of v \<noteq> None) vs then Inr (sort_key (\<lambda>v. the (number_of v)) vs)
      else Inl TypeErr)"

text \<open>\<open>", ".join(vs)\<close>\<close>

definition join_values :: "json list \<Rightarrow> string pres" where
  "join_values vs = bind_res (map_res (\<lambda>v. case text_of v of Some s \<Rightarrow> Inr s | None \<Rightarrow> Inl TypeErr) vs)
     (\<lambda>ss. Inr (join '', '' ss))"

fun group_digits :: "string \<Rightarrow> string" where
  "group_digits (a # b # c # d # ds) = a # b # c # CHR '','' # group_digits (d # ds)"
| "group_digits ds = ds"

text \<open>The format \<open>{n:,}\<close>.\<close>

definition thousands :: "int \<Rightarrow> string" where
  "thousands n = (if n < 0 then ''-'' else []) @ rev (group_digits (rev (dec_nat (nat \<bar>n\<bar>))))"


section \<open>Constants\<close>

definition report_workload_order :: "string list" where
  "report_workload_order = [''Desktop'', ''Server'', ''GoogleTraceV3'', ''AlibabaTraceV2018'']"

definition exp5_variant_order :: "string list" where
  "exp5_variant_order = [''SQ-4c'', ''MQ-RR-4c-WS-on'', ''MQ-LL-4c-WS-on'', ''MQ-LL-4c-WS-off'', ''MQ-RR-4c-WS-off'']"

definition palette_colors :: "(string \<times> string) list" where
  "palette_colors = [(''CFS'', ''#0072B2''), (''EEVDF'', ''#D55E00''), (''MLFQ'', ''#009E73''), (''Stride'', ''#CC79A7'')]"

definition palette_color :: "string \<Rightarrow> string pres" where
  "palette_color s = (case map_of palette_colors s of Some c \<Rightarrow> Inr c | None \<Rightarrow> Inl (KeyErr s))"

definition report_palette :: "'f arg" where
  "report_palette = Dict (map (\<lambda>(s, c). (s, Txt c)) palette_colors)"

definition report_style :: "'f report_library \<Rightarrow> 'f action" where
  "report_style R = (let L = rl_base R in steps [
     call L ''sns.set_theme'' [] [(''style'', Txt ''whitegrid''), (''context'', Txt ''paper'')],
     call L ''plt.rcParams.update'' [Dict [
       (''figure.dpi'', Num 120), (''savefig.dpi'', Num 300), (''font.family'', Txt ''DejaVu Sans''),
       (''axes.titlesize'', Num 13), (''axes.labelsize'', Num 11), (''legend.fontsize'', Num 10),
       (''xtick.labelsize'', Num 10), (''ytick.labelsize'', Num 10), (''axes.spines.top'', Flag False),
       (''axes.spines.right'', Flag False), (''axes.grid'', Flag True), (''grid.alpha'', Num 0.4),
       (''lines.linewidth'', Num 2), (''lines.markersize'', Num 7)]] []])"


section \<open>Workloads, axes and files\<close>

text \<open>The known workloads first, then the others in sorted order.\<close>

definition ordered_present :: "string list \<Rightarrow> json list \<Rightarrow> json list pres" where
  "ordered_present known present =
     (let ordered = map JStr (filter (\<lambda>w. JStr w \<in> set present) known)
      in bind_res (py_sorted (filter (\<lambda>v. v \<notin> set ordered) (remdups present))) (\<lambda>extras. Inr (ordered @ extras)))"

definition ordered_workloads_from_df :: "'f report_library \<Rightarrow> 'f \<Rightarrow> json list pres" where
  "ordered_workloads_from_df R df =
     bind_res (rl_present R df ''Workload'') (ordered_present report_workload_order)"

fun positive_finite :: "pyfloat list \<Rightarrow> rat list" where
  "positive_finite [] = []"
| "positive_finite (Fin r # vs) = (if 0 < r then r # positive_finite vs else positive_finite vs)"
| "positive_finite (_ # vs) = positive_finite vs"

fun min_of :: "rat \<Rightarrow> rat list \<Rightarrow> rat" where
  "min_of m [] = m"
| "min_of m (x # xs) = min_of (min m x) xs"

fun max_of :: "rat \<Rightarrow> rat list \<Rightarrow> rat" where
  "max_of m [] = m"
| "max_of m (x # xs) = max_of (max m x) xs"

text \<open>The limits of a logarithmic axis, from the values to show and the current upper limit.\<close>

definition log_limits :: "rat list \<Rightarrow> pyfloat \<Rightarrow> rat \<times> rat" where
  "log_limits pos upper =
     (let ymin = max (min_of (hd pos) (tl pos) * 0.8) (1 / 10 ^ 12);
          other = max (max_of (hd pos) (tl pos) * 1.2) (ymin * 10)
      in case upper of Fin ymax \<Rightarrow> (ymin, if ymax \<le> ymin then other else ymax) | _ \<Rightarrow> (ymin, other))"

definition set_limits :: "'f report_library \<Rightarrow> nat \<Rightarrow> rat list \<Rightarrow> 'f action" where
  "set_limits R ax pos tr = (case log_limits pos (snd (rl_ylim R tr ax)) of (lo, hi) \<Rightarrow>
     on_ax (rl_base R) ax ''set_ylim'' [Num lo, Num hi] [] tr)"

definition set_log_if_possible :: "'f report_library \<Rightarrow> nat \<Rightarrow> 'f \<Rightarrow> string \<Rightarrow> 'f action" where
  "set_log_if_possible R ax df column = given (rl_numbers R df column) (\<lambda>vs.
     if positive_finite vs = [] then steps []
     else steps [on_ax (rl_base R) ax ''set_yscale'' [Txt ''log''] [], set_limits R ax (positive_finite vs)])"

definition unlog_axes :: "'f report_library \<Rightarrow> nat \<Rightarrow> 'f action" where
  "unlog_axes R ax tr =
     (if rl_is_log R tr ax then on_ax (rl_base R) ax ''set_yscale'' [Txt ''linear''] [] tr else (None, tr))"

text \<open>When the layout fails because of logarithmic axes, they become linear and it is tried again.\<close>

definition safe_tight_layout :: "'f report_library \<Rightarrow> rat \<Rightarrow> 'f action" where
  "safe_tight_layout R height tr =
     (let layout = on_fig (rl_base R) ''tight_layout'' [] [(''rect'', Items [Num 0, Num 0, Num 1, Num height])]
      in case layout tr of
           (Some ConvErr, tr') \<Rightarrow>
             (if rl_log_error R tr' then steps (map (unlog_axes R) [0..<rl_axes R tr'] @ [layout]) tr'
              else (Some ConvErr, tr'))
         | r \<Rightarrow> r)"

definition report_top_legend ::
  "'f report_library \<Rightarrow> string \<Rightarrow> 'f arg \<Rightarrow> 'f arg \<Rightarrow> int \<Rightarrow> rat \<Rightarrow> string option \<Rightarrow> 'f action"
where
  "report_top_legend R title handles labels ncol height subtitle = (let L = rl_base R in steps [
     on_fig L ''suptitle'' [Txt title] [(''y'', Num 0.995), (''fontsize'', Num 13), (''fontweight'', Txt ''bold'')],
     (case subtitle of None \<Rightarrow> steps [] | Some s \<Rightarrow>
        if s = [] then steps []
        else on_fig L ''text'' [Num 0.5, Num 0.970, Txt s] [(''ha'', Txt ''center''), (''va'', Txt ''top''),
          (''fontsize'', Num 9), (''color'', Txt ''#555555''), (''style'', Txt ''italic'')]),
     on_fig L ''legend'' [handles, labels] [(''loc'', Txt ''upper center''),
       (''bbox_to_anchor'', Items [Num 0.5, Num (if subtitle = None \<or> subtitle = Some [] then 0.962 else 0.947)]),
       (''ncol'', Num (of_int ncol)), (''frameon'', Flag False)],
     safe_tight_layout R height])"

text \<open>The files of a figure, which \<open>save_figure\<close> returns.\<close>

definition figure_files :: "target \<Rightarrow> string \<Rightarrow> string list" where
  "figure_files t stem = map (\<lambda>f. in_dir (out_dir t) (stem @ ''.'' @ f)) (clean_formats (out_formats t))"

definition save_report_figure :: "'f report_library \<Rightarrow> target \<Rightarrow> string \<Rightarrow> ('f, string list) prog" where
  "save_report_figure R t stem = result (steps [
     emit (rl_base R) (MakeDir (out_dir t)),
     steps (map (save_format (rl_base R) (out_dir t) stem (out_dpi t)) (clean_formats (out_formats t))),
     call (rl_base R) ''plt.close'' [] []]) (figure_files t stem)"


section \<open>The rows of an experiment\<close>

text \<open>The experiments that a cell lists.\<close>

definition listed_experiments :: "string \<Rightarrow> string list" where
  "listed_experiments s = map py_strip (filter (\<lambda>p. py_strip p \<noteq> [] \<and> py_strip p \<noteq> ''none'') (split_on (CHR '';'') s))"

text \<open>\<open>EXP_NUM_RE\<close> here is applied to the id as it is; \<open>exp_number\<close> is the same expression.\<close>

definition exp_subset :: "'f report_library \<Rightarrow> 'f \<Rightarrow> string \<Rightarrow> 'f pres" where
  "exp_subset R metrics exp_id =
     (if ''ExperimentIds'' \<notin> set (rl_columns R metrics) then Inr (rl_no_rows R metrics)
      else let mask = map (\<lambda>s. exp_id \<in> set (listed_experiments s)) (rl_texts R metrics ''ExperimentIds'')
      in if True \<in> set mask then Inr (rl_keep R metrics mask)
      else case exp_number exp_id of
          None \<Rightarrow> Inr (rl_no_rows R metrics)
        | Some n \<Rightarrow> (if exp_flag_name n \<in> set (rl_columns R metrics)
                     then where_eq R metrics (exp_flag_name n) (JInt 1)
                     else Inr (rl_no_rows R metrics)))"

section \<open>Properties\<close>

lemma min_of_le: "min_of m xs \<le> m \<and> (\<forall>x\<in>set xs. min_of m xs \<le> x)"
  by (induction xs arbitrary: m) force+

lemma max_of_ge: "m \<le> max_of m xs \<and> (\<forall>x\<in>set xs. x \<le> max_of m xs)"
  by (induction xs arbitrary: m) force+

lemma min_of_in: "min_of m xs \<in> set (m # xs)"
  by (induction xs arbitrary: m) (auto simp: min_def split: if_splits)

text \<open>
  The limits of a logarithmic axis are positive and in order, whatever the library says about the
  current ones; no value of at least \<open>1e-12\<close> lies below the lower limit, and if the current upper
  limit is of no use, no value lies above the new one.
\<close>

theorem log_limits_ok:
  assumes "pos \<noteq> []" and "\<forall>v\<in>set pos. 0 < v" and "log_limits pos upper = (lo, hi)"
  shows "0 < lo \<and> lo < hi \<and> (\<forall>v\<in>set pos. 1 / 10 ^ 12 \<le> v \<longrightarrow> lo \<le> v)
    \<and> (\<forall>u. upper = Fin u \<and> lo < u \<longrightarrow> hi = u) \<and> ((\<nexists>u. upper = Fin u \<and> lo < u) \<longrightarrow> (\<forall>v\<in>set pos. v \<le> hi))"
proof -
  obtain p ps where pos: "pos = p # ps" using assms(1) by (cases pos) auto
  let ?min = "min_of p ps" and ?max = "max_of p ps"
  have "?min \<in> set pos" using min_of_in [of p ps] by (simp add: pos)
  with assms(2) have "0 < ?min" by blast
  have lo: "lo = max (?min * 0.8) (1 / 10 ^ 12)"
    and hi: "hi = (case upper of Fin u \<Rightarrow> if u \<le> lo then max (?max * 1.2) (lo * 10) else u | _ \<Rightarrow> max (?max * 1.2) (lo * 10))"
    using assms(3) by (auto simp: log_limits_def Let_def pos split: pyfloat.splits)
  have "0 < lo" unfolding lo by simp
  moreover from this have other: "lo < max (?max * 1.2) (lo * 10)" by simp
  then have "lo < hi" unfolding hi by (auto split: pyfloat.splits)
  moreover have "lo \<le> v" if "v \<in> set pos" "1 / 10 ^ 12 \<le> v" for v
  proof -
    have "?min \<le> v" using min_of_le [of p ps] that(1) by (auto simp: pos)
    with \<open>0 < ?min\<close> have "?min * 0.8 \<le> v" by linarith
    with that(2) show ?thesis unfolding lo by simp
  qed
  moreover have "v \<le> max (?max * 1.2) (lo * 10)" if "v \<in> set pos" for v
  proof -
    have "v \<le> ?max" "0 < v" using max_of_ge [of p ps] that assms(2) by (auto simp: pos)
    then have "v \<le> ?max * 1.2" by linarith
    then show ?thesis by simp
  qed
  moreover have "\<forall>u. upper = Fin u \<and> lo < u \<longrightarrow> hi = u" unfolding hi by auto
  moreover have "(\<nexists>u. upper = Fin u \<and> lo < u) \<Longrightarrow> hi = max (?max * 1.2) (lo * 10)"
    unfolding hi by (auto split: pyfloat.splits)
  ultimately show ?thesis by blast
qed

theorem log_limits_ok_witness:
  "log_limits [3, 1 / 2] (Fin 0) = (2 / 5, 4) \<and> (0::rat) < 2 / 5"
proof -
  have "log_limits [3, 1 / 2] (Fin 0) = (2 / 5, 4)" by code_simp
  with log_limits_ok [of "[3, 1 / 2]" "Fin 0" "2 / 5" 4] show ?thesis by simp
qed

lemma py_sorted_set: "py_sorted vs = Inr ws \<Longrightarrow> set ws = set vs \<and> (distinct ws \<longleftrightarrow> distinct vs)"
  by (auto simp: py_sorted_def split: if_splits)

text \<open>The panels of a bar chart: every workload that occurs, once, and the known ones in front.\<close>

lemma ordered_present_all:
  assumes "ordered_present known present = Inr ws" and "distinct known"
  shows "set ws = set present \<and> distinct ws \<and> prefix (map JStr (filter (\<lambda>w. JStr w \<in> set present) known)) ws"
proof -
  let ?known = "map JStr (filter (\<lambda>w. JStr w \<in> set present) known)"
  let ?rest = "filter (\<lambda>v. v \<notin> set ?known) (remdups present)"
  obtain extras where ws: "py_sorted ?rest = Inr extras" "ws = ?known @ extras"
    using assms(1) by (auto simp: ordered_present_def Let_def bind_res_Inr)
  from py_sorted_set [OF this(1)] have "set extras = set present - set ?known" "distinct extras" by auto
  moreover have "distinct ?known" using assms(2) by (simp add: distinct_map inj_on_def)
  ultimately show ?thesis unfolding ws(2) by auto
qed

text \<open>Removing the commas gives the number.\<close>

lemma thousands_digits: "filter (\<lambda>c. c \<noteq> CHR '','') (thousands n) = dec_int n"
proof -
  have "filter (\<lambda>c. c \<noteq> CHR '','') (group_digits ds) = filter (\<lambda>c. c \<noteq> CHR '','') ds" for ds
    by (induction ds rule: group_digits.induct) auto
  moreover have "filter (\<lambda>c. c \<noteq> CHR '','') (dec_nat k) = dec_nat k" for k
    by (rule filter_True) (auto dest: dec_nat_is_digit simp: is_digit_def)
  ultimately show ?thesis by (simp add: thousands_def dec_int_def flip: rev_filter)
qed

end
