(* ===== verification/ReportPlots.thy ===== *)
theory ReportPlots
  imports ReportLayout
begin

text \<open>
  \<open>benchmark/report/plots/exp1.py\<close> to \<open>exp6.py\<close> and \<open>benchmark/report/pipeline.py\<close>: one program
  per experiment, which selects the rows of the experiment, and then draws and saves a figure or
  returns without one; \<open>generate_experiment_figures\<close> runs them in order and \<open>write_figure_index\<close>
  lists what they returned.
\<close>

record figure =
  fg_experiment :: string
  fg_title :: string
  fg_stem :: string
  fg_files :: "string list"

text \<open>A drawing, then \<open>save_figure\<close> and the dictionary that a plot module returns.\<close>

definition finish_figure ::
  "'f report_library \<Rightarrow> target \<Rightarrow> string \<Rightarrow> string \<Rightarrow> 'f action \<Rightarrow> ('f, figure option) prog"
where
  "finish_figure R t exp_id title drawing =
     run_then (result drawing ()) (\<lambda>_.
     run_then (save_report_figure R t exp_id) (\<lambda>files.
     pure (Inr (Some \<lparr>fg_experiment = exp_id, fg_title = title, fg_stem = exp_id, fg_files = files\<rparr>))))"


section \<open>Experiments 1 and 2: bars in panels\<close>

type_synonym panel = "string \<times> string \<times> bool"

definition exp1_panels :: "panel list" where
  "exp1_panels = [(''MeanRT'', ''Mean Response Time (ms)'', True), (''P99RT'', ''P99 Response Time (ms)'', True),
     (''ContextSwitches'', ''Context Switches (count)'', False)]"

definition exp2_panels :: "panel list" where
  "exp2_panels = [(''MeanRT'', ''Mean Response Time (ms)'', True), (''P99RT'', ''P99 Response Time (ms)'', True),
     (''JainsFairness'', ''Jain's Fairness Index (0-1)'', False)]"

text \<open>The means over the groups, as a frame with the group columns and the metrics.\<close>

definition group_means :: "'f report_library \<Rightarrow> string list \<Rightarrow> panel list \<Rightarrow> 'f \<Rightarrow> 'f pres" where
  "group_means R keys panels = chain R [(''groupby'', [texts keys], []), (''__getitem__'', [texts (map fst panels)], []),
     (''mean'', [], []), (''reset_index'', [], [])]"

definition bar_offset :: "nat \<Rightarrow> rat" where
  "bar_offset i = (of_nat i - (of_nat (length scheduler_order) - 1) / 2) * 0.18"

definition bar_series ::
  "'f report_library \<Rightarrow> 'f \<Rightarrow> string \<Rightarrow> 'f arg \<Rightarrow> nat \<Rightarrow> string \<Rightarrow> nat \<Rightarrow> nat \<Rightarrow> string \<Rightarrow> 'f action"
where
  "bar_series R sub index order n metric ax i sched =
     given (bind_res (where_eq R sub ''Scheduler'' (JStr sched)) (\<lambda>s.
            chain R [(''set_index'', [Txt index], []), (''reindex'', [order], []), (''__getitem__'', [Txt metric], []),
              (''values'', [], [])] s)) (\<lambda>vals.
     given (palette_color sched) (\<lambda>color.
       on_ax (rl_base R) ax ''bar'' [Items (map (\<lambda>j. Num (of_nat j + bar_offset i)) [0..<n]), Frame vals]
         [(''width'', Num 0.162), (''label'', Txt sched), (''color'', Txt color), (''edgecolor'', Txt ''white''),
          (''linewidth'', Num 0.5)]))"

text \<open>The columns of the panels are the workloads, and their rows the metrics.\<close>

record bar_axis =
  ba_index :: string
  ba_order :: "json list"
  ba_ticks :: "string list"
  ba_tick_style :: "(string \<times> (rat + string)) list"
  ba_label :: string

definition style_args :: "(string \<times> (rat + string)) list \<Rightarrow> 'f kwargs" where
  "style_args = map (\<lambda>(k, v). (k, case v of Inl r \<Rightarrow> Num r | Inr s \<Rightarrow> Txt s))"

definition bar_panel ::
  "'f report_library \<Rightarrow> bar_axis \<Rightarrow> nat \<Rightarrow> 'f \<Rightarrow> nat \<Rightarrow> json \<Rightarrow> nat \<Rightarrow> panel \<Rightarrow> 'f action"
where
  "bar_panel R b ncols sub col workload row spec = (case spec of (metric, ylabel, use_log) \<Rightarrow>
     let L = rl_base R; ax = row * ncols + col; n = length (ba_order b) in steps [
       steps (map (\<lambda>(i, sched). bar_series R sub (ba_index b) (Items (map Json (ba_order b))) n metric ax i sched)
         (enumerate 0 scheduler_order)),
       on_ax L ax ''set_xticks'' [Items (map (\<lambda>j. Num (of_nat j)) [0..<n])] [],
       on_ax L ax ''set_xticklabels'' [texts (ba_ticks b)] (style_args (ba_tick_style b)),
       on_ax L ax ''set_xlabel'' [Txt (ba_label b)] [],
       on_ax L ax ''set_ylabel'' [Txt ylabel] [],
       if use_log then set_log_if_possible R ax sub metric else steps [],
       if row = 0 then on_ax L ax ''set_title'' [Json workload] [(''fontweight'', Txt ''bold''), (''pad'', Num 10)] else steps [],
       on_ax L ax ''yaxis.grid'' [Flag True] [(''alpha'', Num 0.4), (''zorder'', Num 0)],
       on_ax L ax ''set_axisbelow'' [Flag True] []])"

definition bar_grid :: "'f report_library \<Rightarrow> bar_axis \<Rightarrow> panel list \<Rightarrow> 'f \<Rightarrow> json list \<Rightarrow> 'f action" where
  "bar_grid R b panels agg workloads = steps [
     call (rl_base R) ''plt.subplots'' [Num (of_nat (length panels)), Num (of_nat (length workloads))]
       [(''figsize'', Items [Num 13, Num (3.8 * of_nat (length panels))]), (''sharey'', Flag False), (''squeeze'', Flag False)],
     steps (map (\<lambda>(col, workload). given (where_eq R agg ''Workload'' workload) (\<lambda>sub.
         steps (map (\<lambda>(row, spec). bar_panel R b (length workloads) sub col workload row spec) (enumerate 0 panels))))
       (enumerate 0 workloads))]"

text \<open>The legend is made of one rectangle per scheduler.\<close>

definition rectangle :: "'f report_library \<Rightarrow> string \<Rightarrow> 'f action" where
  "rectangle R s = given (palette_color s) (\<lambda>color. call (rl_base R) ''plt.Rectangle''
     [Items [Num 0, Num 0], Num 1, Num 1] [(''color'', Txt color), (''label'', Txt s)])"

definition legend_handles :: "'f arg" where
  "legend_handles = Items (map (\<lambda>s. Dict [(''Rectangle'', Txt s)]) scheduler_order)"

definition exp1_axis :: "'f report_library \<Rightarrow> 'f \<Rightarrow> bar_axis pres" where
  "exp1_axis R agg =
     bind_res (rl_unique R agg ''Cores'') (\<lambda>cores.
     bind_res (map_res (\<lambda>c. bind_res (py_int c) (\<lambda>n. Inr (n, c))) cores) (\<lambda>numbered.
     let core_order = map snd (sort_key fst numbered) in
     Inr \<lparr>ba_index = ''Cores'', ba_order = core_order,
       ba_ticks = map (\<lambda>c. py_str (rl_repr R) c @ ''c'') core_order, ba_tick_style = [],
       ba_label = ''Number of Cores (count)''\<rparr>))"

definition exp1_subtitle :: "'f report_library \<Rightarrow> 'f \<Rightarrow> json list \<Rightarrow> json list \<Rightarrow> string pres" where
  "exp1_subtitle R df core_order workloads =
     bind_res (bind_res (rl_first R df ''NumTasks'') py_int) (\<lambda>tasks.
     bind_res (bind_res (rl_first R df ''StopTime'') py_int) (\<lambda>stop.
     bind_res (join_values core_order) (\<lambda>cores.
     bind_res (join_values workloads) (\<lambda>names.
     Inr (''Tasks: '' @ thousands tasks @ ''  |  Stop Time: '' @ thousands stop @ ''  |  Cores varied: '' @ cores
       @ ''  |  Queue: Single  |  Workloads: '' @ names)))))"

definition draw_exp1 :: "'f report_library \<Rightarrow> 'f \<Rightarrow> json list \<Rightarrow> 'f action" where
  "draw_exp1 R df workloads =
     given (bind_res (group_means R [''Workload'', ''Scheduler'', ''Cores''] exp1_panels df)
       (chain R [(''astype_column'', [Txt ''Cores'', Txt ''str''], [])])) (\<lambda>agg.
     given (exp1_axis R agg) (\<lambda>axis. steps [
       bar_grid R axis exp1_panels agg workloads,
       steps (map (rectangle R) scheduler_order),
       given (exp1_subtitle R df (ba_order axis) workloads) (\<lambda>subtitle.
         report_top_legend R ''Exp 1: Multi-core Scaling'' legend_handles (texts scheduler_order) 4 0.90 (Some subtitle))]))"

definition exp2_axis :: "'f report_library \<Rightarrow> json list \<Rightarrow> bar_axis pres" where
  "exp2_axis R n_vals =
     bind_res (map_res py_int n_vals) (\<lambda>ns.
     Inr \<lparr>ba_index = ''NumTasksStr'', ba_order = map (\<lambda>n. JStr (dec_int n)) ns, ba_ticks = map thousands ns,
       ba_tick_style = [(''rotation'', Inl 15), (''ha'', Inr ''right'')], ba_label = ''Number of Tasks (count)''\<rparr>)"

text \<open>\<open>df[df["Workload"].isin(workloads)]\<close>\<close>

definition with_workloads :: "'f report_library \<Rightarrow> json list \<Rightarrow> 'f \<Rightarrow> 'f pres" where
  "with_workloads R workloads = chain R [(''where_isin'', [Txt ''Workload'', Items (map Json workloads)], [])]"

definition exp2_subtitle :: "'f report_library \<Rightarrow> 'f \<Rightarrow> json list \<Rightarrow> json list \<Rightarrow> string pres" where
  "exp2_subtitle R df n_vals workloads =
     bind_res (map_res py_int n_vals) (\<lambda>ns.
     bind_res (with_workloads R workloads df) (\<lambda>sel.
     bind_res (bind_res (rl_unique R sel ''StopTime'') py_sorted) (\<lambda>stops.
     bind_res (map_res py_int stops) (\<lambda>ts.
     bind_res (join_values workloads) (\<lambda>names.
     Inr (''Tasks varied: '' @ join '', '' (map thousands ns) @ ''  |  Stop Time(s): '' @ join '', '' (map thousands ts)
       @ ''  |  Cores: 4  |  Queue: Single  |  Workloads: '' @ names))))))"

text \<open>The column of task numbers as text.\<close>

definition add_num_tasks_text :: "'f report_library \<Rightarrow> 'f \<Rightarrow> 'f pres" where
  "add_num_tasks_text R agg =
     bind_res (map_res (\<lambda>row. bind_res (bind_res (py_getitem row ''NumTasks'') py_int) (\<lambda>n. Inr (dec_int n)))
       (lib_rows (rl_base R) agg)) (lib_set_column (rl_base R) agg ''NumTasksStr'')"

definition draw_exp2 :: "'f report_library \<Rightarrow> 'f \<Rightarrow> json list \<Rightarrow> 'f action" where
  "draw_exp2 R df workloads =
     given (bind_res (with_workloads R workloads df)
       (group_means R [''Workload'', ''Scheduler'', ''NumTasks''] exp2_panels)) (\<lambda>agg.
     given (bind_res (rl_unique R agg ''NumTasks'') py_sorted) (\<lambda>n_vals.
     given (exp2_axis R n_vals) (\<lambda>axis.
     given (add_num_tasks_text R agg) (\<lambda>agg. steps [
       bar_grid R axis exp2_panels agg workloads,
       steps (map (rectangle R) scheduler_order),
       given (exp2_subtitle R df n_vals workloads) (\<lambda>subtitle.
         report_top_legend R ''Exp 2: High-load Convergence (Graceful Degradation)'' legend_handles
           (texts scheduler_order) 4 0.90 (Some subtitle))]))))"

text \<open>Both modules return without a figure if there is no row or no workload.\<close>

definition plot_bars ::
  "'f report_library \<Rightarrow> target \<Rightarrow> string \<Rightarrow> string \<Rightarrow> ('f \<Rightarrow> json list \<Rightarrow> 'f action) \<Rightarrow> 'f \<Rightarrow> ('f, figure option) prog"
where
  "plot_bars R t exp_id title draw metrics =
     run_then (pure (exp_subset R metrics exp_id)) (\<lambda>df.
     if rl_empty R df then pure (Inr None)
     else run_then (pure (ordered_workloads_from_df R df)) (\<lambda>workloads.
     if workloads = [] then pure (Inr None)
     else finish_figure R t exp_id title (draw df workloads)))"

definition plot_exp1 :: "'f report_library \<Rightarrow> target \<Rightarrow> 'f \<Rightarrow> ('f, figure option) prog" where
  "plot_exp1 R t = plot_bars R t ''exp1_multicore_scaling'' ''Exp 1: Multi-core Scaling'' (draw_exp1 R)"

definition plot_exp2 :: "'f report_library \<Rightarrow> target \<Rightarrow> 'f \<Rightarrow> ('f, figure option) prog" where
  "plot_exp2 R t = plot_bars R t ''exp2_high_load_convergence'' ''Exp 2: High-load Convergence (Graceful Degradation)''
     (draw_exp2 R)"

section \<open>Experiment 3: the matrix\<close>

definition matrix :: "'f report_library \<Rightarrow> 'f \<Rightarrow> string \<Rightarrow> 'f pres" where
  "matrix R df column = chain R [
     (''pivot_table'', [], [(''index'', Txt ''Scheduler''), (''columns'', Txt ''Workload''), (''values'', Txt column),
        (''aggfunc'', Txt ''mean'')]),
     (''reindex'', [], [(''index'', texts scheduler_order), (''columns'', texts report_workload_order)])] df"

definition draw_exp3 :: "'f report_library \<Rightarrow> 'f \<Rightarrow> 'f action" where
  "draw_exp3 R df =
     given (matrix R df ''Throughput'') (\<lambda>piv_thr.
     given (matrix R df ''MeanRT'') (\<lambda>piv_rt. let L = rl_base R in steps [
       call L ''plt.subplots'' [Num 1, Num 2] [(''figsize'', Items [Num 16, Num 6])],
       call L ''sns.heatmap'' [Frame piv_thr] [(''annot'', Flag True), (''fmt'', Txt ''.2f''), (''cmap'', Txt ''Blues''),
         (''linewidths'', Num 0.5), (''ax'', Axes 0)],
       call L ''sns.heatmap'' [Frame piv_rt] [(''annot'', Flag True), (''fmt'', Txt ''.1f''), (''cmap'', Txt ''Oranges''),
         (''linewidths'', Num 0.5), (''ax'', Axes 1)],
       on_ax L 0 ''set_title'' [Txt ''Throughput (tasks/s)''] [],
       on_ax L 1 ''set_title'' [Txt ''Mean Response Time (ms)''] [],
       on_ax L 0 ''set_xlabel'' [Txt ''Workload''] [],
       on_ax L 1 ''set_xlabel'' [Txt ''Workload''] [],
       on_ax L 0 ''set_ylabel'' [Txt ''Scheduler''] [],
       on_ax L 1 ''set_ylabel'' [Txt ''Scheduler''] [],
       on_fig L ''suptitle'' [Txt ''Exp 3: Scheduler x Workload Matrix''] [(''y'', Num 0.995)],
       safe_tight_layout R 0.94]))"

definition plot_exp3 :: "'f report_library \<Rightarrow> target \<Rightarrow> 'f \<Rightarrow> ('f, figure option) prog" where
  "plot_exp3 R t metrics =
     run_then (pure (exp_subset R metrics ''exp3_scheduler_workload_matrix'')) (\<lambda>df.
     if rl_empty R df then pure (Inr None)
     else finish_figure R t ''exp3_scheduler_workload_matrix'' ''Exp 3: Scheduler x Workload Matrix'' (draw_exp3 R df))"


section \<open>Experiments 4 and 6: the runs of experiment 3 seen differently\<close>

definition subset_or_exp3 :: "'f report_library \<Rightarrow> 'f \<Rightarrow> string \<Rightarrow> 'f pres" where
  "subset_or_exp3 R metrics exp_id =
     bind_res (exp_subset R metrics exp_id) (\<lambda>df.
     if rl_empty R df then exp_subset R metrics ''exp3_scheduler_workload_matrix'' else Inr df)"

definition draw_exp4 :: "'f report_library \<Rightarrow> 'f \<Rightarrow> 'f action" where
  "draw_exp4 R df = (let L = rl_base R in steps [
     call L ''plt.subplots'' [] [(''figsize'', Items [Num 10, Num 7])],
     call L ''sns.scatterplot'' [] [(''data'', Frame df), (''x'', Txt ''JainsFairness''), (''y'', Txt ''MeanRT''),
       (''hue'', Txt ''Scheduler''), (''hue_order'', texts scheduler_order), (''style'', Txt ''Workload''),
       (''palette'', report_palette), (''s'', Num 90), (''alpha'', Num 0.8), (''ax'', Axes 0)],
     on_ax L 0 ''set_title'' [Txt ''Exp 4: Fairness vs Latency Tradeoff''] [],
     on_ax L 0 ''set_xlabel'' [Txt ''Jain's Fairness Index (0-1)''] [],
     on_ax L 0 ''set_ylabel'' [Txt ''Mean Response Time (ms)''] [],
     set_log_if_possible R 0 df ''MeanRT'',
     on_ax L 0 ''legend'' [] [(''frameon'', Flag False), (''ncol'', Num 2)],
     safe_tight_layout R 0.97])"

definition plot_exp4 :: "'f report_library \<Rightarrow> target \<Rightarrow> 'f \<Rightarrow> ('f, figure option) prog" where
  "plot_exp4 R t metrics =
     run_then (pure (subset_or_exp3 R metrics ''exp4_fairness_vs_latency'')) (\<lambda>df.
     if rl_empty R df then pure (Inr None)
     else finish_figure R t ''exp4_fairness_vs_latency'' ''Exp 4: Fairness vs Latency Tradeoff'' (draw_exp4 R df))"

definition report_barplot :: "'f report_library \<Rightarrow> 'f \<Rightarrow> string \<Rightarrow> string \<Rightarrow> 'f arg \<Rightarrow> nat \<Rightarrow> 'f action" where
  "report_barplot R df x y order i = call (rl_base R) ''sns.barplot'' [] [(''data'', Frame df), (''x'', Txt x),
     (''y'', Txt y), (''hue'', Txt ''Scheduler''), (''hue_order'', texts scheduler_order), (''order'', order),
     (''palette'', report_palette), (''errorbar'', Items [Txt ''ci'', Num 95]), (''ax'', Axes i)]"

definition draw_exp6 :: "'f report_library \<Rightarrow> 'f \<Rightarrow> 'f action" where
  "draw_exp6 R df = (let L = rl_base R in steps [
     call L ''plt.subplots'' [Num 1, Num 2] [(''figsize'', Items [Num 16, Num 6]), (''sharey'', Flag False)],
     report_barplot R df ''Workload'' ''ContextSwitchesPerTask'' (texts report_workload_order) 0,
     report_barplot R df ''Workload'' ''MeanRT'' (texts report_workload_order) 1,
     on_ax L 0 ''set_title'' [Txt ''Context Switches / Task''] [],
     on_ax L 1 ''set_title'' [Txt ''Mean Response Time''] [],
     on_ax L 0 ''set_ylabel'' [Txt ''Context Switches per Completed Task (switches/task)''] [],
     on_ax L 1 ''set_ylabel'' [Txt ''Mean Response Time (ms)''] [],
     on_ax L 0 ''set_xlabel'' [Txt ''Workload (categorical)''] [],
     on_ax L 1 ''set_xlabel'' [Txt ''Workload (categorical)''] [],
     set_log_if_possible R 0 df ''ContextSwitchesPerTask'',
     set_log_if_possible R 1 df ''MeanRT'',
     on_ax L 0 ''tick_params'' [] [(''axis'', Txt ''x''), (''rotation'', Num 20)],
     on_ax L 1 ''tick_params'' [] [(''axis'', Txt ''x''), (''rotation'', Num 20)],
     on_ax L 0 ''get_legend_handles_labels'' [] [],
     drop_legend L 0,
     drop_legend L 1,
     report_top_legend R ''Exp 6: Overhead Cost Analysis (from Exp 3 runs)'' (Handles 0) (Labels 0) 4 0.90 None])"

definition plot_exp6 :: "'f report_library \<Rightarrow> target \<Rightarrow> 'f \<Rightarrow> ('f, figure option) prog" where
  "plot_exp6 R t metrics =
     run_then (pure (subset_or_exp3 R metrics ''exp6_overhead_cost_analysis'')) (\<lambda>df.
     if rl_empty R df then pure (Inr None)
     else finish_figure R t ''exp6_overhead_cost_analysis'' ''Exp 6: Overhead Cost Analysis (from Exp 3 runs)''
       (draw_exp6 R df))"


section \<open>Experiment 5: topologies\<close>

text \<open>\<open>f"{v} (n={n:,})"\<close>\<close>

definition variant_label :: "(json \<Rightarrow> string) \<Rightarrow> json \<Rightarrow> int \<Rightarrow> string" where
  "variant_label rp v n = py_str rp v @ '' (n='' @ thousands n @ '')''"

text \<open>The labels of the rows, and the bars: those labels of a known variant that some row has.\<close>

definition row_label :: "(json \<Rightarrow> string) \<Rightarrow> json \<Rightarrow> string pres" where
  "row_label rp row =
     bind_res (py_getitem row ''TopologyVariant'') (\<lambda>v.
     bind_res (bind_res (py_getitem row ''NumTasks'') py_int) (\<lambda>n. Inr (variant_label rp v n)))"

definition label_order :: "(json \<Rightarrow> string) \<Rightarrow> json list \<Rightarrow> int list \<Rightarrow> string list \<Rightarrow> string list" where
  "label_order rp variants ns labels =
     filter (\<lambda>l. l \<in> set labels) (concat (map (\<lambda>n. map (\<lambda>v. variant_label rp v n) variants) ns))"

definition draw_exp5 :: "'f report_library \<Rightarrow> int list \<Rightarrow> 'f \<times> string \<times> 'f arg \<Rightarrow> 'f action" where
  "draw_exp5 R ns bars = (case bars of (df_plot, x_col, x_order) \<Rightarrow> let L = rl_base R in steps [
     call L ''plt.subplots'' [Num 1, Num 2] [(''figsize'', Items [Num 16, Num 6]), (''sharey'', Flag False)],
     report_barplot R df_plot x_col ''Throughput'' x_order 0,
     report_barplot R df_plot x_col ''MeanRT'' x_order 1,
     on_ax L 0 ''set_title'' [Txt ''Throughput''] [],
     on_ax L 1 ''set_title'' [Txt ''Mean Response Time''] [],
     on_ax L 0 ''set_ylabel'' [Txt ''Throughput (tasks/s)''] [],
     on_ax L 1 ''set_ylabel'' [Txt ''Mean Response Time (ms)''] [],
     on_ax L 0 ''set_xlabel'' [Txt ''Topology Variant (categorical)''] [],
     on_ax L 1 ''set_xlabel'' [Txt ''Topology Variant (categorical)''] [],
     on_ax L 0 ''tick_params'' [] [(''axis'', Txt ''x''), (''rotation'', Num 25)],
     on_ax L 1 ''tick_params'' [] [(''axis'', Txt ''x''), (''rotation'', Num 25)],
     on_ax L 0 ''get_legend_handles_labels'' [] [],
     drop_legend L 0,
     drop_legend L 1,
     report_top_legend R ''Exp 5: Topology Comparison'' (Handles 0) (Labels 0) 4 0.89
       (Some (''Workload: GoogleTraceV3  |  Cores: 4  |  Stop Time: 500,000  |  Tasks: ''
          @ join '', '' (map thousands ns)))])"

text \<open>With one number of tasks the bars are the variants, with several the labels.\<close>

definition exp5_bars :: "'f report_library \<Rightarrow> json list \<Rightarrow> int list \<Rightarrow> 'f \<Rightarrow> ('f \<times> string \<times> 'f arg) pres" where
  "exp5_bars R variants ns df =
     (if length ns \<le> 1 then Inr (df, ''TopologyVariant'', Items (map Json variants))
      else bind_res (map_res (row_label (rl_repr R)) (lib_rows (rl_base R) df)) (\<lambda>labels.
           bind_res (lib_set_column (rl_base R) df ''VariantLabel'' labels) (\<lambda>df_plot.
           Inr (df_plot, ''VariantLabel'', texts (label_order (rl_repr R) variants ns labels)))))"

definition plot_exp5 :: "'f report_library \<Rightarrow> target \<Rightarrow> 'f \<Rightarrow> ('f, figure option) prog" where
  "plot_exp5 R t metrics =
     run_then (pure (exp_subset R metrics ''exp5_topology_comparison'')) (\<lambda>df.
     if rl_empty R df then pure (Inr None)
     else finish_figure R t ''exp5_topology_comparison'' ''Exp 5: Topology Comparison''
       (given (bind_res (rl_present R df ''TopologyVariant'') (ordered_present exp5_variant_order)) (\<lambda>variants.
        given (bind_res (rl_present R df ''NumTasks'') (map_res py_int)) (\<lambda>ns.
        given (exp5_bars R variants (sort ns) df) (draw_exp5 R (sort ns))))))"


section \<open>The pipeline\<close>

definition plot_modules :: "('f report_library \<Rightarrow> target \<Rightarrow> 'f \<Rightarrow> ('f, figure option) prog) list" where
  "plot_modules = [plot_exp1, plot_exp2, plot_exp3, plot_exp4, plot_exp5, plot_exp6]"

fun run_modules :: "('f, figure option) prog list \<Rightarrow> ('f, figure list) prog" where
  "run_modules [] = pure (Inr [])"
| "run_modules (m # ms) = run_then m (\<lambda>r. run_then (run_modules ms) (\<lambda>fs.
     pure (Inr (case r of None \<Rightarrow> fs | Some f \<Rightarrow> f # fs))))"

definition generate_experiment_figures :: "'f report_library \<Rightarrow> 'f \<Rightarrow> target \<Rightarrow> ('f, figure list) prog" where
  "generate_experiment_figures R metrics t = run_modules (map (\<lambda>plot. plot R t metrics) plot_modules)"

definition report_index :: "figure list \<Rightarrow> string" where
  "report_index generated = join [CHR 10] ([''# Publication Figure Index'', []]
     @ (if generated = [] then [''No figures generated (no matching experiment rows found).'']
        else map (\<lambda>f. ''- `'' @ fg_stem f @ ''` ('' @ fg_experiment f @ '')'') generated)
     @ [[], ''Data source: `analysis/metrics_enriched.csv`.''])"

definition write_figure_index :: "'f report_library \<Rightarrow> string \<Rightarrow> figure list \<Rightarrow> 'f action" where
  "write_figure_index R dir generated = steps [
     emit (rl_base R) (MakeDir dir),
     emit (rl_base R) (WriteText (in_dir dir ''figure_index.md'') (report_index generated))]"

section \<open>What a plot module leaves behind\<close>

text \<open>
  A program \<open>yields\<close> a list of events and a value, if it leaves a prefix of the list when it
  raises, and all of it when it returns, which is then with that value.
\<close>

definition yields :: "('f event \<Rightarrow> 'b option) \<Rightarrow> 'b list \<Rightarrow> 'a \<Rightarrow> ('f, 'a) prog \<Rightarrow> bool" where
  "yields p xs v m \<longleftrightarrow> (\<forall>tr r tr'. m tr = (r, tr') \<longrightarrow>
     (\<exists>evs. tr' = tr @ evs \<and> prefix (seen p evs) xs \<and> (\<forall>w. r = Inr w \<longrightarrow> w = v \<and> seen p evs = xs)))"

lemma yieldsD:
  "yields p xs v m \<Longrightarrow> m tr = (r, tr')
     \<Longrightarrow> \<exists>evs. tr' = tr @ evs \<and> prefix (seen p evs) xs \<and> (\<forall>w. r = Inr w \<longrightarrow> w = v \<and> seen p evs = xs)"
  unfolding yields_def by iprover

lemma yields_result: "emits p xs m \<Longrightarrow> yields p xs v (result m v)"
  unfolding yields_def
proof (intro allI impI)
  fix tr r tr'
  assume m: "emits p xs m" and run: "result m v tr = (r, tr')"
  obtain x where x: "m tr = (x, tr')" "r = (case x of Some e \<Rightarrow> Inl e | None \<Rightarrow> Inr v)"
    using run by (auto simp: result_def split: prod.splits option.splits)
  with m obtain evs where "tr' = tr @ evs" "prefix (seen p evs) xs" "x = None \<longrightarrow> seen p evs = xs"
    unfolding emits_def by blast
  with x show "\<exists>evs. tr' = tr @ evs \<and> prefix (seen p evs) xs \<and> (\<forall>w. r = Inr w \<longrightarrow> w = v \<and> seen p evs = xs)"
    by (cases x) auto
qed

lemma yields_then:
  assumes "yields p xs v m" and "yields p ys w (k v)"
  shows "yields p (xs @ ys) w (run_then m k)"
  unfolding yields_def
proof (intro allI impI)
  fix tr r tr'
  assume run: "run_then m k tr = (r, tr')"
  obtain r1 tr1 where m: "m tr = (r1, tr1)" by force
  from yieldsD [OF assms(1) m] obtain e1 where e1: "tr1 = tr @ e1" "prefix (seen p e1) xs"
    "\<forall>u. r1 = Inr u \<longrightarrow> u = v \<and> seen p e1 = xs" by (elim exE conjE)
  show "\<exists>evs. tr' = tr @ evs \<and> prefix (seen p evs) (xs @ ys) \<and> (\<forall>u. r = Inr u \<longrightarrow> u = w \<and> seen p evs = xs @ ys)"
  proof (cases r1)
    case (Inl e)
    with run m e1 show ?thesis by (intro exI [of _ e1]) (auto simp: run_then_def intro: prefix_prefix)
  next
    case (Inr u)
    with run m e1 have k: "k v tr1 = (r, tr')" and "seen p e1 = xs" by (auto simp: run_then_def)
    from yieldsD [OF assms(2) k] obtain e2 where "tr' = tr1 @ e2" "prefix (seen p e2) ys"
      "\<forall>u. r = Inr u \<longrightarrow> u = w \<and> seen p e2 = ys" by (elim exE conjE)
    with e1 \<open>seen p e1 = xs\<close> show ?thesis by (intro exI [of _ "e1 @ e2"]) simp
  qed
qed

lemma yields_pure: "yields p [] v (pure (Inr v))"
  by (simp add: yields_def pure_def)

lemma yields_raise: "yields p xs v (run_then (pure (Inl e)) k)"
  by (auto simp: yields_def run_then_def pure_def)

lemma run_then_pure: "run_then (pure (Inr v)) k = k v"
  by (simp add: run_then_def pure_def fun_eq_iff)

text \<open>The calls that the modules share.\<close>

lemma emits_choose:
  assumes "\<And>tr. \<exists>m. emits p xs m \<and> f tr = m tr"
  shows "emits p xs f"
  unfolding emits_def
proof (intro allI impI)
  fix tr x tr'
  assume "f tr = (x, tr')"
  moreover obtain m where "emits p xs m" "f tr = m tr" using assms by blast
  ultimately show "\<exists>evs. tr' = tr @ evs \<and> prefix (seen p evs) xs \<and> (x = None \<longrightarrow> seen p evs = xs)"
    unfolding emits_def by auto
qed

lemma emits_limits: "emits produced [] (set_limits R ax pos)" "emits figure_mark [] (set_limits R ax pos)"
  by (rule emits_choose; simp add: set_limits_def split_def; blast intro: emits_calls)+

lemma emits_log: "emits produced [] (set_log_if_possible R ax df c)" "emits figure_mark [] (set_log_if_possible R ax df c)"
  unfolding set_log_if_possible_def
  by (rule emits_given, simp add: quiet_simps emits_steps emits_limits)+

lemma emits_unlog_if:
  assumes "emits p [] (on_ax (rl_base R) ax ''set_yscale'' [Txt ''linear''] [])"
  shows "emits p [] (unlog_axes R ax)"
proof (rule emits_choose)
  fix tr
  show "\<exists>m. emits p [] m \<and> unlog_axes R ax tr = m tr"
    by (rule exI [of _ "if rl_is_log R tr ax then on_ax (rl_base R) ax ''set_yscale'' [Txt ''linear''] [] else steps []"])
       (simp add: unlog_axes_def assms emits_Nil)
qed

lemma emits_unlog: "emits produced [] (unlog_axes R ax)" "emits figure_mark [] (unlog_axes R ax)"
  by (rule emits_unlog_if, rule emits_calls)+

text \<open>An action that may continue where another one stopped.\<close>

lemma emits_retry:
  assumes "emits p [] m" and "\<And>tr. f tr = m tr \<or> (\<exists>n. emits p [] n \<and> f tr = n (snd (m tr)))"
  shows "emits p [] f"
  unfolding emits_def
proof (intro allI impI)
  fix tr x tr'
  assume run: "f tr = (x, tr')"
  obtain y tr1 where m: "m tr = (y, tr1)" by force
  then obtain e1 where e1: "tr1 = tr @ e1" "seen p e1 = []" using assms(1) unfolding emits_def by (metis prefix_Nil)
  from assms(2) [of tr] run m consider "tr' = tr1" | n where "emits p [] n" "n tr1 = (x, tr')" by auto
  then show "\<exists>evs. tr' = tr @ evs \<and> prefix (seen p evs) [] \<and> (x = None \<longrightarrow> seen p evs = [])"
  proof cases
    case 2
    then obtain e2 where "tr' = tr1 @ e2" "seen p e2 = []" unfolding emits_def by (metis prefix_Nil)
    with e1 show ?thesis by (intro exI [of _ "e1 @ e2"]) simp
  qed (use e1 in simp)
qed

lemma safe_tight_layout_cases:
  fixes R :: "'f report_library" and h :: rat
  defines "layout \<equiv> on_fig (rl_base R) ''tight_layout'' [] [(''rect'', Items [Num 0, Num 0, Num 1, Num h])]"
  shows "safe_tight_layout R h tr = layout tr \<or> safe_tight_layout R h tr
    = steps (map (unlog_axes R) [0..<rl_axes R (snd (layout tr))] @ [layout]) (snd (layout tr))"
  unfolding safe_tight_layout_def Let_def layout_def [symmetric]
  by (cases "layout tr") (auto split: option.splits exn.splits)

lemma emits_layout_if:
  assumes "\<And>args kws. emits p [] (on_fig (rl_base R) ''tight_layout'' args kws)" and "\<And>i. emits p [] (unlog_axes R i)"
  shows "emits p [] (safe_tight_layout R h)"
proof (rule emits_retry)
  let ?layout = "on_fig (rl_base R) ''tight_layout'' [] [(''rect'', Items [Num 0, Num 0, Num 1, Num h])]"
  show "emits p [] ?layout" by (rule assms(1))
  fix tr
  let ?again = "steps (map (unlog_axes R) [0..<rl_axes R (snd (?layout tr))] @ [?layout])"
  have "emits p [] ?again" by (rule emits_steps) (simp add: list_all_iff assms)
  with safe_tight_layout_cases [of R h tr]
  show "safe_tight_layout R h tr = ?layout tr \<or> (\<exists>n. emits p [] n \<and> safe_tight_layout R h tr = n (snd (?layout tr)))"
    by (elim disjE) (rule disjI1, assumption, rule disjI2, rule exI, rule conjI)
qed

lemma emits_layout: "emits produced [] (safe_tight_layout R h)" "emits figure_mark [] (safe_tight_layout R h)"
  by (rule emits_layout_if; simp add: emits_calls emits_unlog)+

lemma emits_report_legend:
  "emits produced [] (report_top_legend R title a b n h s)" "emits figure_mark [] (report_top_legend R title a b n h s)"
  unfolding report_top_legend_def Let_def
  by (rule emits_steps, simp add: quiet_simps emits_layout split: option.split)+

lemma yields_save:
  "yields produced (map Inl (figure_files t stem)) (figure_files t stem) (save_report_figure R t stem)"
  "yields figure_mark [False] (figure_files t stem) (save_report_figure R t stem)"
  using emits_save [where t = t and stem = stem and L = "rl_base R"] unfolding save_report_figure_def save_def save_figure_def
  by (auto intro!: yields_result simp: stem_files_def figure_files_def comp_def)

lemma emits_opens:
  assumes "emits figure_mark [True] m" and "list_all (emits figure_mark []) ms"
  shows "emits figure_mark [True] (steps (m # ms))"
  using emits_then [OF assms] .

lemma emits_bars:
  "emits produced [] (bar_series R sub index order n metric ax i s)" "emits figure_mark [] (bar_series R sub index order n metric ax i s)"
  "emits produced [] (rectangle R s)" "emits figure_mark [] (rectangle R s)"
  unfolding bar_series_def rectangle_def by (intro emits_given, simp add: emits_calls)+

lemma emits_bar_panel:
  "emits produced [] (bar_panel R b ncols sub col w row spec)" "emits figure_mark [] (bar_panel R b ncols sub col w row spec)"
  by (cases spec; unfold bar_panel_def Let_def; simp only: prod.case;
      rule emits_steps; simp add: quiet_simps emits_loops emits_bars emits_log)+

lemma emits_bar_grid:
  "emits produced [] (bar_grid R b panels agg ws)" "emits figure_mark [True] (bar_grid R b panels agg ws)"
proof -
  have col: "emits produced [] (given (where_eq R agg c w) (\<lambda>sub.
      steps (map (\<lambda>(row, spec). bar_panel R b k sub i w row spec) (enumerate 0 panels))))"
    "emits figure_mark [] (given (where_eq R agg c w) (\<lambda>sub.
      steps (map (\<lambda>(row, spec). bar_panel R b k sub i w row spec) (enumerate 0 panels))))" for c w k i
    by (intro emits_given emits_loops emits_bar_panel)+
  show "emits produced [] (bar_grid R b panels agg ws)" unfolding bar_grid_def
    by (rule emits_steps) (simp add: emits_calls emits_loops col)
  show "emits figure_mark [True] (bar_grid R b panels agg ws)" unfolding bar_grid_def
    by (rule emits_opens) (simp_all add: emits_calls emits_loops col)
qed

lemma emits_drawings:
  "emits produced [] (draw_exp1 R df ws)" "emits figure_mark [True] (draw_exp1 R df ws)"
  "emits produced [] (draw_exp2 R df ws)" "emits figure_mark [True] (draw_exp2 R df ws)"
  "emits produced [] (draw_exp3 R df)" "emits figure_mark [True] (draw_exp3 R df)"
  "emits produced [] (draw_exp4 R df)" "emits figure_mark [True] (draw_exp4 R df)"
  "emits produced [] (draw_exp5 R ns bars)" "emits figure_mark [True] (draw_exp5 R ns bars)"
  "emits produced [] (draw_exp6 R df)" "emits figure_mark [True] (draw_exp6 R df)"
proof -
  note quiet = quiet_simps emits_loops emits_bars emits_log emits_layout emits_report_legend emits_bar_grid emits_given
  show "emits produced [] (draw_exp1 R df ws)" "emits produced [] (draw_exp2 R df ws)" "emits produced [] (draw_exp3 R df)"
    "emits produced [] (draw_exp4 R df)" "emits produced [] (draw_exp6 R df)"
    unfolding draw_exp1_def draw_exp2_def draw_exp3_def draw_exp4_def draw_exp6_def Let_def report_barplot_def
    by (((rule emits_given)+)?, rule emits_steps, simp add: quiet)+
  show "emits figure_mark [True] (draw_exp1 R df ws)" "emits figure_mark [True] (draw_exp2 R df ws)"
    "emits figure_mark [True] (draw_exp3 R df)" "emits figure_mark [True] (draw_exp4 R df)"
    "emits figure_mark [True] (draw_exp6 R df)"
    unfolding draw_exp1_def draw_exp2_def draw_exp3_def draw_exp4_def draw_exp6_def Let_def report_barplot_def
    by (((rule emits_given)+)?, rule emits_opens; simp add: quiet)+
  obtain f x y where bars: "bars = (f, x, y)" by (cases bars)
  show "emits produced [] (draw_exp5 R ns bars)" "emits figure_mark [True] (draw_exp5 R ns bars)"
    unfolding bars draw_exp5_def Let_def report_barplot_def prod.case
    by (rule emits_steps, simp add: quiet) (rule emits_opens; simp add: quiet)
qed

section \<open>The figures of a metrics file\<close>

definition figure_for :: "target \<Rightarrow> string \<times> string \<Rightarrow> figure" where
  "figure_for t spec = \<lparr>fg_experiment = fst spec, fg_title = snd spec, fg_stem = fst spec,
     fg_files = figure_files t (fst spec)\<rparr>"

definition experiment_titles :: "(string \<times> string) list" where
  "experiment_titles = [(''exp1_multicore_scaling'', ''Exp 1: Multi-core Scaling''),
     (''exp2_high_load_convergence'', ''Exp 2: High-load Convergence (Graceful Degradation)''),
     (''exp3_scheduler_workload_matrix'', ''Exp 3: Scheduler x Workload Matrix''),
     (''exp4_fairness_vs_latency'', ''Exp 4: Fairness vs Latency Tradeoff''),
     (''exp5_topology_comparison'', ''Exp 5: Topology Comparison''),
     (''exp6_overhead_cost_analysis'', ''Exp 6: Overhead Cost Analysis (from Exp 3 runs)'')]"

text \<open>
  An experiment has a figure if rows are selected for it (for the experiments 4 and 6 those of
  experiment 3 will do), and, in the case of the bar charts, if these rows name a workload.
\<close>

definition has_figure :: "'f report_library \<Rightarrow> 'f \<Rightarrow> string \<Rightarrow> bool" where
  "has_figure R metrics exp_id =
     (case (if exp_id \<in> set [''exp4_fairness_vs_latency'', ''exp6_overhead_cost_analysis'']
            then subset_or_exp3 R metrics exp_id else exp_subset R metrics exp_id) of
        Inl _ \<Rightarrow> False
      | Inr df \<Rightarrow> \<not> rl_empty R df \<and> (exp_id \<in> set [''exp1_multicore_scaling'', ''exp2_high_load_convergence'']
          \<longrightarrow> ordered_workloads_from_df R df \<noteq> Inr []))"

definition expected_figures :: "'f report_library \<Rightarrow> 'f \<Rightarrow> target \<Rightarrow> figure list" where
  "expected_figures R metrics t =
     map (figure_for t) (filter (\<lambda>spec. has_figure R metrics (fst spec)) experiment_titles)"

lemma yields_finish:
  "emits produced [] d \<Longrightarrow> yields produced (map Inl (figure_files t i)) (Some (figure_for t (i, title))) (finish_figure R t i title d)"
  "emits figure_mark [True] d \<Longrightarrow> yields figure_mark [True, False] (Some (figure_for t (i, title))) (finish_figure R t i title d)"
proof -
  assume "emits produced [] d"
  from yields_then [OF yields_result [OF this, of "()"] yields_then [OF yields_save(1) yields_pure]]
  show "yields produced (map Inl (figure_files t i)) (Some (figure_for t (i, title))) (finish_figure R t i title d)"
    by (simp add: finish_figure_def figure_for_def)
next
  assume "emits figure_mark [True] d"
  from yields_then [OF yields_result [OF this, of "()"] yields_then [OF yields_save(2) yields_pure]]
  show "yields figure_mark [True, False] (Some (figure_for t (i, title))) (finish_figure R t i title d)"
    by (simp add: finish_figure_def figure_for_def)
qed

definition when_due :: "bool \<Rightarrow> 'b list \<Rightarrow> figure \<Rightarrow> ('f event \<Rightarrow> 'b option) \<Rightarrow> ('f, figure option) prog \<Rightarrow> bool" where
  "when_due b xs f p m = yields p (if b then xs else []) (if b then Some f else None) m"

lemma when_due_module:
  assumes "\<And>df. F = Inr df \<Longrightarrow> \<not> rl_empty R df \<Longrightarrow> when_due (D df) xs f p (body df)"
  shows "when_due (case F of Inl _ \<Rightarrow> False | Inr df \<Rightarrow> \<not> rl_empty R df \<and> D df) xs f p
    (run_then (pure F) (\<lambda>df. if rl_empty R df then pure (Inr None) else body df))"
  using assms by (cases F) (simp_all add: when_due_def yields_raise run_then_pure yields_pure)

lemma when_due_workloads:
  assumes "\<And>ws. yields p xs (Some f) (body ws)"
  shows "when_due (W \<noteq> Inr []) xs f p (run_then (pure W) (\<lambda>ws. if ws = [] then pure (Inr None) else body ws))"
  using assms by (cases W) (simp_all add: when_due_def yields_raise run_then_pure yields_pure)

lemma when_due_draw: "yields p xs (Some f) m \<Longrightarrow> when_due True xs f p m"
  by (simp add: when_due_def)

lemma has_figure_cases:
  "has_figure R m ''exp1_multicore_scaling'' = (case exp_subset R m ''exp1_multicore_scaling'' of
     Inl _ \<Rightarrow> False | Inr df \<Rightarrow> \<not> rl_empty R df \<and> ordered_workloads_from_df R df \<noteq> Inr [])"
  "has_figure R m ''exp2_high_load_convergence'' = (case exp_subset R m ''exp2_high_load_convergence'' of
     Inl _ \<Rightarrow> False | Inr df \<Rightarrow> \<not> rl_empty R df \<and> ordered_workloads_from_df R df \<noteq> Inr [])"
  "has_figure R m ''exp3_scheduler_workload_matrix'' = (case exp_subset R m ''exp3_scheduler_workload_matrix'' of
     Inl _ \<Rightarrow> False | Inr df \<Rightarrow> \<not> rl_empty R df \<and> True)"
  "has_figure R m ''exp4_fairness_vs_latency'' = (case subset_or_exp3 R m ''exp4_fairness_vs_latency'' of
     Inl _ \<Rightarrow> False | Inr df \<Rightarrow> \<not> rl_empty R df \<and> True)"
  "has_figure R m ''exp5_topology_comparison'' = (case exp_subset R m ''exp5_topology_comparison'' of
     Inl _ \<Rightarrow> False | Inr df \<Rightarrow> \<not> rl_empty R df \<and> True)"
  "has_figure R m ''exp6_overhead_cost_analysis'' = (case subset_or_exp3 R m ''exp6_overhead_cost_analysis'' of
     Inl _ \<Rightarrow> False | Inr df \<Rightarrow> \<not> rl_empty R df \<and> True)"
  by (simp_all add: has_figure_def split: sum.split)

lemmas due_rules = when_due_module when_due_workloads when_due_draw yields_finish emits_drawings emits_given

lemma modules_due:
  fixes R :: "'f report_library"
  shows "list_all2 (\<lambda>plot (i, title). when_due (has_figure R m i) (map Inl (figure_files t i)) (figure_for t (i, title))
      produced (plot R t m)) plot_modules experiment_titles"
    and "list_all2 (\<lambda>plot (i, title). when_due (has_figure R m i) [True, False] (figure_for t (i, title))
      figure_mark (plot R t m)) plot_modules experiment_titles"
  unfolding plot_modules_def experiment_titles_def list_all2_Cons prod.case has_figure_cases
    plot_exp1_def plot_exp2_def plot_exp3_def plot_exp4_def plot_exp5_def plot_exp6_def plot_bars_def
  by (intro conjI due_rules list_all2_Nil [THEN iffD2] refl)+

lemma run_modules_yield:
  "list_all2 (\<lambda>m (b, xs, f). when_due b xs f p m) ms specs
     \<Longrightarrow> yields p (concat (map (\<lambda>(b, xs, f). if b then xs else []) specs))
          (map (\<lambda>(b, xs, f). f) (filter fst specs)) (run_modules ms)"
proof (induction ms specs rule: list_all2_induct)
  case Nil
  show ?case by (simp add: yields_pure)
next
  case (Cons m ms spec specs)
  obtain b xs f where spec: "spec = (b, xs, f)" by (cases spec)
  from Cons(1) have m: "yields p (if b then xs else []) (if b then Some f else None) m" by (simp add: spec when_due_def)
  let ?fs = "map (\<lambda>(b, xs, f). f) (filter fst specs)"
  have "yields p ((if b then xs else []) @ concat (map (\<lambda>(b, xs, f). if b then xs else []) specs) @ [])
      (case (if b then Some f else None) of None \<Rightarrow> ?fs | Some f \<Rightarrow> f # ?fs) (run_modules (m # ms))"
    unfolding run_modules.simps by (rule yields_then, rule m, rule yields_then, rule Cons(3), rule yields_pure)
  then show ?case by (cases b) (simp_all add: spec)
qed

lemma specs_events:
  "concat (map (\<lambda>(b, xs, f). if b then xs else []) (map (\<lambda>(i, title). (h i, map Inl (figure_files t i), figure_for t (i, title))) specs))
     = map Inl (concat (map fg_files (map (figure_for t) (filter (\<lambda>spec. h (fst spec)) specs))))"
  "concat (map (\<lambda>(b, xs, f). if b then xs else []) (map (\<lambda>(i, title). (h i, [True, False], figure_for t (i, title))) specs))
     = concat (replicate (length (map (figure_for t) (filter (\<lambda>spec. h (fst spec)) specs))) [True, False])"
  "map (\<lambda>(b, xs, f). f) (filter fst (map (\<lambda>(i, title). (h i, g i, figure_for t (i, title))) specs))
     = map (figure_for t) (filter (\<lambda>spec. h (fst spec)) specs)"
  by (induction specs) (auto simp: figure_for_def)

lemma generate_yields:
  "yields produced (map Inl (concat (map fg_files (expected_figures R metrics t)))) (expected_figures R metrics t)
     (generate_experiment_figures R metrics t)"
  "yields figure_mark (concat (replicate (length (expected_figures R metrics t)) [True, False]))
     (expected_figures R metrics t) (generate_experiment_figures R metrics t)"
proof -
  let ?specs = "\<lambda>xs. map (\<lambda>(i, title). (has_figure R metrics i, xs i, figure_for t (i, title))) experiment_titles"
  have due: "list_all2 (\<lambda>m (b, xs, f). when_due b xs f produced m) (map (\<lambda>plot. plot R t metrics) plot_modules)
      (?specs (\<lambda>i. map Inl (figure_files t i)))"
    using modules_due(1) [of R metrics t] by (simp add: list_all2_map1 list_all2_map2 split_def)
  have marks: "list_all2 (\<lambda>m (b, xs, f). when_due b xs f figure_mark m) (map (\<lambda>plot. plot R t metrics) plot_modules)
      (?specs (\<lambda>i. [True, False]))"
    using modules_due(2) [of R metrics t] by (simp add: list_all2_map1 list_all2_map2 split_def)
  from run_modules_yield [OF due] show "yields produced (map Inl (concat (map fg_files (expected_figures R metrics t))))
      (expected_figures R metrics t) (generate_experiment_figures R metrics t)"
    by (simp only: specs_events generate_experiment_figures_def expected_figures_def)
  from run_modules_yield [OF marks] show "yields figure_mark (concat (replicate (length (expected_figures R metrics t)) [True, False]))
      (expected_figures R metrics t) (generate_experiment_figures R metrics t)"
    by (simp only: specs_events generate_experiment_figures_def expected_figures_def)
qed

end
