(* ===== verification/Report.thy ===== *)
theory Report
  imports ReportPlots SummaryTable
begin

text \<open>
  \<open>benchmark/report/data.py\<close>, \<open>markdown.py\<close> and \<open>cli.py\<close>, and \<open>scripts/plot_experiment_suite.py\<close>:
  the suite that is reported on, the frames of its rows, the Markdown report with links to the
  figures, and the two programs. The file system, the environment and the versions of the
  interpreter and its packages are the record \<open>report_world\<close>.
\<close>

section \<open>The suite and its rows\<close>

record 'f report_world =
  rw_lib :: "'f report_library"
  rw_env :: "string \<Rightarrow> string option"
  rw_resolve :: "string \<Rightarrow> string"
  rw_is_file :: "string \<Rightarrow> bool"
  rw_json :: "string \<Rightarrow> json pres"
  rw_commit :: "string option"
  rw_now :: string
  rw_python :: string
  rw_platform :: string
  rw_version :: "string \<Rightarrow> string option"

definition import_stack :: "'f report_world \<Rightarrow> 'f action" where
  "import_stack W =
     (let dir = (\<lambda>var name. case rw_env W var of Some d \<Rightarrow> d | None \<Rightarrow> rw_resolve W name)
      in steps [
        emit (rl_base (rw_lib W)) (MakeDir (dir ''MPLCONFIGDIR'' ''.mplconfig'')),
        emit (rl_base (rw_lib W)) (MakeDir (dir ''XDG_CACHE_HOME'' ''.cache'')),
        import_plotting_stack (rl_base (rw_lib W))])"

text \<open>A path to a suite file is replaced by the id in it; any other value is the id itself.\<close>

definition resolve_suite_id :: "'f report_world \<Rightarrow> string \<Rightarrow> string pres" where
  "resolve_suite_id W suite =
     (let suite_value = py_strip suite in
      if py_lower suite_value = ''full'' then Inr ''full''
      else if rw_is_file W suite_value
      then bind_res (rw_json W suite_value) (\<lambda>doc.
           bind_res (py_get doc ''suite_id'' (JStr [])) (\<lambda>v.
           let suite_id = py_strip (py_str (rl_repr (rw_lib W)) v) in
           if suite_id = [] then Inl (Fail (''Suite spec missing suite_id: '' @ suite_value)) else Inr suite_id))
      else Inr suite_value)"

definition read_csv_required :: "'f report_library \<Rightarrow> string \<Rightarrow> string \<Rightarrow> 'f pres" where
  "read_csv_required R dir name =
     (if lib_exists (rl_base R) (in_dir dir name) then lib_read (rl_base R) (in_dir dir name)
      else Inl (Fail (''Missing required analysis file: '' @ in_dir dir name)))"

definition read_csv_optional :: "'f report_library \<Rightarrow> string \<Rightarrow> string \<Rightarrow> 'f pres" where
  "read_csv_optional R dir name =
     (if lib_exists (rl_base R) (in_dir dir name) then lib_read (rl_base R) (in_dir dir name) else Inr (rl_no_frame R))"

record 'f frames =
  fr_metrics :: 'f
  fr_run_index :: 'f
  fr_quality :: 'f

definition load_analysis_frames :: "'f report_library \<Rightarrow> string \<Rightarrow> 'f frames pres" where
  "load_analysis_frames R dir =
     bind_res (read_csv_required R dir ''metrics_enriched.csv'') (\<lambda>m.
     bind_res (read_csv_required R dir ''run_index.csv'') (\<lambda>i.
     bind_res (read_csv_optional R dir ''quality_checks.csv'') (\<lambda>q.
     Inr \<lparr>fr_metrics = m, fr_run_index = i, fr_quality = q\<rparr>)))"

definition filter_by_suite :: "'f report_library \<Rightarrow> string \<Rightarrow> 'f \<Rightarrow> 'f pres" where
  "filter_by_suite R suite_id df =
     (if rl_empty R df \<or> suite_id = ''full'' \<or> ''SuiteId'' \<notin> set (rl_columns R df) then Inr df
      else where_eq R df ''SuiteId'' (JStr suite_id))"

definition filter_frames_by_suite :: "'f report_library \<Rightarrow> string \<Rightarrow> 'f frames \<Rightarrow> 'f frames pres" where
  "filter_frames_by_suite R suite_id fr =
     bind_res (filter_by_suite R suite_id (fr_metrics fr)) (\<lambda>m.
     bind_res (filter_by_suite R suite_id (fr_run_index fr)) (\<lambda>i.
     bind_res (filter_by_suite R suite_id (fr_quality fr)) (\<lambda>q.
     Inr \<lparr>fr_metrics = m, fr_run_index = i, fr_quality = q\<rparr>)))"

text \<open>The frames of the suite; the programs end here if there is no metrics row.\<close>

definition suite_frames :: "'f report_library \<Rightarrow> string \<Rightarrow> string \<Rightarrow> 'f frames pres" where
  "suite_frames R dir suite_id =
     bind_res (load_analysis_frames R dir) (\<lambda>all.
     bind_res (filter_frames_by_suite R suite_id all) (\<lambda>fr.
     if rl_empty R (fr_metrics fr)
     then Inl (Fail (''No metrics rows available after suite filter '' @ [CHR 0x27] @ suite_id @ [CHR 0x27]
       @ ''. Check SuiteId values in '' @ in_dir dir ''metrics_enriched.csv'' @ ''.''))
     else Inr fr))"


section \<open>Paths\<close>

text \<open>Absolute paths with slashes, by their components.\<close>

definition components :: "string \<Rightarrow> string list" where
  "components p = filter (\<lambda>c. c \<noteq> []) (split_on (CHR ''/'') p)"

fun relative_components :: "string list \<Rightarrow> string list \<Rightarrow> string list" where
  "relative_components (p # ps) (b # bs) =
     (if p = b then relative_components ps bs else replicate (length (b # bs)) ''..'' @ p # ps)"
| "relative_components ps [] = ps"
| "relative_components [] (b # bs) = replicate (length (b # bs)) ''..''"

definition posix :: "string list \<Rightarrow> string" where
  "posix cs = (if cs = [] then ''.'' else join ''/'' cs)"

text \<open>
  \<open>_to_rel_path\<close>: \<open>path.relative_to(base)\<close> where the path is below the base, and
  \<open>os.path.relpath\<close> otherwise.
\<close>

definition to_rel_path :: "string \<Rightarrow> string \<Rightarrow> string" where
  "to_rel_path path base =
     (if prefix (components base) (components path)
      then posix (drop (length (components base)) (components path))
      else posix (relative_components (components path) (components base)))"

definition parent_dir :: "string \<Rightarrow> string" where
  "parent_dir p = ''/'' @ join ''/'' (butlast (components p))"

definition last_component :: "string \<Rightarrow> string" where
  "last_component p = (if components p = [] then [] else last (components p))"


section \<open>The Markdown report\<close>

text \<open>\<open>str(row.get(col, "")).replace("\n", " ").replace("|", "\\|")\<close>\<close>

definition report_cell :: "(json \<Rightarrow> string) \<Rightarrow> json \<Rightarrow> string \<Rightarrow> string pres" where
  "report_cell rp row col =
     bind_res (py_get row col (JStr [])) (\<lambda>v.
     Inr (replace_char (CHR ''|'') [CHR 0x5C, CHR ''|''] (replace_char (CHR 10) '' '' (py_str rp v))))"

definition report_table_lines :: "(json \<Rightarrow> string) \<Rightarrow> json list \<Rightarrow> string list \<Rightarrow> string list pres" where
  "report_table_lines rp rows columns =
     (if rows = [] then Inr [''_No rows._'']
      else bind_res (map_res (\<lambda>row. bind_res (map_res (report_cell rp row) columns) (\<lambda>vs. Inr (table_line vs))) rows)
        (\<lambda>ls. Inr ([table_line columns, table_line (map (\<lambda>_. ''---'') columns)] @ ls)))"

definition report_table :: "(json \<Rightarrow> string) \<Rightarrow> json list \<Rightarrow> string list \<Rightarrow> string pres" where
  "report_table rp rows columns = bind_res (report_table_lines rp rows columns) (\<lambda>ls. Inr (join [CHR 10] ls))"

definition environment_row :: "string \<times> string \<Rightarrow> json" where
  "environment_row kv = JObj [(''Key'', JStr (fst kv)), (''Value'', JStr (snd kv))]"

definition git_commit_hash :: "'f report_world \<Rightarrow> string" where
  "git_commit_hash W = (case rw_commit W of Some out \<Rightarrow> py_strip out | None \<Rightarrow> ''unknown'')"

definition environment_rows :: "'f report_world \<Rightarrow> json list" where
  "environment_rows W =
     (let version = (\<lambda>m. case rw_version W m of Some v \<Rightarrow> v | None \<Rightarrow> ''unknown'')
      in map environment_row [
        (''GeneratedAtUtc'', rw_now W), (''CommitHash'', git_commit_hash W),
        (''PythonVersion'', hd (split_on (CHR 10) (rw_python W))), (''Platform'', rw_platform W),
        (''PandasVersion'', version ''pandas''), (''SeabornVersion'', version ''seaborn''),
        (''MatplotlibVersion'', version ''matplotlib'')])"

definition config_cols :: "string list" where
  "config_cols = [''SuiteId'', ''RunId'', ''Experiments'', ''Rows'', ''NumTasks'', ''Cores'', ''StopTime'',
     ''Topologies'', ''Balancers'', ''WorkStealingValues'', ''Workloads'', ''Schedulers'', ''ExecutionStatus'']"

text \<open>Missing columns are added as blank ones.\<close>

definition add_missing :: "'f report_library \<Rightarrow> string list \<Rightarrow> 'f \<Rightarrow> 'f pres" where
  "add_missing R cols df = fold_res (\<lambda>c f.
     if c \<in> set (rl_columns R f) then Inr f else lib_method (rl_base R) ''__setitem__'' f [Txt c, Txt []] []) cols df"

definition config_rows :: "'f report_library \<Rightarrow> 'f \<Rightarrow> json list pres" where
  "config_rows R df =
     (if rl_empty R df then Inr []
      else bind_res (add_missing R config_cols df) (\<lambda>full.
           bind_res (chain R [(''sort_values'', [texts [''SuiteId'', ''RunId'']], []),
             (''__getitem__'', [texts config_cols], [])] full) (\<lambda>t. Inr (lib_rows (rl_base R) t))))"

definition quality_rows :: "'f report_library \<Rightarrow> 'f \<Rightarrow> json list pres" where
  "quality_rows R df =
     (if rl_empty R df then Inr []
      else bind_res (add_missing R [''CheckType'', ''Severity''] df) (\<lambda>full.
           bind_res (chain R [(''groupby'', [texts [''CheckType'', ''Severity'']], [(''dropna'', Flag False)]), (''size'', [], []),
             (''reset_index'', [], [(''name'', Txt ''Count'')]), (''sort_values'', [texts [''CheckType'', ''Severity'']], [])] full)
           (\<lambda>t. Inr (lib_rows (rl_base R) t))))"

definition artifact_link :: "string \<Rightarrow> string \<Rightarrow> string" where
  "artifact_link dir p = ''[`'' @ last_component p @ ''`]('' @ to_rel_path p dir @ '')''"

definition figure_lines :: "string \<Rightarrow> figure \<Rightarrow> string list" where
  "figure_lines dir f =
     [''### '' @ fg_title f, []]
     @ (case find (\<lambda>p. suffix ''.png'' (py_lower p)) (fg_files f) of None \<Rightarrow> []
        | Some png \<Rightarrow> [''!['' @ fg_title f @ '']('' @ to_rel_path png dir @ '')'', []])
     @ (if fg_files f = [] then [] else [''Artifacts: '' @ join '', '' (map (artifact_link dir) (fg_files f)), []])"

definition report_lines ::
  "'f report_world \<Rightarrow> string \<Rightarrow> string \<Rightarrow> figure list \<Rightarrow> 'f frames \<Rightarrow> string list pres"
where
  "report_lines W suite_id dir generated fr =
     (let R = rw_lib W; rp = rl_repr R in
      bind_res (config_rows R (fr_run_index fr)) (\<lambda>config.
      bind_res (quality_rows R (fr_quality fr)) (\<lambda>quality.
      bind_res (report_table rp config config_cols) (\<lambda>config_table.
      bind_res (report_table rp (environment_rows W) [''Key'', ''Value'']) (\<lambda>env_table.
      bind_res (report_table rp quality [''CheckType'', ''Severity'', ''Count'']) (\<lambda>quality_table.
      Inr ([''# Scheduler Benchmark Report ('' @ suite_id @ '')'', [], ''## Publication Figures'', []]
        @ (if generated = [] then [''No publication figures were generated for this suite filter.'']
           else concat (map (figure_lines dir) generated))
        @ [''## Reproducibility Appendix'', [], ''### Configuration Table'', [], config_table, [],
           ''### Environment + Commit'', [], env_table, [], ''### Quality Check Summary'', [], quality_table, []])))))))"

definition build_markdown_report ::
  "'f report_world \<Rightarrow> string \<Rightarrow> string \<Rightarrow> figure list \<Rightarrow> 'f frames \<Rightarrow> 'f action"
where
  "build_markdown_report W suite_id report_path generated fr = steps [
     emit (rl_base (rw_lib W)) (MakeDir (parent_dir report_path)),
     given (report_lines W suite_id (parent_dir report_path) generated fr) (\<lambda>ls.
       emit (rl_base (rw_lib W)) (WriteText report_path (join [CHR 10] ls)))]"


section \<open>The programs\<close>

record report_args =
  ra_suite :: string
  ra_analysis_dir :: string
  ra_figures_dir :: string
  ra_report_dir :: string
  ra_formats :: string
  ra_dpi :: int

text \<open>\<open>_resolve_path\<close> of the report, with the root directory of the repository.\<close>

definition from_root :: "'f report_world \<Rightarrow> string \<Rightarrow> string \<Rightarrow> string" where
  "from_root W root_dir p = (if prefix ''/'' p then p else rw_resolve W (in_dir root_dir p))"

definition suite_slug :: "string \<Rightarrow> string" where
  "suite_slug suite_id = (if suite_id \<noteq> [] then suite_id else ''full'')"

definition report_target :: "'f report_world \<Rightarrow> string \<Rightarrow> report_args \<Rightarrow> string \<Rightarrow> target" where
  "report_target W root_dir a suite_id = \<lparr>
     out_dir = rw_resolve W (in_dir (from_root W root_dir (ra_figures_dir a)) (suite_slug suite_id)),
     out_formats = split_formats (ra_formats a), out_dpi = ra_dpi a\<rparr>"

definition report_path :: "'f report_world \<Rightarrow> string \<Rightarrow> report_args \<Rightarrow> string \<Rightarrow> string" where
  "report_path W root_dir a suite_id =
     rw_resolve W (in_dir (in_dir (from_root W root_dir (ra_report_dir a)) (suite_slug suite_id)) ''report.md'')"

text \<open>The figures, and what is done with the list of those that were made.\<close>

definition with_figures ::
  "'f report_library \<Rightarrow> target \<Rightarrow> 'f frames \<Rightarrow> (figure list \<Rightarrow> 'f action) \<Rightarrow> 'f action"
where
  "with_figures R t fr k tr = (case generate_experiment_figures R (fr_metrics fr) t tr of
     (Inl e, tr') \<Rightarrow> (Some e, tr')
   | (Inr generated, tr') \<Rightarrow> k generated tr')"

definition report_main :: "'f report_world \<Rightarrow> string \<Rightarrow> report_args \<Rightarrow> 'f action" where
  "report_main W root_dir a = given (resolve_suite_id W (ra_suite a)) (\<lambda>suite_id.
     let R = rw_lib W; t = report_target W root_dir a suite_id in steps [
       import_stack W,
       report_style R,
       given (suite_frames R (from_root W root_dir (ra_analysis_dir a)) suite_id) (\<lambda>fr.
         with_figures R t fr (\<lambda>generated. steps [
           write_figure_index R (out_dir t) generated,
           build_markdown_report W suite_id (report_path W root_dir a suite_id) generated fr]))])"

text \<open>\<open>plot_experiment_suite.py\<close>: the same figures and index in one directory, without a report.\<close>

definition plot_suite_main :: "'f report_world \<Rightarrow> report_args \<Rightarrow> 'f action" where
  "plot_suite_main W a =
     (let R = rw_lib W;
          t = \<lparr>out_dir = rw_resolve W (ra_figures_dir a), out_formats = split_formats (ra_formats a), out_dpi = ra_dpi a\<rparr>
      in steps [
        import_stack W,
        report_style R,
        given (resolve_suite_id W (ra_suite a)) (\<lambda>suite_id.
        given (suite_frames R (rw_resolve W (ra_analysis_dir a)) suite_id) (\<lambda>fr.
          with_figures R t fr (write_figure_index R (out_dir t))))])"


section \<open>What the programs leave behind\<close>

text \<open>A program without a value as an action.\<close>

definition as_action :: "('f, unit) prog \<Rightarrow> 'f action" where
  "as_action m tr = (case m tr of (Inl e, tr') \<Rightarrow> (Some e, tr') | (Inr u, tr') \<Rightarrow> (None, tr'))"

lemma emits_as_action: "yields p xs () m \<Longrightarrow> emits p xs (as_action m)"
  unfolding emits_def
proof (intro allI impI)
  fix tr x tr'
  assume m: "yields p xs () m" and run: "as_action m tr = (x, tr')"
  obtain r where r: "m tr = (r, tr')" "x = None \<longleftrightarrow> r = Inr ()"
    using run by (auto simp: as_action_def split: prod.splits sum.splits)
  from yieldsD [OF m r(1)] obtain evs where "tr' = tr @ evs" "prefix (seen p evs) xs"
    "\<forall>w. r = Inr w \<longrightarrow> w = () \<and> seen p evs = xs" by (elim exE conjE)
  with r(2) show "\<exists>evs. tr' = tr @ evs \<and> prefix (seen p evs) xs \<and> (x = None \<longrightarrow> seen p evs = xs)" by auto
qed

lemma emits_with_figures:
  assumes "yields p xs v (generate_experiment_figures R (fr_metrics fr) t)" and "emits p ys (k v)"
  shows "emits p (xs @ ys) (with_figures R t fr k)"
proof -
  have "with_figures R t fr k = as_action (run_then (generate_experiment_figures R (fr_metrics fr) t) (\<lambda>g. result (k g) ()))"
    by (auto simp: with_figures_def run_then_def result_def as_action_def fun_eq_iff split: prod.splits sum.splits option.splits)
  then show ?thesis
    by (simp only:) (rule emits_as_action, rule yields_then, rule assms(1), rule yields_result, rule assms(2))
qed

lemma emits_given_Inr: "r = Inr y \<Longrightarrow> emits p xs (k y) \<Longrightarrow> emits p xs (given r k)"
  by (simp add: given_def [abs_def])

lemma emits_raise: "emits p xs (given (Inl e) k)"
  by (simp add: emits_def given_def)

text \<open>The index is written after the figures, and the report after the index.\<close>

definition index_output :: "target \<Rightarrow> figure list \<Rightarrow> (string + string \<times> string) list" where
  "index_output t figs = map Inl (concat (map fg_files figs)) @ [Inr (in_dir (out_dir t) ''figure_index.md'', report_index figs)]"

definition report_output ::
  "'f report_world \<Rightarrow> string \<Rightarrow> string \<Rightarrow> figure list \<Rightarrow> 'f frames \<Rightarrow> (string + string \<times> string) list"
where
  "report_output W suite_id path figs fr = (case report_lines W suite_id (parent_dir path) figs fr of
     Inl _ \<Rightarrow> [] | Inr ls \<Rightarrow> [Inr (path, join [CHR 10] ls)])"

lemma emits_index:
  "emits produced [Inr (in_dir dir ''figure_index.md'', report_index figs)] (write_figure_index R dir figs)"
  "emits figure_mark [] (write_figure_index R dir figs)"
  unfolding write_figure_index_def
  by (rule emits_quiet, simp add: emits_emit, rule emits_last, simp add: emits_emit)+

lemma emits_report:
  "emits produced (report_output W suite_id path figs fr) (build_markdown_report W suite_id path figs fr)"
  "emits figure_mark [] (build_markdown_report W suite_id path figs fr)"
proof -
  have "emits produced (report_output W suite_id path figs fr)
      (given (report_lines W suite_id (parent_dir path) figs fr) (\<lambda>ls. emit L (WriteText path (join [CHR 10] ls))))" for L
    by (cases "report_lines W suite_id (parent_dir path) figs fr")
       (simp_all add: report_output_def emits_raise emits_given_Inr emits_emit del: given_simps)
  then show "emits produced (report_output W suite_id path figs fr) (build_markdown_report W suite_id path figs fr)"
    unfolding build_markdown_report_def by (intro emits_quiet [OF emits_emit] emits_last) simp_all
  show "emits figure_mark [] (build_markdown_report W suite_id path figs fr)"
    unfolding build_markdown_report_def
    by (intro emits_quiet [OF emits_emit] emits_last emits_given emits_emit) simp_all
qed

lemma emits_start:
  "emits produced [] (import_stack W)" "emits figure_mark [] (import_stack W)"
  "emits produced [] (report_style R)" "emits figure_mark [] (report_style R)"
  unfolding import_stack_def report_style_def Let_def
  by (rule emits_steps, simp add: emits_emit emits_setup(3) emits_calls)+

lemma emits_report_main:
  assumes "resolve_suite_id W (ra_suite a) = Inr suite_id"
    and "suite_frames (rw_lib W) (from_root W root_dir (ra_analysis_dir a)) suite_id = Inr fr"
  defines "t \<equiv> report_target W root_dir a suite_id"
  defines "figs \<equiv> expected_figures (rw_lib W) (fr_metrics fr) t"
  shows "emits produced (index_output t figs @ report_output W suite_id (report_path W root_dir a suite_id) figs fr)
      (report_main W root_dir a)"
    and "emits figure_mark (concat (replicate (length figs) [True, False])) (report_main W root_dir a)"
proof -
  let ?path = "report_path W root_dir a suite_id"
  let ?finish = "steps [write_figure_index (rw_lib W) (out_dir t) figs, build_markdown_report W suite_id ?path figs fr]"
  have "emits produced ([Inr (in_dir (out_dir t) ''figure_index.md'', report_index figs)] @ report_output W suite_id ?path figs fr) ?finish"
    by (rule emits_Cons, rule emits_index, rule emits_last, rule emits_report)
  from emits_with_figures [OF generate_yields(1) [of "rw_lib W" "fr_metrics fr" t],
      where k = "\<lambda>g. steps [write_figure_index (rw_lib W) (out_dir t) g, build_markdown_report W suite_id ?path g fr]",
      folded figs_def, OF this]
  show "emits produced (index_output t figs @ report_output W suite_id ?path figs fr) (report_main W root_dir a)"
    unfolding report_main_def assms(1) Let_def index_output_def append_assoc
    by (intro emits_given_Inr [OF refl] emits_quiet [OF emits_start(1)] emits_quiet [OF emits_start(3)]
        emits_last emits_given_Inr [OF assms(2)]) (simp only: t_def)
  have "emits figure_mark [] ?finish"
    by (rule emits_steps) (simp add: emits_index emits_report)
  from emits_with_figures [OF generate_yields(2) [of "rw_lib W" "fr_metrics fr" t],
      where k = "\<lambda>g. steps [write_figure_index (rw_lib W) (out_dir t) g, build_markdown_report W suite_id ?path g fr]",
      folded figs_def, OF this]
  show "emits figure_mark (concat (replicate (length figs) [True, False])) (report_main W root_dir a)"
    unfolding report_main_def assms(1) Let_def append_Nil2
    by (intro emits_given_Inr [OF refl] emits_quiet [OF emits_start(2)] emits_quiet [OF emits_start(4)]
        emits_last emits_given_Inr [OF assms(2)]) (simp only: t_def)
qed

lemma emitsD: "emits p xs m \<Longrightarrow> m [] = (x, tr) \<Longrightarrow> prefix (seen p tr) xs \<and> (x = None \<longrightarrow> seen p tr = xs)"
  unfolding emits_def by fastforce

text \<open>
  C20. However a run of the report program ends, what it has written is a beginning of: the figures of
  the experiments that have rows, in every format and in the order of the experiments, then the
  index that lists exactly these figures, then the report on exactly these figures. Figures are
  closed before the next one is opened. A run that completes has written all of it, and no other
  figure.
\<close>

theorem report_matches_figures:
  assumes "resolve_suite_id W (ra_suite a) = Inr suite_id"
    and "suite_frames (rw_lib W) (from_root W root_dir (ra_analysis_dir a)) suite_id = Inr fr"
    and "report_main W root_dir a [] = (x, tr)"
    and "figs = expected_figures (rw_lib W) (fr_metrics fr) (report_target W root_dir a suite_id)"
  shows "prefix (seen produced tr) (index_output (report_target W root_dir a suite_id) figs
      @ report_output W suite_id (report_path W root_dir a suite_id) figs fr)
    \<and> prefix (seen figure_mark tr) (concat (replicate (length figs) [True, False]))
    \<and> (x = None \<longrightarrow> seen produced tr = index_output (report_target W root_dir a suite_id) figs
        @ report_output W suite_id (report_path W root_dir a suite_id) figs fr
      \<and> seen figure_mark tr = concat (replicate (length figs) [True, False]))"
  using emitsD [OF emits_report_main(1) [OF assms(1,2)] assms(3)]
    emitsD [OF emits_report_main(2) [OF assms(1,2)] assms(3)]
  unfolding assms(4) by blast

text \<open>The other program writes the same figures and the same index.\<close>

lemma emits_plot_suite_main:
  assumes "resolve_suite_id W (ra_suite a) = Inr suite_id"
    and "suite_frames (rw_lib W) (rw_resolve W (ra_analysis_dir a)) suite_id = Inr fr"
    and "t = \<lparr>out_dir = rw_resolve W (ra_figures_dir a), out_formats = split_formats (ra_formats a), out_dpi = ra_dpi a\<rparr>"
  shows "emits produced (index_output t (expected_figures (rw_lib W) (fr_metrics fr) t)) (plot_suite_main W a)"
  using emits_with_figures [OF generate_yields(1) [of "rw_lib W" "fr_metrics fr" t] emits_index(1)]
  unfolding plot_suite_main_def assms(1) Let_def index_output_def assms(3) [symmetric]
  by (intro emits_quiet [OF emits_start(1)] emits_quiet [OF emits_start(3)] emits_last
      emits_given_Inr [OF refl] emits_given_Inr [OF assms(2)])

section \<open>The links of the report\<close>

text \<open>Following a path from a directory; the directories \<open>.\<close> and \<open>..\<close> have their usual meaning.\<close>

fun walk :: "string list \<Rightarrow> string list \<Rightarrow> string list" where
  "walk dir [] = dir"
| "walk dir (c # cs) = walk (if c = ''..'' then butlast dir else if c = ''.'' then dir else dir @ [c]) cs"

definition plain_path :: "string \<Rightarrow> bool" where
  "plain_path p \<longleftrightarrow> ''.'' \<notin> set (components p) \<and> ''..'' \<notin> set (components p)"

lemma walk_up: "walk dir (replicate n ''..'' @ cs) = walk (take (length dir - n) dir) cs"
  by (induction n arbitrary: dir) (simp_all add: butlast_conv_take min_def)

lemma walk_down: "''.'' \<notin> set cs \<Longrightarrow> ''..'' \<notin> set cs \<Longrightarrow> walk dir cs = dir @ cs"
  by (induction cs arbitrary: dir) auto

lemma walk_relative:
  "''.'' \<notin> set ps \<Longrightarrow> ''..'' \<notin> set ps \<Longrightarrow> walk (front @ bs) (relative_components ps bs) = front @ ps"
proof (induction ps bs arbitrary: front rule: relative_components.induct)
  case (1 p ps b bs)
  show ?case
  proof (cases "p = b")
    case True
    with 1(1) [of "front @ [b]"] 1(2,3) show ?thesis by simp
  next
    case False
    with walk_up [of "front @ b # bs" "length (b # bs)" "p # ps"] walk_down [of "p # ps" front] 1(2,3)
    show ?thesis by simp
  qed
next
  case (2 ps)
  with walk_down [of ps front] show ?case by simp
next
  case (3 b bs)
  with walk_up [of "front @ b # bs" "length (b # bs)" "[]"] show ?case by simp
qed

lemma components_members: "c \<in> set (components p) \<Longrightarrow> c \<noteq> [] \<and> CHR ''/'' \<notin> set c"
  using split_on_no_sep by (force simp: components_def)

lemma components_posix:
  "\<forall>c\<in>set cs. c \<noteq> [] \<and> CHR ''/'' \<notin> set c \<Longrightarrow> components (posix cs) = (if cs = [] then [''.''] else cs)"
  by (simp add: components_def posix_def split_on_join filter_id_conv)

lemma relative_members: "c \<in> set (relative_components ps bs) \<Longrightarrow> c = ''..'' \<or> c \<in> set ps"
  by (induction ps bs rule: relative_components.induct) (auto split: if_splits)

lemma to_rel_path_walk:
  assumes "plain_path p"
  shows "walk (components dir) (components (to_rel_path p dir)) = components p"
proof (cases "prefix (components dir) (components p)")
  case True
  then obtain cs where cs: "components p = components dir @ cs" by (auto simp: prefix_def)
  then have "components (posix cs) = (if cs = [] then [''.''] else cs)"
    by (intro components_posix) (metis UnCI components_members set_append)
  with True cs assms walk_down [of cs "components dir"] show ?thesis
    by (simp add: to_rel_path_def plain_path_def)
next
  case False
  let ?cs = "relative_components (components p) (components dir)"
  have "components (posix ?cs) = (if ?cs = [] then [''.''] else ?cs)"
    by (intro components_posix) (use relative_members components_members in fastforce)
  moreover have "walk ([] @ components dir) ?cs = [] @ components p"
    using assms by (intro walk_relative) (simp_all add: plain_path_def)
  ultimately show ?thesis using False by (auto simp: to_rel_path_def)
qed

lemma sublist_under: "sublist l xs \<Longrightarrow> sublist l (ps @ xs)"
  by (rule sublist_order.order.trans [OF _ sublist_append_leftI])

lemma sublist_join: "l \<in> set ws \<Longrightarrow> sublist l (join sep ws)"
proof (induction sep ws rule: join.induct)
  case (3 sep w v ws)
  show ?case
  proof (cases "l = w")
    case False
    with 3 have "sublist l (join sep (v # ws))" by simp
    then have "sublist l ((w @ sep) @ join sep (v # ws))" by (rule sublist_under)
    then show ?thesis by simp
  qed simp
qed simp_all

text \<open>
  C21. For every file of every figure the report has a line with a link that names the file, and
  following the target of the link from the directory of the report leads to the file.
\<close>

theorem report_links:
  assumes "report_lines W suite_id dir generated fr = Inr ls" and "f \<in> set generated" and "p \<in> set (fg_files f)"
    and "plain_path p"
  shows "\<exists>l\<in>set ls. sublist (''[`'' @ last_component p @ ''`]('' @ to_rel_path p dir @ '')'') l
    \<and> walk (components dir) (components (to_rel_path p dir)) = components p"
proof -
  have line: "\<exists>l\<in>set (figure_lines dir f). sublist (artifact_link dir p) l"
  proof -
    have "sublist (artifact_link dir p) (''Artifacts: '' @ join '', '' (map (artifact_link dir) (fg_files f)))"
      using assms(3) by (intro sublist_under sublist_join) simp
    moreover have "''Artifacts: '' @ join '', '' (map (artifact_link dir) (fg_files f)) \<in> set (figure_lines dir f)"
      using assms(3) by (auto simp: figure_lines_def)
    ultimately show ?thesis by blast
  qed
  from assms(2) have "generated \<noteq> []" by auto
  with assms(1,2) have "set (figure_lines dir f) \<subseteq> set ls"
    by (auto simp: report_lines_def Let_def bind_res_Inr)
  with line to_rel_path_walk [OF assms(4)] show ?thesis unfolding artifact_link_def by blast
qed

end
