(* ===== verification/ReportRows.thy ===== *)
theory ReportRows
  imports Report Aggregate
begin

text \<open>
  From the aggregation to the report: which of the enriched metrics rows the report takes as the
  rows of an experiment. What pandas does on the file of metrics is stated by \<open>frame_laws\<close>.
\<close>

section \<open>The experiments of an enriched row\<close>

text \<open>The two texts of the experiments in a row: the ids, joined, and the flags.\<close>

definition attributed :: "string list \<Rightarrow> metrics_row \<Rightarrow> bool" where
  "attributed ids row \<longleftrightarrow> m_experiment_ids row = (if ids \<noteq> [] then join '';'' ids else ''none'')
     \<and> experiment_flags (map JStr ids) = Inr (m_flags row)"

definition clean_exp_id :: "string \<Rightarrow> bool" where
  "clean_exp_id s \<longleftrightarrow> s \<noteq> [] \<and> s \<noteq> ''none'' \<and> CHR '';'' \<notin> set s \<and> py_strip s = s"

definition all_attributed :: "aggregate \<Rightarrow> bool" where
  "all_attributed g \<longleftrightarrow> (\<forall>row\<in>set (g_metrics g). \<exists>ids. attributed ids row)"

lemma run_meta_attributed:
  "run_meta_of rp idx specs mf first = Inr r \<Longrightarrow> attributed (rm_experiment_ids r) (enrich_row mf r row)"
  by (auto simp: run_meta_of_def bind_res_Inr attributed_def enrich_row_def dest: id_strings_Inr)

lemma aggregate_file_attributed:
  assumes "aggregate_file rp idx specs mf g = Inr g'" and "all_attributed g"
  shows "all_attributed g'"
proof (cases "mf_rows mf = []")
  case True
  with assms show ?thesis by (simp add: aggregate_file_def)
next
  case False
  show ?thesis
  proof (rule aggregate_file_Inr [OF assms(1) False])
    fix r assume "run_meta_of rp idx specs mf (hd (mf_rows mf)) = Inr r"
      "g_metrics g' = g_metrics g @ map (enrich_row mf r) (mf_rows mf)"
    with run_meta_attributed [of rp idx specs mf "hd (mf_rows mf)" r] assms(2) show ?thesis
      unfolding all_attributed_def by auto
  qed
qed

lemma aggregate_attributed: "aggregate_metrics rp idx specs files = Inr g \<Longrightarrow> all_attributed g"
proof -
  assume "aggregate_metrics rp idx specs files = Inr g"
  then obtain g1 where g1: "fold_res (aggregate_file rp idx specs) files aggregate_start = Inr g1"
    "g_metrics g = g_metrics g1"
    by (auto simp: aggregate_metrics_def bind_res_Inr)
  have "all_attributed g1" using g1(1)
    by (rule fold_res_invariant) (simp add: all_attributed_def aggregate_start_def, rule aggregate_file_attributed)
  with g1(2) show ?thesis by (simp add: all_attributed_def)
qed


section \<open>The rows of an experiment\<close>

text \<open>
  A frame read from the metrics file, and every selection of its rows, shows enriched rows: it has
  their columns and cells, a mask keeps the rows where it is true, and it is empty without rows.
\<close>

definition frame_laws :: "'f report_library \<Rightarrow> ('f \<Rightarrow> metrics_row list) \<Rightarrow> bool" where
  "frame_laws R rows \<longleftrightarrow> (\<forall>df.
     ''ExperimentIds'' \<in> set (rl_columns R df)
     \<and> (\<forall>n. exp_flag_name n \<in> set (rl_columns R df) \<longleftrightarrow> n \<in> {1..<7})
     \<and> rl_texts R df ''ExperimentIds'' = map m_experiment_ids (rows df)
     \<and> (\<forall>n\<in>{1..<7}. rl_equal R df (exp_flag_name n) (JInt 1)
          = Inr (map (\<lambda>row. map_of (m_flags row) (exp_flag_name n) = Some 1) (rows df)))
     \<and> (\<forall>P. rows (rl_keep R df (map P (rows df))) = filter P (rows df))
     \<and> rows (rl_no_rows R df) = []
     \<and> (rl_empty R df \<longleftrightarrow> rows df = []))"

lemma listed_attributed:
  assumes "attributed ids row" and "\<forall>s\<in>set ids. clean_exp_id s"
  shows "listed_experiments (m_experiment_ids row) = ids"
proof (cases "ids = []")
  case True
  have "listed_experiments ''none'' = []" by code_simp
  with assms(1) True show ?thesis by (simp add: attributed_def)
next
  case False
  with assms have "split_on (CHR '';'') (m_experiment_ids row) = ids"
    by (auto simp: attributed_def clean_exp_id_def intro!: split_on_join)
  moreover have "filter (\<lambda>p. py_strip p \<noteq> [] \<and> py_strip p \<noteq> ''none'') ids = ids" "map py_strip ids = ids"
    using assms(2) by (auto simp: clean_exp_id_def filter_id_conv map_idI simp del: py_strip_Nil)
  ultimately show ?thesis by (simp add: listed_experiments_def)
qed

lemma flag_attributed:
  assumes "attributed ids row" and "n \<in> {1..<7}"
  shows "map_of (m_flags row) (exp_flag_name n) = Some 1 \<longleftrightarrow> (\<exists>s\<in>set ids. exp_number (py_lower s) = Some n)"
proof -
  let ?f = "\<lambda>i. if \<exists>s\<in>set ids. exp_number (py_lower s) = Some i then 1 else 0 :: int"
  have "m_flags row = map (\<lambda>i. (exp_flag_name i, ?f i)) [1..<7]"
    using assms(1) by (simp add: attributed_def experiment_flags_exact)
  moreover have "map_of (map (\<lambda>i. (exp_flag_name i, ?f i)) is) (exp_flag_name n) = Some (?f n)" if "n \<in> set is" for "is"
    using that by (induction "is") auto
  ultimately show ?thesis using assms(2) by simp
qed



section \<open>An example\<close>

text \<open>Frames that are lists of enriched rows.\<close>

definition rows_library :: "metrics_row list \<Rightarrow> metrics_row list report_library" where
  "rows_library file = (let present = (\<lambda>df c. Inr (if c = ''Workload''
       then remdups (map (\<lambda>r. case m_workload r of Some w \<Rightarrow> JStr w | None \<Rightarrow> JFloat NaN) df)
       else if c = ''TopologyVariant'' then remdups (map (\<lambda>r. JStr (m_topology_variant r)) df) else [JStr ''4''])) in \<lparr>
     rl_base = \<lparr>lib_import = None, lib_exists = (\<lambda>p. True), lib_read = (\<lambda>p. Inr file),
       lib_rows = map (\<lambda>r. JObj [(''NumTasks'', JInt (m_num_tasks r)), (''TopologyVariant'', JStr (m_topology_variant r))]),
       lib_set_column = (\<lambda>df c ls. Inr df), lib_map_column = (\<lambda>df c m c'. Inr df), lib_where = (\<lambda>df c v. Inr df),
       lib_method = (\<lambda>n df args kws. Inr df), lib_raises = (\<lambda>tr e. None), lib_legend = (\<lambda>tr i. True)\<rparr>,
     rl_repr = (\<lambda>v. ''nan''), rl_empty = (\<lambda>df. df = []),
     rl_columns = (\<lambda>df. ''ExperimentIds'' # map exp_flag_name [1..<7]), rl_no_frame = [], rl_no_rows = (\<lambda>df. []),
     rl_keep = (\<lambda>df mask. map fst (filter snd (zip df mask))), rl_texts = (\<lambda>df c. map m_experiment_ids df),
     rl_equal = (\<lambda>df c v. Inr (map (\<lambda>row. map_of (m_flags row) c = Some 1) df)),
     rl_unique = present, rl_present = present, rl_first = (\<lambda>df c. Inr (JInt 500)),
     rl_numbers = (\<lambda>df c. Inr [Fin 3, NaN]), rl_ylim = (\<lambda>tr i. (Fin 0, Fin 1)), rl_axes = (\<lambda>tr. 1),
     rl_is_log = (\<lambda>tr i. False), rl_log_error = (\<lambda>tr. True)\<rparr>)"

lemma rows_library_laws: "frame_laws (rows_library file) (\<lambda>df. df)"
proof -
  have "map fst (filter snd (zip df (map P df))) = filter P df" for P and df :: "metrics_row list"
    by (induction df) auto
  moreover have "exp_flag_name n \<noteq> ''ExperimentIds''" for n
  proof
    assume "exp_flag_name n = ''ExperimentIds''"
    then have "CHR ''e'' \<in> set (dec_nat n)" by (simp add: exp_flag_name_def)
    from dec_nat_is_digit [OF this] show False by (simp add: is_digit_def)
  qed
  ultimately show ?thesis by (auto simp: frame_laws_def rows_library_def Let_def)
qed

definition sample_row :: "string list \<Rightarrow> metrics_row" where
  "sample_row ids = (enrich_row sample_metrics_file sample_run_meta
     [(''Workload'', Some ''Server''), (''Scheduler'', Some ''CFS'')])
     \<lparr>m_experiment_ids := join '';'' ids, m_flags := (case experiment_flags (map JStr ids) of Inr f \<Rightarrow> f | Inl _ \<Rightarrow> [])\<rparr>"

definition two_rows :: "metrics_row list" where
  "two_rows = [sample_row [''exp1_multicore_scaling''], sample_row [''exp3_scheduler_workload_matrix'', ''exp5-x'']]"



text \<open>One row of the experiment 3, which gives the figures of the experiments 3, 4 and 6.\<close>

definition exp3_rows :: "metrics_row list" where
  "exp3_rows = [sample_row [''exp3_scheduler_workload_matrix'']]"

definition sample_world :: "metrics_row list report_world" where
  "sample_world = \<lparr>rw_lib = rows_library exp3_rows, rw_env = (\<lambda>v. None), rw_resolve = (\<lambda>p. p), rw_is_file = (\<lambda>p. False),
     rw_json = (\<lambda>p. Inl TypeErr), rw_commit = Some ''abc'', rw_now = ''now'', rw_python = ''3'', rw_platform = ''Linux'',
     rw_version = (\<lambda>m. None)\<rparr>"

definition sample_report_args :: report_args where
  "sample_report_args = \<lparr>ra_suite = ''full'', ra_analysis_dir = ''/a'', ra_figures_dir = ''/f'', ra_report_dir = ''/r'',
     ra_formats = ''png'', ra_dpi = 300\<rparr>"

definition sample_frames :: "metrics_row list frames" where
  "sample_frames = \<lparr>fr_metrics = exp3_rows, fr_run_index = exp3_rows, fr_quality = exp3_rows\<rparr>"

lemma sample_start:
  "resolve_suite_id sample_world (ra_suite sample_report_args) = Inr ''full''"
  "suite_frames (rw_lib sample_world) (from_root sample_world ''/x'' (ra_analysis_dir sample_report_args)) ''full'' = Inr sample_frames"
  by code_simp+

lemma sample_figures:
  "map fg_files (expected_figures (rw_lib sample_world) (fr_metrics sample_frames) (report_target sample_world ''/x'' sample_report_args ''full''))
     = [[''/f/full/exp3_scheduler_workload_matrix.png''], [''/f/full/exp4_fairness_vs_latency.png''],
        [''/f/full/exp6_overhead_cost_analysis.png'']]"
  by code_simp

theorem report_matches_figures_witness:
  "\<exists>tr. report_main sample_world ''/x'' sample_report_args [] = (None, tr)
    \<and> Inl ''/f/full/exp6_overhead_cost_analysis.png'' \<in> set (seen produced tr)"
proof -
  have "fst (report_main sample_world ''/x'' sample_report_args []) = None" by code_simp
  then obtain tr where tr: "report_main sample_world ''/x'' sample_report_args [] = (None, tr)" by (metis prod.collapse)
  let ?figs = "expected_figures (rw_lib sample_world) (fr_metrics sample_frames) (report_target sample_world ''/x'' sample_report_args ''full'')"
  have "''/f/full/exp6_overhead_cost_analysis.png'' \<in> set (concat (map fg_files ?figs))"
    unfolding sample_figures by simp
  with report_matches_figures [OF sample_start tr refl] tr show ?thesis by (auto simp: index_output_def)
qed

theorem report_links_witness:
  "\<exists>ls l. report_lines sample_world ''full'' ''/r/full'' [\<lparr>fg_experiment = ''e'', fg_title = ''t'', fg_stem = ''e'', fg_files = [''/f/full/e.png'']\<rparr>]
      sample_frames = Inr ls \<and> l \<in> set ls \<and> sublist ''[`e.png`](../../f/full/e.png)'' l"
proof -
  let ?f = "\<lparr>fg_experiment = ''e'', fg_title = ''t'', fg_stem = ''e'', fg_files = [''/f/full/e.png'']\<rparr>"
  have "(case report_lines sample_world ''full'' ''/r/full'' [?f] sample_frames of Inr ls \<Rightarrow> True | Inl e \<Rightarrow> False)" by code_simp
  then obtain ls where ls: "report_lines sample_world ''full'' ''/r/full'' [?f] sample_frames = Inr ls"
    by (auto split: sum.splits)
  have "plain_path ''/f/full/e.png''" "last_component ''/f/full/e.png'' = ''e.png''"
    "to_rel_path ''/f/full/e.png'' ''/r/full'' = ''../../f/full/e.png''" by code_simp+
  with report_links [OF ls, of ?f "''/f/full/e.png''"] ls show ?thesis by auto
qed

end
